theory Spec2Isabelle
  imports Complex_Main
begin

section \<open>Occupancy grid (src/server/occupancy-grid.js)\<close>

text \<open>
  JavaScript numbers are modelled as mathematical numbers: grid coordinates, cell values
  and counters as \<open>int\<close>, metric quantities as \<open>real\<close>.  The two \<open>Int8Array\<close>s are
  lists of length \<open>width * height\<close>; a store into them converts the value to a signed
  byte, which is the identity on the three occupancy values.
\<close>

record OccupancyGrid =
  width :: nat
  height :: nat
  resolution :: real
  origin_x :: real
  origin_y :: real
  data :: "int list"
  inflatedData :: "int list"
  robotRadius :: real
  inflationRadius :: int
  stats_unknown :: int
  stats_free :: int
  stats_occupied :: int

definition toInt8 :: "int \<Rightarrow> int" where
  "toInt8 v = (v + 128) mod 256 - 128"

definition newOccupancyGrid :: "nat \<Rightarrow> nat \<Rightarrow> real \<Rightarrow> OccupancyGrid" where
  "newOccupancyGrid w h r =
     \<lparr> width = w, height = h, resolution = r,
       origin_x = - real w * r / 2, origin_y = - real h * r / 2,
       data = replicate (w * h) 0, inflatedData = replicate (w * h) 0,
       robotRadius = 0.2, inflationRadius = \<lceil>0.2 / r\<rceil>,
       stats_unknown = int (w * h), stats_free = 0, stats_occupied = 0 \<rparr>"

definition worldToGrid :: "OccupancyGrid \<Rightarrow> real \<Rightarrow> real \<Rightarrow> int \<times> int" where
  "worldToGrid g x y =
     (\<lfloor>(x - origin_x g) / resolution g\<rfloor>, \<lfloor>(y - origin_y g) / resolution g\<rfloor>)"

definition gridToWorld :: "OccupancyGrid \<Rightarrow> int \<Rightarrow> int \<Rightarrow> real \<times> real" where
  "gridToWorld g gx gy =
     ((real_of_int gx + 0.5) * resolution g + origin_x g,
      (real_of_int gy + 0.5) * resolution g + origin_y g)"

definition isInMap :: "OccupancyGrid \<Rightarrow> int \<Rightarrow> int \<Rightarrow> bool" where
  "isInMap g gx gy \<longleftrightarrow> gx \<ge> 0 \<and> gx < int (width g) \<and> gy \<ge> 0 \<and> gy < int (height g)"

definition cellIndex :: "OccupancyGrid \<Rightarrow> int \<Rightarrow> int \<Rightarrow> nat" where
  "cellIndex g gx gy = nat (gy * int (width g) + gx)"

definition getOccupancy :: "OccupancyGrid \<Rightarrow> int \<Rightarrow> int \<Rightarrow> int" where
  "getOccupancy g gx gy = (if \<not> isInMap g gx gy then -1 else data g ! cellIndex g gx gy)"

definition updateStats :: "int \<Rightarrow> int \<Rightarrow> OccupancyGrid \<Rightarrow> OccupancyGrid" where
  "updateStats oldValue newValue g =
     (let g1 = (if oldValue = 0 then g\<lparr>stats_unknown := stats_unknown g - 1\<rparr>
                else if oldValue = 1 then g\<lparr>stats_free := stats_free g - 1\<rparr>
                else if oldValue = -1 then g\<lparr>stats_occupied := stats_occupied g - 1\<rparr>
                else g)
      in (if newValue = 0 then g1\<lparr>stats_unknown := stats_unknown g1 + 1\<rparr>
          else if newValue = 1 then g1\<lparr>stats_free := stats_free g1 + 1\<rparr>
          else if newValue = -1 then g1\<lparr>stats_occupied := stats_occupied g1 + 1\<rparr>
          else g1))"

definition setOccupancy :: "OccupancyGrid \<Rightarrow> int \<Rightarrow> int \<Rightarrow> int \<Rightarrow> OccupancyGrid" where
  "setOccupancy g gx gy v =
     (if \<not> isInMap g gx gy then g
      else let index = cellIndex g gx gy; oldValue = data g ! index
           in if oldValue \<noteq> v
              then (let g1 = updateStats oldValue v g
                    in g1\<lparr>data := (data g1)[index := toInt8 v]\<rparr>)
              else g)"

text \<open>
  The body of the \<open>while (steps < maxSteps)\<close> loop of \<open>raytrace\<close>; the first argument is
  the number of iterations still allowed, \<open>maxSteps - steps\<close>.
\<close>

fun raytraceLoop ::
  "nat \<Rightarrow> int \<Rightarrow> int \<Rightarrow> int \<Rightarrow> int \<Rightarrow> int \<Rightarrow> int \<Rightarrow> int \<Rightarrow> int \<Rightarrow> int \<Rightarrow> OccupancyGrid
     \<Rightarrow> OccupancyGrid" where
  "raytraceLoop 0 dx dy sx sy x1 y1 err x0 y0 g = g"
| "raytraceLoop (Suc n) dx dy sx sy x1 y1 err x0 y0 g =
     (let g1 = (if isInMap g x0 y0 \<and> getOccupancy g x0 y0 \<noteq> -1
                then setOccupancy g x0 y0 1 else g)
      in if x0 = x1 \<and> y0 = y1 then g1
         else let e2 = 2 * err;
                  errA = (if e2 > - dy then err - dy else err);
                  xA = (if e2 > - dy then x0 + sx else x0);
                  errB = (if e2 < dx then errA + dx else errA);
                  yB = (if e2 < dx then y0 + sy else y0)
              in raytraceLoop n dx dy sx sy x1 y1 errB xA yB g1)"

definition raytrace :: "OccupancyGrid \<Rightarrow> int \<Rightarrow> int \<Rightarrow> int \<Rightarrow> int \<Rightarrow> OccupancyGrid" where
  "raytrace g x0 y0 x1 y1 =
     (let dx = \<bar>x1 - x0\<bar>; dy = \<bar>y1 - y0\<bar>;
          sx = (if x0 < x1 then 1 else -1);
          sy = (if y0 < y1 then 1 else -1);
          err = dx - dy;
          maxSteps = max (width g) (height g)
      in raytraceLoop maxSteps dx dy sx sy x1 y1 err x0 y0 g)"

definition getExploredArea :: "OccupancyGrid \<Rightarrow> real" where
  "getExploredArea g =
     (let knownCells = stats_free g + stats_occupied g;
          cellArea = resolution g * resolution g
      in real_of_int knownCells * cellArea)"

definition reset :: "OccupancyGrid \<Rightarrow> OccupancyGrid" where
  "reset g = g\<lparr> data := replicate (length (data g)) 0,
                inflatedData := replicate (length (inflatedData g)) 0,
                stats_unknown := int (width g * height g),
                stats_free := 0, stats_occupied := 0 \<rparr>"

text \<open>
  One iteration of the inner loop of \<open>inflateCell\<close>, for the offset \<open>(dx, dy)\<close> from the
  obstacle cell \<open>(cx, cy)\<close>.
\<close>

definition inflateOffset :: "int \<Rightarrow> int \<Rightarrow> int \<Rightarrow> int \<Rightarrow> OccupancyGrid \<Rightarrow> OccupancyGrid" where
  "inflateOffset cx cy dy dx g =
     (let gx = cx + dx; gy = cy + dy
      in if \<not> isInMap g gx gy then g
         else let distance = sqrt (real_of_int (dx * dx + dy * dy))
              in if distance \<le> real_of_int (inflationRadius g)
                 then (let index = cellIndex g gx gy
                       in if inflatedData g ! index \<noteq> -1
                          then g\<lparr>inflatedData := (inflatedData g)[index := -1]\<rparr>
                          else g)
                 else g)"

definition inflateCell :: "OccupancyGrid \<Rightarrow> int \<Rightarrow> int \<Rightarrow> OccupancyGrid" where
  "inflateCell g cx cy =
     (let radius = inflationRadius g
      in fold (\<lambda>dy. fold (inflateOffset cx cy dy) [- radius..radius]) [- radius..radius] g)"

definition copyRaw :: "int list \<Rightarrow> int list \<Rightarrow> int list" where
  "copyRaw src dst = map (\<lambda>i. if i < length src then src ! i else dst ! i) [0..<length dst]"

definition inflateObstacles :: "OccupancyGrid \<Rightarrow> OccupancyGrid" where
  "inflateObstacles g =
     (let g0 = g\<lparr>inflatedData := copyRaw (data g) (inflatedData g)\<rparr>
      in fold (\<lambda>gy. fold (\<lambda>gx ga.
                 if data ga ! cellIndex ga (int gx) (int gy) = -1
                 then inflateCell ga (int gx) (int gy) else ga) [0..<width g0])
           [0..<height g0] g0)"

definition getInflatedOccupancy :: "OccupancyGrid \<Rightarrow> int \<Rightarrow> int \<Rightarrow> int" where
  "getInflatedOccupancy g gx gy =
     (if \<not> isInMap g gx gy then -1 else inflatedData g ! cellIndex g gx gy)"


section \<open>Exploration engine (the \<open>ExplorationEngine\<close> class)\<close>

text \<open>
  A call that dereferences a \<open>null\<close> position raises a \<open>TypeError\<close>; a call whose
  \<open>while (true)\<close> loop never leaves does not return.  Both are results of the model.
\<close>

datatype error = TypeError | NonTermination

record Vec3 =
  vec_x :: real
  vec_y :: real
  vec_z :: real

text \<open>A frontier cluster \<open>{x, y, size}\<close>; a missing \<open>size\<close> reads as 0 (falsy).\<close>

record Frontier =
  fr_x :: real
  fr_y :: real
  fr_size :: nat

text \<open>
  The scorer's output \<open>{...frontier, z, density, pathClear}\<close>.  The height is \<open>None\<close>
  when it is \<open>NaN\<close> (an empty list of height levels).
\<close>

record Goal =
  goal_x :: real
  goal_y :: real
  goal_size :: nat
  goal_z :: "real option"
  goal_density :: real
  goal_pathClear :: bool

record SceneBounds =
  minX :: real
  maxX :: real
  minY :: real
  maxY :: real
  minZ :: real
  maxZ :: real

text \<open>JavaScript values, as far as the validation of scoring weights tells them apart.\<close>

datatype JsValue =
    JsUndefined | JsNull | JsBoolean bool | JsNumber real | JsNaN
  | JsInfinity | JsNegInfinity | JsString string | JsObject

record Task =
  task_x :: real
  task_y :: real
  task_z :: "real option"
  yaw :: real
  camera_on :: bool
  camera_mode :: int
  camera_interval :: int

record Mission =
  mission_id :: string
  tasks :: "Task list"

text \<open>
  What a handler sends out: events emitted to listeners, messages handed to the MQTT
  client, and timers it sets (\<open>setTimeout\<close>).
\<close>

datatype Output =
    EmitStarted | EmitPaused | EmitResumed | EmitStopped | EmitReturned | EmitStatus
  | MqttPublish string
  | PublishMission Mission
  | TimerPublishExecution string nat
  | TimerExplorationStep

record Config =
  mapWidth :: nat
  mapHeight :: nat
  cfg_resolution :: real
  maxDistance :: real
  maxDuration :: real
  clusterRadius :: real
  minClusterSize :: nat
  explorationHeight :: real
  updateInterval :: int
  boundaryMin :: "Vec3 option"
  boundaryMax :: "Vec3 option"
  enableZExploration :: bool
  minHeight :: real
  maxHeight :: real
  roiPolygon :: "(real \<times> real) list option"
  useROI :: bool
  scoringWeights :: "string \<Rightarrow> JsValue"

text \<open>
  The options of \<open>startExploration\<close>, each present or absent; \<open>Object.assign\<close> copies
  the present ones into the configuration.
  Only the keys that the callers of the engine pass are kept; an option object carrying
  any other configuration key is outside the model.
\<close>

record StartOptions =
  opt_startPosition :: "Vec3 option"
  opt_maxDistance :: "real option"
  opt_maxDuration :: "real option"
  opt_explorationHeight :: "real option"
  opt_enableZExploration :: "bool option"
  opt_minHeight :: "real option"
  opt_maxHeight :: "real option"
  opt_boundaryMin :: "Vec3 option"
  opt_boundaryMax :: "Vec3 option"

text \<open>
  The key of the attempt counter is the string \<open>x.toFixed(1) + "," + y.toFixed(1)\<close>.
  A rendering by \<open>toFixed(1)\<close> is kept as its sign and its number of tenths.
\<close>

type_synonym GoalKey = "(bool \<times> nat) \<times> (bool \<times> nat)"

record Engine =
  config :: Config
  isExploring :: bool
  isPaused :: bool
  startPos :: "Vec3 option"
  currentPos :: "Vec3 option"
  startTime :: "int option"
  lastUpdateTime :: int
  grid :: OccupancyGrid
  frontiers :: "Frontier list"
  visitedGoals :: "(real \<times> real) list"
  goalAttempts :: "GoalKey \<rightharpoonup> int"
  unreachableGoals :: "(real \<times> real) list"
  currentGoal :: "Goal option"
  currentMissionId :: "string option"
  isWaitingForArrival :: bool
  isPreparingNextGoal :: bool
  missionStartTime :: "int option"
  lastVelocityCheck :: "(real \<times> real \<times> int) option"
  stuckStartTime :: "int option"
  isReturningHome :: bool
  returnHomeMissionId :: "string option"
  sceneBounds :: "SceneBounds option"
  lastGoalDirection :: "(real \<times> real) option"
  lastStatusPublishTime :: int
  pendingStarts :: nat
  outbox :: "Output list"

definition maxAttempts :: int where "maxAttempts = 5"
definition arrivalTimeout :: int where "arrivalTimeout = 8000"
definition STUCK_THRESHOLD :: int where "STUCK_THRESHOLD = 3000"
definition VELOCITY_THRESHOLD :: real where "VELOCITY_THRESHOLD = 0.1"

definition defaultWeights :: "string \<Rightarrow> JsValue" where
  "defaultWeights =
     (\<lambda>k. JsUndefined)(''infoGain'' := JsNumber 0.5, ''distance'' := JsNumber 0.3,
        ''consistency'' := JsNumber 0.3, ''density'' := JsNumber 0.2,
        ''history'' := JsNumber 0.2)"

definition defaultConfig :: Config where
  "defaultConfig =
     \<lparr> mapWidth = 100, mapHeight = 100, cfg_resolution = 0.2, maxDistance = 20,
       maxDuration = 600, clusterRadius = 1.0, minClusterSize = 5,
       explorationHeight = 1.0, updateInterval = 500,
       boundaryMin = None, boundaryMax = None, enableZExploration = True,
       minHeight = 0.5, maxHeight = 3.0, roiPolygon = None, useROI = False,
       scoringWeights = defaultWeights \<rparr>"

definition newEngine :: Engine where
  "newEngine =
     \<lparr> config = defaultConfig, isExploring = False, isPaused = False,
       startPos = None, currentPos = None, startTime = None, lastUpdateTime = 0,
       grid = newOccupancyGrid (mapWidth defaultConfig) (mapHeight defaultConfig)
                (cfg_resolution defaultConfig),
       frontiers = [], visitedGoals = [], goalAttempts = Map.empty,
       unreachableGoals = [], currentGoal = None, currentMissionId = None,
       isWaitingForArrival = False, isPreparingNextGoal = False,
       missionStartTime = None, lastVelocityCheck = None, stuckStartTime = None,
       isReturningHome = False, returnHomeMissionId = None, sceneBounds = None,
       lastGoalDirection = None, lastStatusPublishTime = 0, pendingStarts = 0,
       outbox = [] \<rparr>"

definition hypot :: "real \<Rightarrow> real \<Rightarrow> real" where
  "hypot a b = sqrt (a * a + b * b)"

text \<open>A time stamp is truthy when it is neither \<open>null\<close> nor 0.\<close>

definition truthyTime :: "int option \<Rightarrow> bool" where
  "truthyTime t = (case t of None \<Rightarrow> False | Some v \<Rightarrow> v \<noteq> 0)"

definition emit :: "Output \<Rightarrow> Engine \<Rightarrow> Engine" where
  "emit out st = st\<lparr>outbox := outbox st @ [out]\<rparr>"

subsection \<open>Scene bounds and region of interest\<close>

definition lowest :: "real \<Rightarrow> real list \<Rightarrow> real" where
  "lowest v vs = fold (\<lambda>a m. if a < m then a else m) vs v"

definition highest :: "real \<Rightarrow> real list \<Rightarrow> real" where
  "highest v vs = fold (\<lambda>a m. if a > m then a else m) vs v"

fun calculateSceneBounds :: "Vec3 list \<Rightarrow> Engine \<Rightarrow> Engine" where
  "calculateSceneBounds [] st = st"
| "calculateSceneBounds (p # ps) st =
     (let loX = lowest (vec_x p) (map vec_x ps); hiX = highest (vec_x p) (map vec_x ps);
          loY = lowest (vec_y p) (map vec_y ps); hiY = highest (vec_y p) (map vec_y ps);
          loZ = lowest (vec_z p) (map vec_z ps); hiZ = highest (vec_z p) (map vec_z ps)
      in st\<lparr>sceneBounds := Some \<lparr> minX = loX + 1.5, maxX = hiX - 1.5,
                                    minY = loY + 1.5, maxY = hiY - 1.5,
                                    minZ = max 0.5 (loZ + 0.3),
                                    maxZ = min 2.5 (hiZ - 0.5) \<rparr>\<rparr>)"

text \<open>The height \<open>z\<close> is \<open>None\<close> for \<open>NaN\<close>, which fails every comparison.\<close>

definition isWithinBounds :: "Engine \<Rightarrow> real \<Rightarrow> real \<Rightarrow> real option \<Rightarrow> bool" where
  "isWithinBounds st px py pz =
     (let bounds =
            (case (boundaryMin (config st), boundaryMax (config st)) of
               (Some lo, Some hi) \<Rightarrow> Some (lo, hi)
             | _ \<Rightarrow> (case sceneBounds st of
                       Some b \<Rightarrow> Some (\<lparr>vec_x = minX b, vec_y = minY b, vec_z = minZ b\<rparr>,
                                       \<lparr>vec_x = maxX b, vec_y = maxY b, vec_z = maxZ b\<rparr>)
                     | None \<Rightarrow> None))
      in case bounds of
           None \<Rightarrow> True
         | Some (lo, hi) \<Rightarrow>
             px \<ge> vec_x lo \<and> px \<le> vec_x hi \<and> py \<ge> vec_y lo \<and> py \<le> vec_y hi \<and>
             (case pz of None \<Rightarrow> False | Some h \<Rightarrow> h \<ge> vec_z lo \<and> h \<le> vec_z hi))"

definition setROI :: "(real \<times> real) list \<Rightarrow> Engine \<Rightarrow> Engine" where
  "setROI polygon st =
     (if length polygon < 3 then st
      else st\<lparr>config := (config st)\<lparr>roiPolygon := Some polygon, useROI := True\<rparr>\<rparr>)"

definition clearROI :: "Engine \<Rightarrow> Engine" where
  "clearROI st = st\<lparr>config := (config st)\<lparr>roiPolygon := None, useROI := False\<rparr>\<rparr>"

text \<open>The loop \<open>for (i = 0, j = n - 1; i < n; j = i++)\<close> carries \<open>j\<close> and \<open>inside\<close>.\<close>

definition isPointInPolygon :: "real \<times> real \<Rightarrow> (real \<times> real) list \<Rightarrow> bool" where
  "isPointInPolygon point polygon =
     snd (fold (\<lambda>i (j, inside).
            (let xi = fst (polygon ! i); yi = snd (polygon ! i);
                 xj = fst (polygon ! j); yj = snd (polygon ! j);
                 intersect = (((yi > snd point) \<noteq> (yj > snd point)) \<and>
                    (fst point < (xj - xi) * (snd point - yi) / (yj - yi) + xi))
             in (i, if intersect then \<not> inside else inside)))
          [0..<length polygon] (length polygon - 1, False))"

subsection \<open>Scoring weights\<close>

definition validKeys :: "string list" where
  "validKeys = [''infoGain'', ''distance'', ''consistency'', ''density'', ''history'']"

fun isJsNumber :: "JsValue \<Rightarrow> bool" where
  "isJsNumber (JsNumber r) = True"
| "isJsNumber JsNaN = True"
| "isJsNumber JsInfinity = True"
| "isJsNumber JsNegInfinity = True"
| "isJsNumber v = False"

fun jsLessThan :: "JsValue \<Rightarrow> real \<Rightarrow> bool" where
  "jsLessThan (JsNumber r) c = (r < c)"
| "jsLessThan JsNegInfinity c = True"
| "jsLessThan v c = False"

fun jsGreaterThan :: "JsValue \<Rightarrow> real \<Rightarrow> bool" where
  "jsGreaterThan (JsNumber r) c = (r > c)"
| "jsGreaterThan JsInfinity c = True"
| "jsGreaterThan v c = False"

definition rejectedWeight :: "JsValue \<Rightarrow> bool" where
  "rejectedWeight v \<longleftrightarrow> \<not> isJsNumber v \<or> jsLessThan v 0 \<or> jsGreaterThan v 1"

text \<open>
  The loop over \<open>validKeys\<close>, with its early return; the result is the \<open>success\<close> flag
  and the stored weights.
  The argument is an object, read as a map from keys to values, \<open>JsUndefined\<close> at an
  absent key.
\<close>

fun setWeightsLoop ::
  "string list \<Rightarrow> (string \<Rightarrow> JsValue) \<Rightarrow> (string \<Rightarrow> JsValue) \<Rightarrow> bool \<times> (string \<Rightarrow> JsValue)" where
  "setWeightsLoop [] weights stored = (True, stored)"
| "setWeightsLoop (key # keys) weights stored =
     (if weights key \<noteq> JsUndefined
      then (if rejectedWeight (weights key) then (False, stored)
            else setWeightsLoop keys weights (stored(key := weights key)))
      else setWeightsLoop keys weights stored)"

definition setScoringWeights :: "(string \<Rightarrow> JsValue) \<Rightarrow> Engine \<Rightarrow> bool \<times> Engine" where
  "setScoringWeights weights st =
     (let r = setWeightsLoop validKeys weights (scoringWeights (config st))
      in (fst r, st\<lparr>config := (config st)\<lparr>scoringWeights := snd r\<rparr>\<rparr>))"

definition getScoringWeights :: "Engine \<Rightarrow> string \<Rightarrow> JsValue" where
  "getScoringWeights st = scoringWeights (config st)"


subsection \<open>Map update from a point cloud\<close>

text \<open>The points at the indices \<open>0, 10, 20, ...\<close> (the loop \<open>i += sampleRate\<close>).\<close>

definition samplePoints :: "'a list \<Rightarrow> 'a list" where
  "samplePoints points =
     map (\<lambda>k. points ! (k * 10)) [0..<(length points + 9) div 10]"

definition integratePoint :: "Vec3 \<Rightarrow> int \<times> int \<Rightarrow> Vec3 \<Rightarrow> OccupancyGrid \<Rightarrow> OccupancyGrid" where
  "integratePoint dronePos droneGrid point g =
     (if \<bar>vec_z point - vec_z dronePos\<bar> > 1.0 then g
      else let obstacleGrid = worldToGrid g (vec_x point) (vec_y point)
           in if \<not> isInMap g (fst obstacleGrid) (snd obstacleGrid) then g
              else setOccupancy
                     (raytrace g (fst droneGrid) (snd droneGrid)
                        (fst obstacleGrid) (snd obstacleGrid))
                     (fst obstacleGrid) (snd obstacleGrid) (-1))"

definition updateMapFromPointCloud :: "Vec3 list \<Rightarrow> Vec3 \<Rightarrow> OccupancyGrid \<Rightarrow> OccupancyGrid" where
  "updateMapFromPointCloud points dronePos g =
     (let droneGrid = worldToGrid g (vec_x dronePos) (vec_y dronePos)
      in inflateObstacles (fold (integratePoint dronePos droneGrid) (samplePoints points) g))"

subsection \<open>Frontier detection\<close>

definition hasUnknownNeighbor :: "OccupancyGrid \<Rightarrow> int \<Rightarrow> int \<Rightarrow> bool" where
  "hasUnknownNeighbor g gx gy =
     list_ex (\<lambda>dx. list_ex (\<lambda>dy. \<not> (dx = 0 \<and> dy = 0) \<and>
                 getOccupancy g (gx + dx) (gy + dy) = 0) [-1..1]) [-1..1]"

text \<open>
  Greedy clustering.  The source marks members as visited by index; here the points
  already put into a cluster are dropped from the list that is still to be scanned.
\<close>

fun clusterLoop :: "real \<Rightarrow> nat \<Rightarrow> (real \<times> real) list \<Rightarrow> Frontier list" where
  "clusterLoop radius minSize [] = []"
| "clusterLoop radius minSize (p # ps) =
     (let near = filter (\<lambda>q. hypot (fst p - fst q) (snd p - snd q) < radius) ps;
          far = filter (\<lambda>q. \<not> hypot (fst p - fst q) (snd p - snd q) < radius) ps;
          cluster = p # near;
          rest = clusterLoop radius minSize far
      in if length cluster \<ge> minSize
         then \<lparr> fr_x = fold (\<lambda>q s. s + fst q) cluster 0 / real (length cluster),
                fr_y = fold (\<lambda>q s. s + snd q) cluster 0 / real (length cluster),
                fr_size = length cluster \<rparr> # rest
         else rest)"

definition clusterFrontiers :: "Config \<Rightarrow> (real \<times> real) list \<Rightarrow> Frontier list" where
  "clusterFrontiers cfg rawFrontiers = clusterLoop (clusterRadius cfg) (minClusterSize cfg) rawFrontiers"

definition detectFrontiers :: "Engine \<Rightarrow> Vec3 \<Rightarrow> Frontier list" where
  "detectFrontiers st pos =
     (let g = grid st;
          droneGrid = worldToGrid g (vec_x pos) (vec_y pos);
          searchRadius = \<lfloor>maxDistance (config st) / cfg_resolution (config st)\<rfloor>;
          xMin = max 1 (fst droneGrid - searchRadius);
          xMax = min (int (width g) - 2) (fst droneGrid + searchRadius);
          yMin = max 1 (snd droneGrid - searchRadius);
          yMax = min (int (height g) - 2) (snd droneGrid + searchRadius);
          frontierCandidates =
            concat (map (\<lambda>gx. concat (map (\<lambda>gy.
                if getOccupancy g gx gy = 1 \<and> hasUnknownNeighbor g gx gy
                then [gridToWorld g gx gy] else []) [yMin..yMax])) [xMin..xMax])
      in clusterFrontiers (config st) frontierCandidates)"

subsection \<open>Local density and obstacle counts\<close>

text \<open>The counters \<open>(obstacleCount, unknownCount, freeCount, totalCount)\<close> of one cell.\<close>

definition densityOffset ::
  "OccupancyGrid \<Rightarrow> real \<Rightarrow> int \<times> int \<Rightarrow> real \<Rightarrow> int \<Rightarrow> int \<Rightarrow> int \<times> int \<times> int \<times> int
     \<Rightarrow> int \<times> int \<times> int \<times> int" where
  "densityOffset g res c radius dx dy counts =
     (let gx = fst c + dx; gy = snd c + dy
      in if \<not> isInMap g gx gy then counts
         else let distance = sqrt (real_of_int (dx * dx + dy * dy)) * res
              in if distance > radius then counts
                 else (case counts of (obstacleCount, unknownCount, freeCount, totalCount) \<Rightarrow>
                         let occupancy = getOccupancy g gx gy
                         in if real_of_int occupancy < -0.5
                            then (obstacleCount + 1, unknownCount, freeCount, totalCount + 1)
                            else if occupancy = 0
                            then (obstacleCount, unknownCount + 1, freeCount, totalCount + 1)
                            else (obstacleCount, unknownCount, freeCount + 1, totalCount + 1)))"

definition calculatePointCloudDensity :: "Engine \<Rightarrow> real \<Rightarrow> real \<Rightarrow> real \<Rightarrow> real" where
  "calculatePointCloudDensity st px py radius =
     (let g = grid st; res = cfg_resolution (config st);
          c = worldToGrid g px py;
          radiusInGrids = \<lceil>radius / res\<rceil>;
          counts = fold (\<lambda>dx. fold (densityOffset g res c radius dx) [- radiusInGrids..radiusInGrids])
                     [- radiusInGrids..radiusInGrids] (0, 0, 0, 0)
      in case counts of (obstacleCount, unknownCount, freeCount, totalCount) \<Rightarrow>
           if totalCount = 0 then 0.5
           else let obstacleDensity = real_of_int obstacleCount / real_of_int totalCount;
                    unknownDensity = real_of_int unknownCount / real_of_int totalCount;
                    density = obstacleDensity + 0.3 * unknownDensity
                in min density 1.0)"

definition obstacleOffset ::
  "OccupancyGrid \<Rightarrow> real \<Rightarrow> int \<times> int \<Rightarrow> real \<Rightarrow> int \<Rightarrow> int \<Rightarrow> int \<Rightarrow> int" where
  "obstacleOffset g res c radius dx dy obstacleCount =
     (let gx = fst c + dx; gy = snd c + dy
      in if \<not> isInMap g gx gy then obstacleCount
         else let distance = sqrt (real_of_int (dx * dx + dy * dy)) * res
              in if distance > radius then obstacleCount
                 else if real_of_int (getOccupancy g gx gy) < -0.5 then obstacleCount + 1
                 else obstacleCount)"

definition countNearbyObstacles :: "Engine \<Rightarrow> real \<Rightarrow> real \<Rightarrow> real \<Rightarrow> int" where
  "countNearbyObstacles st px py radius =
     (let g = grid st; res = cfg_resolution (config st);
          c = worldToGrid g px py;
          radiusInGrids = \<lceil>radius / res\<rceil>
      in fold (\<lambda>dx. fold (obstacleOffset g res c radius dx) [- radiusInGrids..radiusInGrids])
           [- radiusInGrids..radiusInGrids] 0)"

subsection \<open>Path check along a Bresenham line\<close>

text \<open>
  The \<open>while (true)\<close> loop of \<open>bresenhamLine\<close>; \<open>None\<close> stands for a loop that never
  reaches its \<open>break\<close>.
\<close>

partial_function (option) bresenhamLoop ::
  "int \<Rightarrow> int \<Rightarrow> int \<Rightarrow> int \<Rightarrow> int \<Rightarrow> int \<Rightarrow> int \<Rightarrow> int \<Rightarrow> int \<Rightarrow> (int \<times> int) list
     \<Rightarrow> (int \<times> int) list option" where
  "bresenhamLoop dx dy sx sy x1 y1 err x y points =
     (if x = x1 \<and> y = y1 then Some (points @ [(x, y)])
      else bresenhamLoop dx dy sx sy x1 y1
             (if 2 * err < dx then (if 2 * err > - dy then err - dy else err) + dx
              else (if 2 * err > - dy then err - dy else err))
             (if 2 * err > - dy then x + sx else x)
             (if 2 * err < dx then y + sy else y)
             (points @ [(x, y)]))"

definition bresenhamLine :: "int \<Rightarrow> int \<Rightarrow> int \<Rightarrow> int \<Rightarrow> (int \<times> int) list option" where
  "bresenhamLine x0 y0 x1 y1 =
     (let dx = \<bar>x1 - x0\<bar>; dy = \<bar>y1 - y0\<bar>;
          sx = (if x0 < x1 then 1 else -1);
          sy = (if y0 < y1 then 1 else -1);
          err = dx - dy
      in bresenhamLoop dx dy sx sy x1 y1 err x0 y0 [])"

definition cellIsFree :: "OccupancyGrid \<Rightarrow> int \<times> int \<Rightarrow> bool" where
  "cellIsFree g p \<longleftrightarrow> isInMap g (fst p) (snd p) \<and> getInflatedOccupancy g (fst p) (snd p) = 1"

definition isPathClear :: "OccupancyGrid \<Rightarrow> real \<times> real \<Rightarrow> real \<times> real \<Rightarrow> error + bool" where
  "isPathClear g start goal =
     (let startGrid = worldToGrid g (fst start) (snd start);
          goalGrid = worldToGrid g (fst goal) (snd goal)
      in case bresenhamLine (fst startGrid) (snd startGrid) (fst goalGrid) (snd goalGrid) of
           None \<Rightarrow> Inl NonTermination
         | Some points \<Rightarrow> Inr (list_all (cellIsFree g) points))"


subsection \<open>Goal selection\<close>

function heightLevelsFrom :: "real \<Rightarrow> real \<Rightarrow> real list" where
  "heightLevelsFrom h hi = (if h \<le> hi then h # heightLevelsFrom (h + 0.5) hi else [])"
  by pat_completeness auto
termination
proof (relation "measure (\<lambda>(h, hi). nat \<lceil>(hi - h) * 2 + 1\<rceil>)")
  show "wf (measure (\<lambda>(h, hi). nat \<lceil>(hi - h) * 2 + 1\<rceil>))" by simp
next
  fix h hi :: real
  assume le: "h \<le> hi"
  have eq: "(hi - (h + 0.5)) * 2 + 1 = ((hi - h) * 2 + 1) - 1" by (simp add: algebra_simps)
  have "0 < (hi - h) * 2 + 1" using le by simp
  then have pos: "0 < \<lceil>(hi - h) * 2 + 1\<rceil>" by (simp only: zero_less_ceiling)
  have "\<lceil>(hi - (h + 0.5)) * 2 + 1\<rceil> = \<lceil>(hi - h) * 2 + 1\<rceil> - 1"
    unfolding eq by (rule ceiling_diff_one)
  with pos have "nat \<lceil>(hi - (h + 0.5)) * 2 + 1\<rceil> < nat \<lceil>(hi - h) * 2 + 1\<rceil>" by linarith
  then show "((h + 0.5, hi), (h, hi)) \<in> measure (\<lambda>(h, hi). nat \<lceil>(hi - h) * 2 + 1\<rceil>)"
    by (simp only: in_measure prod.case)
qed

declare heightLevelsFrom.simps [simp del]

text \<open>
  The target height of a frontier.  With no height level, the index is \<open>NaN\<close>, the
  element \<open>undefined\<close> and the clamped height \<open>NaN\<close>, here \<open>None\<close>.
\<close>

definition selectHeight :: "Config \<Rightarrow> real \<Rightarrow> real \<Rightarrow> real option" where
  "selectHeight cfg fx fy =
     (if enableZExploration cfg
      then let loZ = minHeight cfg; hiZ = maxHeight cfg;
               heightLevels = heightLevelsFrom loZ hiZ;
               hash = \<lfloor>fx * 10\<rfloor> + \<lfloor>fy * 10\<rfloor>
           in if heightLevels = [] then None
              else Some (max loZ (min hiZ
                     (heightLevels ! (nat \<bar>hash\<bar> mod length heightLevels))))
      else Some (explorationHeight cfg))"

text \<open>
  The loop over \<open>visitedGoals\<close>: \<open>None\<close> when it breaks on a visited goal closer than
  0.3 m (the frontier is skipped), the accumulated penalty otherwise.
\<close>

fun historyLoop :: "real \<Rightarrow> real \<Rightarrow> (real \<times> real) list \<Rightarrow> real \<Rightarrow> real option" where
  "historyLoop fx fy [] historyPenalty = Some historyPenalty"
| "historyLoop fx fy (visited # rest) historyPenalty =
     (let dist = hypot (fx - fst visited) (fy - snd visited)
      in if dist < 0.3 then None
         else historyLoop fx fy rest
                (if dist < 2.0 then historyPenalty + 0.5 * (1.0 - dist / 2.0)
                 else historyPenalty))"

text \<open>
  A stored weight as a number; \<open>None\<close> is \<open>NaN\<close>.  The validation stores nothing but
  finite numbers and \<open>NaN\<close>, and a key never stored reads \<open>undefined\<close>, \<open>NaN\<close> in
  arithmetic.
\<close>

fun weightValue :: "JsValue \<Rightarrow> real option" where
  "weightValue (JsNumber r) = Some r"
| "weightValue v = None"

text \<open>\<open>score > bestScore\<close>: a \<open>NaN\<close> score is never better; \<open>bestScore = None\<close> is \<open>-Infinity\<close>.\<close>

definition scoreBetter :: "real option \<Rightarrow> real option \<Rightarrow> bool" where
  "scoreBetter score bestScore =
     (case score of None \<Rightarrow> False
      | Some s \<Rightarrow> (case bestScore of None \<Rightarrow> True | Some b \<Rightarrow> s > b))"

definition nearUnreachable :: "Engine \<Rightarrow> Frontier \<Rightarrow> bool" where
  "nearUnreachable st frontier =
     list_ex (\<lambda>goal. hypot (fr_x frontier - fst goal) (fr_y frontier - snd goal) < 2.0)
       (unreachableGoals st)"

text \<open>
  The score of a frontier that passed every filter, and the goal built from it.
\<close>

definition scoreFrontier ::
  "Engine \<Rightarrow> Vec3 \<Rightarrow> Frontier \<Rightarrow> real \<Rightarrow> real option \<Rightarrow> real \<Rightarrow> real option \<times> Goal" where
  "scoreFrontier st pos frontier distance targetHeight historyPenalty =
     (let fx = fr_x frontier; fy = fr_y frontier;
          distanceCost = 1.0 / (1.0 + distance);
          infoGain = min (real (if fr_size frontier = 0 then 1 else fr_size frontier) / 50.0) 1.0;
          density = calculatePointCloudDensity st fx fy 2.0;
          densityPenalty = density;
          weights = scoringWeights (config st);
          directionBonus =
            (case lastGoalDirection st of
               None \<Rightarrow> Some 0
             | Some d \<Rightarrow>
                 (let dotProduct = (fx - vec_x pos) / distance * fst d +
                                   (fy - vec_y pos) / distance * snd d
                  in map_option (\<lambda>w. max 0 dotProduct * w)
                       (weightValue (weights ''consistency''))));
          score =
            (case (weightValue (weights ''distance''), weightValue (weights ''infoGain''),
                   weightValue (weights ''history''), weightValue (weights ''density''),
                   directionBonus) of
               (Some wDistance, Some wInfoGain, Some wHistory, Some wDensity, Some bonus) \<Rightarrow>
                 Some (wDistance * distanceCost + wInfoGain * infoGain +
                       - wHistory * historyPenalty + - wDensity * densityPenalty + bonus)
             | _ \<Rightarrow> None)
      in (score,
          \<lparr> goal_x = fx, goal_y = fy, goal_size = fr_size frontier,
            goal_z = targetHeight, goal_density = density, goal_pathClear = True \<rparr>))"

text \<open>
  The body of the loop of \<open>selectBestFrontier\<close> for one frontier: \<open>None\<close> when a
  \<open>continue\<close> skips it, its score and the goal built from it otherwise.
\<close>

definition evaluateFrontier ::
  "Engine \<Rightarrow> Vec3 \<Rightarrow> Frontier \<Rightarrow> error + (real option \<times> Goal) option" where
  "evaluateFrontier st pos frontier =
     (let cfg = config st; g = grid st; fx = fr_x frontier; fy = fr_y frontier
      in if useROI cfg \<and> roiPolygon cfg \<noteq> None \<and>
            \<not> isPointInPolygon (fx, fy) (case roiPolygon cfg of Some poly \<Rightarrow> poly | None \<Rightarrow> [])
         then Inr None
         else if nearUnreachable st frontier then Inr None
         else (case isPathClear g (vec_x pos, vec_y pos) (fx, fy) of
           Inl e \<Rightarrow> Inl e
         | Inr pathClear \<Rightarrow>
            (if \<not> pathClear then Inr None
             else if getExploredArea g > 50 \<and> countNearbyObstacles st fx fy 1.5 = 0
             then Inr None
             else (let c = worldToGrid g fx fy
                  in if \<not> isInMap g (fst c) (snd c) then Inr None
                     else if getOccupancy g (fst c) (snd c) = -1 then Inr None
                     else (let distance = hypot (fx - vec_x pos) (fy - vec_y pos)
                          in if distance < 0.5 then Inr None
                             else if distance > 15 then Inr None
                             else (let targetHeight = selectHeight cfg fx fy
                                  in if \<not> isWithinBounds st fx fy targetHeight then Inr None
                                     else (case historyLoop fx fy (visitedGoals st) 0 of
                                             None \<Rightarrow> Inr None
                                           | Some historyPenalty \<Rightarrow>
                                               Inr (Some (scoreFrontier st pos frontier distance
                                                      targetHeight historyPenalty)))))))))"

fun selectLoop ::
  "Engine \<Rightarrow> Vec3 \<Rightarrow> Frontier list \<Rightarrow> real option \<Rightarrow> Goal option \<Rightarrow> error + Goal option" where
  "selectLoop st pos [] bestScore bestFrontier = Inr bestFrontier"
| "selectLoop st pos (frontier # rest) bestScore bestFrontier =
     (case evaluateFrontier st pos frontier of
        Inl e \<Rightarrow> Inl e
      | Inr None \<Rightarrow> selectLoop st pos rest bestScore bestFrontier
      | Inr (Some (score, goal)) \<Rightarrow>
          if scoreBetter score bestScore then selectLoop st pos rest score (Some goal)
          else selectLoop st pos rest bestScore bestFrontier)"

text \<open>The selected goal (or \<open>None\<close> for \<open>null\<close>) and the engine with the direction updated.\<close>

definition selectBestFrontier ::
  "Engine \<Rightarrow> Frontier list \<Rightarrow> Vec3 \<Rightarrow> error + (Goal option \<times> Engine)" where
  "selectBestFrontier st frontierList pos =
     (case selectLoop st pos frontierList None None of
        Inl e \<Rightarrow> Inl e
      | Inr None \<Rightarrow> Inr (None, st)
      | Inr (Some bestFrontier) \<Rightarrow>
          (let dist = hypot (goal_x bestFrontier - vec_x pos) (goal_y bestFrontier - vec_y pos)
           in Inr (Some bestFrontier,
                   st\<lparr>lastGoalDirection :=
                        Some ((goal_x bestFrontier - vec_x pos) / dist,
                              (goal_y bestFrontier - vec_y pos) / dist)\<rparr>)))"

subsection \<open>Mission synthesis\<close>

record Waypoint =
  wp_x :: real
  wp_y :: real
  wp_z :: "real option"

definition generateWaypoints :: "Vec3 \<Rightarrow> Goal \<Rightarrow> Waypoint list" where
  "generateWaypoints start goal =
     (let distance = hypot (goal_x goal - vec_x start) (goal_y goal - vec_y start);
          numWaypoints = max 2 \<lfloor>distance / 2.0\<rfloor>
      in map (\<lambda>i. let t = real_of_int i / real_of_int numWaypoints
                  in \<lparr> wp_x = vec_x start + (goal_x goal - vec_x start) * t,
                       wp_y = vec_y start + (goal_y goal - vec_y start) * t,
                       wp_z = map_option (\<lambda>gz. vec_z start + (gz - vec_z start) * t)
                                (goal_z goal) \<rparr>)
           [1..numWaypoints])"

text \<open>The decimal digits of a number, as a template literal prints \<open>Date.now()\<close>.\<close>

function showNat :: "nat \<Rightarrow> string" where
  "showNat n =
     (if n < 10 then [''0123456789'' ! n]
      else showNat (n div 10) @ [''0123456789'' ! (n mod 10)])"
  by pat_completeness auto
termination
  by (relation "measure (\<lambda>n. n)") auto

declare showNat.simps [simp del]

definition waypointTask :: "Waypoint \<Rightarrow> Task" where
  "waypointTask wp =
     \<lparr> task_x = wp_x wp, task_y = wp_y wp, task_z = wp_z wp, yaw = 0,
       camera_on = False, camera_mode = 0, camera_interval = 0 \<rparr>"

definition publishExplorationMission :: "Goal \<Rightarrow> int \<Rightarrow> Engine \<Rightarrow> error + Engine" where
  "publishExplorationMission goal now st =
     (let missionId = ''exploration_'' @ showNat (nat now);
          st1 = st\<lparr>currentMissionId := Some missionId\<rparr>
      in case currentPos st1 of
           None \<Rightarrow> Inl TypeError
         | Some pos \<Rightarrow>
             (let waypoints = generateWaypoints pos goal;
                  mission = \<lparr> mission_id = missionId, tasks = map waypointTask waypoints \<rparr>
              in Inr (emit (TimerPublishExecution missionId 0)
                        (emit (PublishMission mission) st1))))"

definition publishExplorationStatus :: "Engine \<Rightarrow> error + Engine" where
  "publishExplorationStatus st =
     (if startPos st \<noteq> None \<and> currentPos st = None then Inl TypeError
      else Inr (emit EmitStatus st))"


subsection \<open>Stopping and returning home\<close>

definition returnHomeMission :: "string \<Rightarrow> Vec3 \<Rightarrow> Mission" where
  "returnHomeMission missionId home =
     \<lparr> mission_id = missionId,
       tasks = [\<lparr> task_x = vec_x home, task_y = vec_y home, task_z = Some (vec_z home),
                  yaw = 0, camera_on = False, camera_mode = 0, camera_interval = 0 \<rparr>] \<rparr>"

definition returnToHome :: "int \<Rightarrow> Engine \<Rightarrow> error + Engine" where
  "returnToHome now st =
     (case (startPos st, currentPos st) of
        (Some home, Some pos) \<Rightarrow>
          (case isPathClear (grid st) (vec_x pos, vec_y pos) (vec_x home, vec_y home) of
             Inl e \<Rightarrow> Inl e
           | Inr pathClear \<Rightarrow>
               (let missionId = ''return_home_'' @ showNat (nat now);
                    st1 = emit (TimerPublishExecution missionId 0)
                            (emit (PublishMission (returnHomeMission missionId home)) st)
                in Inr (st1\<lparr>isReturningHome := True, returnHomeMissionId := Some missionId\<rparr>)))
      | _ \<Rightarrow> Inr st)"

definition stopExploration :: "int \<Rightarrow> Engine \<Rightarrow> error + Engine" where
  "stopExploration now st =
     (if \<not> isExploring st then Inr st
      else let st1 = st\<lparr>isExploring := False, isPaused := False, isWaitingForArrival := False\<rparr>
           in case startPos st1 of
                None \<Rightarrow> Inr (emit EmitStopped st1)
              | Some home \<Rightarrow>
                  (case currentPos st1 of
                     None \<Rightarrow> Inl TypeError
                   | Some pos \<Rightarrow>
                       (let distanceFromStart =
                              hypot (vec_x pos - vec_x home) (vec_y pos - vec_y home)
                        in if distanceFromStart > 1.0 then returnToHome now st1
                           else Inr (emit EmitStopped st1))))"

subsection \<open>The planning step\<close>

definition explorationStep :: "int \<Rightarrow> Engine \<Rightarrow> error + Engine" where
  "explorationStep now st =
     (if \<not> isExploring st \<or> isPaused st then Inr st
      else if isWaitingForArrival st \<and> \<not> isPreparingNextGoal st then Inr st
      else let st1 = (if isPreparingNextGoal st then st\<lparr>isWaitingForArrival := False\<rparr> else st);
               elapsed = real_of_int (now - (case startTime st1 of None \<Rightarrow> 0 | Some t \<Rightarrow> t)) / 1000
           in if elapsed > maxDuration (config st1) then stopExploration now st1
              else (case (currentPos st1, startPos st1) of
                      (Some pos, Some home) \<Rightarrow>
                        (let distance = hypot (vec_x pos - vec_x home) (vec_y pos - vec_y home)
                         in if distance > maxDistance (config st1) then stopExploration now st1
                            else (let st2 = st1\<lparr>frontiers := detectFrontiers st1 pos\<rparr>
                                  in if frontiers st2 = [] then stopExploration now st2
                                     else (case selectBestFrontier st2 (frontiers st2) pos of
                                             Inl e \<Rightarrow> Inl e
                                           | Inr (None, st3) \<Rightarrow> stopExploration now st3
                                           | Inr (Some nextGoal, st3) \<Rightarrow>
                                               (case publishExplorationMission nextGoal now
                                                       (st3\<lparr>currentGoal := Some nextGoal,
                                                             isWaitingForArrival := True,
                                                             isPreparingNextGoal := False,
                                                             missionStartTime := Some now\<rparr>) of
                                                  Inl e \<Rightarrow> Inl e
                                                | Inr st4 \<Rightarrow> publishExplorationStatus st4))))
                    | _ \<Rightarrow> Inl TypeError))"

subsection \<open>Failed attempts\<close>

text \<open>
  \<open>toFixed(1)\<close>: a minus sign for a negative number, then the number of tenths nearest
  to its absolute value, the larger one on a tie.
\<close>

definition toFixed1 :: "real \<Rightarrow> bool \<times> nat" where
  "toFixed1 v = (v < 0, nat \<lfloor>\<bar>v\<bar> * 10 + 1 / 2\<rfloor>)"

definition goalKeyOf :: "real \<Rightarrow> real \<Rightarrow> GoalKey" where
  "goalKeyOf gx gy = (toFixed1 gx, toFixed1 gy)"

text \<open>
  The block \<open>if (this.currentGoal) { ... }\<close> that the arrival timeout and the stuck
  detection both run: count the attempt, and blacklist the goal once the count is at
  \<open>maxAttempts\<close>.  \<open>get(goalKey) || 0\<close> reads a missing key as 0.
\<close>

definition recordFailedAttempt :: "Engine \<Rightarrow> Engine" where
  "recordFailedAttempt st =
     (case currentGoal st of
        None \<Rightarrow> st
      | Some goal \<Rightarrow>
          (let goalKey = goalKeyOf (goal_x goal) (goal_y goal);
               attempts = (case goalAttempts st goalKey of None \<Rightarrow> 0 | Some n \<Rightarrow> n) + 1;
               st1 = st\<lparr>goalAttempts := (goalAttempts st)(goalKey \<mapsto> attempts)\<rparr>
           in if attempts \<ge> maxAttempts
              then st1\<lparr>unreachableGoals := unreachableGoals st1 @ [(goal_x goal, goal_y goal)]\<rparr>
              else st1))"

text \<open>The arrival-timeout block of \<open>onPointCloudReceived\<close>.\<close>

definition checkArrivalTimeout :: "int \<Rightarrow> Engine \<Rightarrow> Engine" where
  "checkArrivalTimeout now st =
     (if isWaitingForArrival st \<and> truthyTime (missionStartTime st)
      then (let elapsed = now - (case missionStartTime st of None \<Rightarrow> 0 | Some t \<Rightarrow> t)
            in if elapsed > arrivalTimeout
               then (recordFailedAttempt st)\<lparr>isWaitingForArrival := False,
                      currentGoal := None, missionStartTime := None\<rparr>
               else st)
      else st)"

subsection \<open>Point-cloud events\<close>

definition publishStatusPeriodically :: "int \<Rightarrow> Engine \<Rightarrow> error + Engine" where
  "publishStatusPeriodically now st =
     (if lastStatusPublishTime st = 0 \<or> now - lastStatusPublishTime st > 2000
      then (case (if isExploring st then publishExplorationStatus st else Inr st) of
              Inl e \<Rightarrow> Inl e
            | Inr st1 \<Rightarrow> Inr (st1\<lparr>lastStatusPublishTime := now\<rparr>))
      else Inr st)"

definition planAfterCloud :: "int \<Rightarrow> Engine \<Rightarrow> error + Engine" where
  "planAfterCloud now st =
     (if isExploring st \<and> \<not> isPaused st \<and> \<not> isWaitingForArrival st
      then (if now - lastUpdateTime st > updateInterval (config st)
            then (case explorationStep now st of
                    Inl e \<Rightarrow> Inl e
                  | Inr st1 \<Rightarrow> Inr (st1\<lparr>lastUpdateTime := now\<rparr>))
            else Inr st)
      else Inr st)"

text \<open>
  A point cloud is its list of points; a missing cloud or a missing list is the empty
  list.  One reading of the clock serves the whole handler.
\<close>

definition onPointCloudReceived :: "Vec3 list \<Rightarrow> int \<Rightarrow> Engine \<Rightarrow> error + Engine" where
  "onPointCloudReceived points now st =
     (case currentPos st of
        None \<Rightarrow> Inr st
      | Some pos \<Rightarrow>
          if points = [] then Inr st
          else (let st1 = (if sceneBounds st = None \<and> length points > 100
                           then calculateSceneBounds points st else st);
                    st2 = st1\<lparr>grid := updateMapFromPointCloud points pos (grid st1)\<rparr>
                in case publishStatusPeriodically now st2 of
                     Inl e \<Rightarrow> Inl e
                   | Inr st3 \<Rightarrow> planAfterCloud now (checkArrivalTimeout now st3)))"

subsection \<open>Pose events\<close>

definition checkReturnHome :: "Vec3 \<Rightarrow> Engine \<Rightarrow> Engine" where
  "checkReturnHome newPos st =
     (case startPos st of
        None \<Rightarrow> st
      | Some home \<Rightarrow>
          if isReturningHome st
          then (let distToHome = hypot (vec_x newPos - vec_x home) (vec_y newPos - vec_y home)
                in if distToHome < 0.5
                   then emit EmitReturned (st\<lparr>isReturningHome := False, returnHomeMissionId := None\<rparr>)
                   else st)
          else st)"

text \<open>
  \<open>velocity < VELOCITY_THRESHOLD\<close>, where \<open>velocity = moved / (dt / 1000)\<close>: with
  \<open>dt = 0\<close> the quotient is \<open>Infinity\<close> or \<open>NaN\<close> and the comparison fails.
\<close>

definition velocityBelowThreshold :: "real \<Rightarrow> int \<Rightarrow> bool" where
  "velocityBelowThreshold moved dt \<longleftrightarrow>
     dt \<noteq> 0 \<and> moved / (real_of_int dt / 1000) < VELOCITY_THRESHOLD"

text \<open>
  The stuck detection of \<open>onOdometryReceived\<close>.  The flag tells that it fired, in which
  case the handler returns at once.
\<close>

definition stuckDetection :: "Vec3 \<Rightarrow> int \<Rightarrow> Engine \<Rightarrow> bool \<times> Engine" where
  "stuckDetection newPos now st =
     (case lastVelocityCheck st of
        None \<Rightarrow> (False, st)
      | Some (lastX, lastY, lastTime) \<Rightarrow>
          (let dt = now - lastTime;
               dx = vec_x newPos - lastX;
               dy = vec_y newPos - lastY
           in if velocityBelowThreshold (hypot dx dy) dt
              then (case stuckStartTime st of
                      None \<Rightarrow> (False, st\<lparr>stuckStartTime := Some now\<rparr>)
                    | Some since \<Rightarrow>
                        if since = 0 then (False, st\<lparr>stuckStartTime := Some now\<rparr>)
                        else if now - since > STUCK_THRESHOLD
                        then (True, (recordFailedAttempt st)\<lparr>isWaitingForArrival := False,
                                      currentGoal := None, missionStartTime := None,
                                      stuckStartTime := None, lastVelocityCheck := None\<rparr>)
                        else (False, st))
              else (if truthyTime (stuckStartTime st)
                    then (False, st\<lparr>stuckStartTime := None\<rparr>) else (False, st))))"

text \<open>The rest of the waiting block: velocity record, receding horizon, arrival.\<close>

definition arrivalCheck :: "Vec3 \<Rightarrow> int \<Rightarrow> Goal \<Rightarrow> Engine \<Rightarrow> Engine" where
  "arrivalCheck newPos now goal st =
     (let dist = hypot (vec_x newPos - goal_x goal) (vec_y newPos - goal_y goal);
          st1 = st\<lparr>lastVelocityCheck := Some (vec_x newPos, vec_y newPos, now)\<rparr>;
          st2 = (if dist \<le> 1.5 \<and> \<not> isPreparingNextGoal st1
                 then st1\<lparr>isPreparingNextGoal := True\<rparr> else st1)
      in if dist < 0.3
         then st2\<lparr>visitedGoals := visitedGoals st2 @ [(goal_x goal, goal_y goal)],
                  goalAttempts := (goalAttempts st2)(goalKeyOf (goal_x goal) (goal_y goal) := None),
                  isWaitingForArrival := False, currentGoal := None,
                  missionStartTime := None, isPreparingNextGoal := False,
                  stuckStartTime := None, lastVelocityCheck := None\<rparr>
         else st2)"

text \<open>
  The odometry carries a position, at the top level or under \<open>pose\<close>, or none
  (\<open>None\<close>), in which case the handler returns.
\<close>

definition onOdometryReceived :: "Vec3 option \<Rightarrow> int \<Rightarrow> Engine \<Rightarrow> Engine" where
  "onOdometryReceived position now st =
     (case position of
        None \<Rightarrow> st
      | Some newPos \<Rightarrow>
          (let st1 = checkReturnHome newPos st
           in case (if isWaitingForArrival st1 then currentGoal st1 else None) of
                None \<Rightarrow> st1\<lparr>currentPos := Some newPos\<rparr>
              | Some goal \<Rightarrow>
                  (case stuckDetection newPos now st1 of
                     (True, st2) \<Rightarrow> st2
                   | (False, st2) \<Rightarrow> (arrivalCheck newPos now goal st2)\<lparr>currentPos := Some newPos\<rparr>)))"


subsection \<open>Starting, pausing, resuming, resetting\<close>

definition assignOptions :: "StartOptions \<Rightarrow> Config \<Rightarrow> Config" where
  "assignOptions opts cfg =
     cfg\<lparr> maxDistance := (case opt_maxDistance opts of Some v \<Rightarrow> v | None \<Rightarrow> maxDistance cfg),
          maxDuration := (case opt_maxDuration opts of Some v \<Rightarrow> v | None \<Rightarrow> maxDuration cfg),
          explorationHeight :=
            (case opt_explorationHeight opts of Some v \<Rightarrow> v | None \<Rightarrow> explorationHeight cfg),
          enableZExploration :=
            (case opt_enableZExploration opts of Some v \<Rightarrow> v | None \<Rightarrow> enableZExploration cfg),
          minHeight := (case opt_minHeight opts of Some v \<Rightarrow> v | None \<Rightarrow> minHeight cfg),
          maxHeight := (case opt_maxHeight opts of Some v \<Rightarrow> v | None \<Rightarrow> maxHeight cfg),
          boundaryMin := (case opt_boundaryMin opts of Some v \<Rightarrow> Some v | None \<Rightarrow> boundaryMin cfg),
          boundaryMax := (case opt_boundaryMax opts of Some v \<Rightarrow> Some v | None \<Rightarrow> boundaryMax cfg) \<rparr>"

text \<open>
  \<open>startExploration\<close> is \<open>async\<close>: it runs up to its \<open>await\<close> of 100 ms, and the rest runs
  as a continuation, after whatever events arrive in between.  \<open>pendingStarts\<close> counts
  the continuations that are still to run.
\<close>

definition startExploration :: "StartOptions \<Rightarrow> int \<Rightarrow> Engine \<Rightarrow> Engine" where
  "startExploration opts now st =
     (if isExploring st then st
      else let st1 = (case opt_startPosition opts of
                        Some p \<Rightarrow> st\<lparr>currentPos := Some p\<rparr> | None \<Rightarrow> st)
           in case currentPos st1 of
                None \<Rightarrow> st1
              | Some pos \<Rightarrow>
                  (let st2 = st1\<lparr> config := assignOptions opts (config st1),
                                   isPaused := False, startPos := Some pos,
                                   startTime := Some now, lastUpdateTime := 0,
                                   visitedGoals := [], isWaitingForArrival := False,
                                   missionStartTime := None \<rparr>;
                       st3 = emit (MqttPublish ''/daf/simulator/set_height_limits'')
                               (emit (MqttPublish ''/daf/simulator/set_position'') st2)
                   in st3\<lparr>pendingStarts := pendingStarts st3 + 1\<rparr>))"

definition seedOffset :: "int \<times> int \<Rightarrow> int \<Rightarrow> int \<Rightarrow> int \<Rightarrow> OccupancyGrid \<Rightarrow> OccupancyGrid" where
  "seedOffset startGrid radius dx dy g =
     (let gx = fst startGrid + dx; gy = snd startGrid + dy
      in if isInMap g gx gy
         then (let dist = sqrt (real_of_int (dx * dx + dy * dy))
               in if dist \<le> real_of_int radius then setOccupancy g gx gy 1 else g)
         else g)"

definition seedFreeDisk :: "Vec3 \<Rightarrow> OccupancyGrid \<Rightarrow> OccupancyGrid" where
  "seedFreeDisk home g =
     (let startGrid = worldToGrid g (vec_x home) (vec_y home); radius = 15
      in fold (\<lambda>dx. fold (seedOffset startGrid radius dx) [- radius..radius])
           [- radius..radius] g)"

definition startExplorationResumed :: "Engine \<Rightarrow> error + Engine" where
  "startExplorationResumed st =
     (if pendingStarts st = 0 then Inr st
      else case startPos st of
             None \<Rightarrow> Inl TypeError
           | Some home \<Rightarrow>
               (let cfg = config st;
                    st1 = st\<lparr> pendingStarts := pendingStarts st - 1,
                              grid := seedFreeDisk home
                                (newOccupancyGrid (mapWidth cfg) (mapHeight cfg) (cfg_resolution cfg)),
                              isExploring := True \<rparr>
                in Inr (emit TimerExplorationStep (emit EmitStarted st1))))"

definition pauseExploration :: "Engine \<Rightarrow> Engine" where
  "pauseExploration st =
     (if \<not> isExploring st then st else emit EmitPaused (st\<lparr>isPaused := True\<rparr>))"

definition resumeExploration :: "int \<Rightarrow> Engine \<Rightarrow> error + Engine" where
  "resumeExploration now st =
     (if \<not> isExploring st then Inr st
      else explorationStep now
             (emit EmitResumed (st\<lparr>isPaused := False, isWaitingForArrival := False\<rparr>)))"

definition resetEngine :: "int \<Rightarrow> Engine \<Rightarrow> error + Engine" where
  "resetEngine now st =
     (case stopExploration now st of
        Inl e \<Rightarrow> Inl e
      | Inr st1 \<Rightarrow> Inr (st1\<lparr>grid := reset (grid st1), frontiers := [], visitedGoals := []\<rparr>))"

subsection \<open>The event loop\<close>

text \<open>
  The engine runs on one thread: each event is handled to its end before the next.
  An event carries the handler's arguments and the reading of the clock.  A handler
  that raises ends the run.
\<close>

datatype Event =
    PointCloud "Vec3 list" int
  | Odometry "Vec3 option" int
  | StartExploration StartOptions int
  | StartExplorationResumed
  | PauseExploration
  | ResumeExploration int
  | StopExploration int
  | ReturnToHome int
  | ExplorationStepTimer int
  | Reset int
  | SetROI "(real \<times> real) list"
  | ClearROI
  | SetScoringWeights "string \<Rightarrow> JsValue"

fun handle :: "Event \<Rightarrow> Engine \<Rightarrow> error + Engine" where
  "handle (PointCloud points now) st = onPointCloudReceived points now st"
| "handle (Odometry position now) st = Inr (onOdometryReceived position now st)"
| "handle (StartExploration opts now) st = Inr (startExploration opts now st)"
| "handle StartExplorationResumed st = startExplorationResumed st"
| "handle PauseExploration st = Inr (pauseExploration st)"
| "handle (ResumeExploration now) st = resumeExploration now st"
| "handle (StopExploration now) st = stopExploration now st"
| "handle (ReturnToHome now) st = returnToHome now st"
| "handle (ExplorationStepTimer now) st = explorationStep now st"
| "handle (Reset now) st = resetEngine now st"
| "handle (SetROI polygon) st = Inr (setROI polygon st)"
| "handle ClearROI st = Inr (clearROI st)"
| "handle (SetScoringWeights weights) st = Inr (snd (setScoringWeights weights st))"

fun run :: "Event list \<Rightarrow> Engine \<Rightarrow> error + Engine" where
  "run [] st = Inr st"
| "run (e # es) st = (case handle e st of Inl err \<Rightarrow> Inl err | Inr st1 \<Rightarrow> run es st1)"

section \<open>Predicates and operation sequences used in the statements\<close>

text \<open>
  A grid is well formed when both arrays have one entry per cell and the inflation
  radius is the one the constructor computes; every grid the constructor builds is, and
  no operation changes the three facts.
\<close>

definition wellFormedGrid :: "OccupancyGrid \<Rightarrow> bool" where
  "wellFormedGrid g \<longleftrightarrow>
     length (data g) = width g * height g \<and>
     length (inflatedData g) = width g * height g \<and>
     inflationRadius g = \<lceil>robotRadius g / resolution g\<rceil>"


text \<open>The running counters agree with the raw cells.\<close>

definition statsInv :: "OccupancyGrid \<Rightarrow> bool" where
  "statsInv g \<longleftrightarrow>
     length (data g) = width g * height g \<and>
     set (data g) \<subseteq> {-1, 0, 1} \<and>
     stats_unknown g = int (count_list (data g) 0) \<and>
     stats_free g = int (count_list (data g) 1) \<and>
     stats_occupied g = int (count_list (data g) (-1))"


text \<open>
  What inflation may do to a grid: nothing but turn cells of the inflated array into
  \<open>-1\<close>.
\<close>

definition inflateExt :: "OccupancyGrid \<Rightarrow> OccupancyGrid \<Rightarrow> bool" where
  "inflateExt g g' \<longleftrightarrow>
     width g' = width g \<and> height g' = height g \<and> data g' = data g \<and>
     inflationRadius g' = inflationRadius g \<and>
     stats_unknown g' = stats_unknown g \<and> stats_free g' = stats_free g \<and>
     stats_occupied g' = stats_occupied g \<and>
     length (inflatedData g') = length (inflatedData g) \<and>
     (\<forall>i. inflatedData g ! i = -1 \<longrightarrow> inflatedData g' ! i = -1)"


text \<open>The operations of the grid, for sequences of calls.\<close>

datatype GridOp =
    SetOccupancy int int int
  | Raytrace int int int int
  | InflateObstacles
  | ResetGrid

fun applyGridOp :: "GridOp \<Rightarrow> OccupancyGrid \<Rightarrow> OccupancyGrid" where
  "applyGridOp (SetOccupancy gx gy v) g = setOccupancy g gx gy v"
| "applyGridOp (Raytrace x0 y0 x1 y1) g = raytrace g x0 y0 x1 y1"
| "applyGridOp InflateObstacles g = inflateObstacles g"
| "applyGridOp ResetGrid g = reset g"

fun validGridOp :: "GridOp \<Rightarrow> bool" where
  "validGridOp (SetOccupancy gx gy v) \<longleftrightarrow> v = -1 \<or> v = 0 \<or> v = 1"
| "validGridOp other \<longleftrightarrow> True"


text \<open>A value that is a number in the interval from 0 to 1.\<close>

fun numberInUnitInterval :: "JsValue \<Rightarrow> bool" where
  "numberInUnitInterval (JsNumber r) \<longleftrightarrow> 0 \<le> r \<and> r \<le> 1"
| "numberInUnitInterval v \<longleftrightarrow> False"

text \<open>
  Relations between the engine before and after a handler, on the fields of the
  failed-attempt bookkeeping: the three lists and maps are the same; the goal that is
  waited for is the one that was, or a new one that is at least 2 m from every
  blacklisted point.
\<close>

definition sameBooks :: "Engine \<Rightarrow> Engine \<Rightarrow> bool" where
  "sameBooks st st' \<longleftrightarrow>
     goalAttempts st' = goalAttempts st \<and> unreachableGoals st' = unreachableGoals st \<and>
     visitedGoals st' = visitedGoals st"

definition farFromBlacklist :: "Engine \<Rightarrow> Goal \<Rightarrow> bool" where
  "farFromBlacklist st goal \<longleftrightarrow>
     list_all (\<lambda>u. \<not> hypot (goal_x goal - fst u) (goal_y goal - snd u) < 2.0) (unreachableGoals st)"

definition goalStep :: "Engine \<Rightarrow> Engine \<Rightarrow> bool" where
  "goalStep st st' \<longleftrightarrow>
     (isWaitingForArrival st' \<longrightarrow>
        (isWaitingForArrival st \<and> currentGoal st' = currentGoal st) \<or>
        (case currentGoal st' of None \<Rightarrow> False | Some goal \<Rightarrow> farFromBlacklist st goal))"

definition bookkeepingKept :: "Engine \<Rightarrow> Engine \<Rightarrow> bool" where
  "bookkeepingKept st st' \<longleftrightarrow>
     sameBooks st st' \<and>
     (isWaitingForArrival st' \<longrightarrow> isWaitingForArrival st \<and> currentGoal st' = currentGoal st)"


text \<open>
  The invariant of the attempt counters: no counter is above \<open>maxAttempts\<close>; a counter
  that is at \<open>maxAttempts\<close> belongs to a blacklisted goal; the goal that is waited for is
  not near the blacklist.
\<close>

definition attemptsBounded :: "Engine \<Rightarrow> bool" where
  "attemptsBounded st \<longleftrightarrow>
     (\<forall>k n. goalAttempts st k = Some n \<longrightarrow> n \<le> maxAttempts) \<and>
     (\<forall>k n. goalAttempts st k = Some n \<and> maxAttempts \<le> n \<longrightarrow>
        (\<exists>u \<in> set (unreachableGoals st). goalKeyOf (fst u) (snd u) = k)) \<and>
     (isWaitingForArrival st \<longrightarrow>
        (case currentGoal st of None \<Rightarrow> True | Some goal \<Rightarrow> farFromBlacklist st goal))"


text \<open>When the stuck detection fires, and what it leaves behind.\<close>

definition stuckFires :: "Vec3 \<Rightarrow> int \<Rightarrow> Engine \<Rightarrow> bool" where
  "stuckFires newPos now st \<longleftrightarrow>
     (case lastVelocityCheck st of
        None \<Rightarrow> False
      | Some (lastX, lastY, lastTime) \<Rightarrow>
          velocityBelowThreshold (hypot (vec_x newPos - lastX) (vec_y newPos - lastY)) (now - lastTime) \<and>
          (case stuckStartTime st of
             None \<Rightarrow> False
           | Some since \<Rightarrow> since \<noteq> 0 \<and> now - since > STUCK_THRESHOLD))"

text \<open>
  What a failed attempt on the goal leaves behind: the counter of the goal's key one
  higher and not above \<open>maxAttempts\<close>, the goal appended to the blacklist exactly when
  the counter has reached \<open>maxAttempts\<close>, and the waiting state cleared.
\<close>

definition attemptRecorded :: "Engine \<Rightarrow> Goal \<Rightarrow> Engine \<Rightarrow> bool" where
  "attemptRecorded st goal st' \<longleftrightarrow>
     (let goalKey = goalKeyOf (goal_x goal) (goal_y goal);
          attempts = (case goalAttempts st goalKey of None \<Rightarrow> 0 | Some n \<Rightarrow> n) + 1
      in goalAttempts st' = (goalAttempts st)(goalKey \<mapsto> attempts) \<and>
         unreachableGoals st' =
           (if attempts = maxAttempts then unreachableGoals st @ [(goal_x goal, goal_y goal)]
            else unreachableGoals st) \<and>
         attempts \<le> maxAttempts \<and>
         \<not> isWaitingForArrival st' \<and> currentGoal st' = None \<and> missionStartTime st' = None)"


text \<open>
  The two parts of that, for the state a handler returns.  The counters: the counter of
  the goal's key one higher and not above \<open>maxAttempts\<close>, the goal appended to the
  blacklist exactly when the counter has reached \<open>maxAttempts\<close>.  The waiting state:
  cleared, or set again for a goal selected at the time \<open>now\<close>.
\<close>

definition attemptCounted :: "Engine \<Rightarrow> Goal \<Rightarrow> Engine \<Rightarrow> bool" where
  "attemptCounted st goal st' \<longleftrightarrow>
     (let goalKey = goalKeyOf (goal_x goal) (goal_y goal);
          attempts = (case goalAttempts st goalKey of None \<Rightarrow> 0 | Some n \<Rightarrow> n) + 1
      in goalAttempts st' = (goalAttempts st)(goalKey \<mapsto> attempts) \<and>
         unreachableGoals st' =
           (if attempts = maxAttempts then unreachableGoals st @ [(goal_x goal, goal_y goal)]
            else unreachableGoals st) \<and>
         attempts \<le> maxAttempts)"

definition waitingCleared :: "Engine \<Rightarrow> bool" where
  "waitingCleared st \<longleftrightarrow>
     \<not> isWaitingForArrival st \<and> currentGoal st = None \<and> missionStartTime st = None"

definition waitingRenewed :: "int \<Rightarrow> Engine \<Rightarrow> bool" where
  "waitingRenewed now st \<longleftrightarrow>
     isWaitingForArrival st \<and> currentGoal st \<noteq> None \<and> missionStartTime st = Some now"


text \<open>The events whose handlers assign \<open>[]\<close> to \<open>visitedGoals\<close>.\<close>

fun clearsVisitedGoals :: "Event \<Rightarrow> bool" where
  "clearsVisitedGoals (StartExploration opts now) = True"
| "clearsVisitedGoals (Reset now) = True"
| "clearsVisitedGoals event = False"


text \<open>The test of \<open>stopExploration\<close> for flying home: more than 1 m from the start.\<close>

definition farFromHome :: "Engine \<Rightarrow> bool" where
  "farFromHome st \<longleftrightarrow>
     (case (startPos st, currentPos st) of
        (Some home, Some pos) \<Rightarrow> hypot (vec_x pos - vec_x home) (vec_y pos - vec_y home) > 1.0
      | _ \<Rightarrow> False)"


section \<open>Concrete inputs\<close>

text \<open>The inputs at which the theorems below are instantiated.\<close>

definition nanWeights :: "string \<Rightarrow> JsValue" where
  "nanWeights = (\<lambda>k. JsUndefined)(''infoGain'' := JsNaN)"

definition partialWeights :: "string \<Rightarrow> JsValue" where
  "partialWeights = (\<lambda>k. JsUndefined)(''infoGain'' := JsNumber 0.9, ''distance'' := JsNumber 5)"

definition originPos :: Vec3 where
  "originPos = \<lparr> vec_x = 0, vec_y = 0, vec_z = 1 \<rparr>"

definition goalFiveMetres :: Goal where
  "goalFiveMetres = \<lparr> goal_x = 5, goal_y = 0, goal_size = 10, goal_z = Some 1,
                       goal_density = 0, goal_pathClear = True \<rparr>"






text \<open>
  An engine that waits for its arrival at the goal 5 m ahead, four attempts on that goal
  counted, the last pose taken 5 cm and one second before, slow for five seconds; and
  a pose 10 cm from the goal.
\<close>

definition waitingEngine :: Engine where
  "waitingEngine =
     newEngine\<lparr> isExploring := True, startPos := Some originPos, currentPos := Some originPos,
                startTime := Some 0, goalAttempts := [goalKeyOf 5 0 \<mapsto> 4],
                currentGoal := Some goalFiveMetres, isWaitingForArrival := True,
                missionStartTime := Some 1000,
                lastVelocityCheck := Some (4.85, 0, 9000), stuckStartTime := Some 5000 \<rparr>"

definition nearGoalPos :: Vec3 where
  "nearGoalPos = \<lparr> vec_x = 4.9, vec_y = 0, vec_z = 1 \<rparr>"


text \<open>Engines for the life cycle: one with a visited goal, one that waits afresh.\<close>

definition visitedEngine :: Engine where
  "visitedEngine = newEngine\<lparr> currentPos := Some originPos, visitedGoals := [(3, 0)] \<rparr>"

definition noOptions :: StartOptions where
  "noOptions =
     \<lparr> opt_startPosition = None, opt_maxDistance = None, opt_maxDuration = None,
       opt_explorationHeight = None, opt_enableZExploration = None, opt_minHeight = None,
       opt_maxHeight = None, opt_boundaryMin = None, opt_boundaryMax = None \<rparr>"

definition freshWaitingEngine :: Engine where
  "freshWaitingEngine = waitingEngine\<lparr> lastVelocityCheck := None, stuckStartTime := None \<rparr>"


text \<open>
  An engine that explores 5 m from its start with a blacklisted goal, and a sequence of
  events that starts an exploration again while the vehicle flies home.
\<close>

definition farPos :: Vec3 where
  "farPos = \<lparr> vec_x = 5, vec_y = 0, vec_z = 1 \<rparr>"

definition farEngine :: Engine where
  "farEngine =
     newEngine\<lparr> isExploring := True, startPos := Some originPos, currentPos := Some farPos,
                startTime := Some 0, visitedGoals := [(1, 1)], unreachableGoals := [(3, 3)],
                goalAttempts := [goalKeyOf 3 3 \<mapsto> 5] \<rparr>"

definition startAtOrigin :: StartOptions where
  "startAtOrigin = noOptions\<lparr> opt_startPosition := Some originPos \<rparr>"

definition restartTrace :: "Event list" where
  "restartTrace =
     [StartExploration startAtOrigin 0, StartExplorationResumed, Odometry (Some farPos) 1000,
      StopExploration 2000, StartExploration noOptions 3000, StartExplorationResumed]"


text \<open>
  A map of 5 by 3 cells of one metre, all free but the unknown cell at the east end of
  the middle row, so that the one frontier is the cell west of it, centred at \<open>(1, 0)\<close>.
  The engine was started at \<open>(-2, 0)\<close> with this map size, clusters of one cell and a
  fixed height; at time 1000 it sent the vehicle to the frontier; the vehicle has been
  slow since 6500 and the last pose, at 9000, found it at \<open>(-1, 0)\<close>.  The cloud has one
  point, 4 m above the vehicle, which the map update skips.  The second engine has
  counted four attempts on the goal.
\<close>

definition retryGrid :: OccupancyGrid where
  "retryGrid =
     \<lparr> width = 5, height = 3, resolution = 1, origin_x = - 5 / 2, origin_y = - 3 / 2,
       data = [1, 1, 1, 1, 1,  1, 1, 1, 1, 0,  1, 1, 1, 1, 1],
       inflatedData = [1, 1, 1, 1, 1,  1, 1, 1, 1, 0,  1, 1, 1, 1, 1],
       robotRadius = 0.2, inflationRadius = 1,
       stats_unknown = 1, stats_free = 14, stats_occupied = 0 \<rparr>"

definition retryStart :: Vec3 where
  "retryStart = \<lparr> vec_x = - 2, vec_y = 0, vec_z = 1 \<rparr>"

definition retryPos :: Vec3 where
  "retryPos = \<lparr> vec_x = - 1, vec_y = 0, vec_z = 1 \<rparr>"

definition ceilingPoint :: Vec3 where
  "ceilingPoint = \<lparr> vec_x = 0, vec_y = 0, vec_z = 5 \<rparr>"

definition retryGoal :: Goal where
  "retryGoal = \<lparr> goal_x = 1, goal_y = 0, goal_size = 1, goal_z = Some 1,
                  goal_density = 0.03, goal_pathClear = True \<rparr>"

definition retryConfig :: Config where
  "retryConfig = defaultConfig\<lparr> mapWidth := 5, mapHeight := 3, cfg_resolution := 1,
                                minClusterSize := 1, enableZExploration := False \<rparr>"

definition retryFrontier :: Frontier where
  "retryFrontier = \<lparr> fr_x = 1, fr_y = 0, fr_size = 1 \<rparr>"

definition retryEngine :: Engine where
  "retryEngine =
     newEngine\<lparr> config := retryConfig,
                grid := retryGrid, isExploring := True,
                startPos := Some retryStart, currentPos := Some retryPos, startTime := Some 0,
                lastUpdateTime := 1000, currentGoal := Some retryGoal,
                isWaitingForArrival := True, missionStartTime := Some 1000,
                lastVelocityCheck := Some (- 1, 0, 9000), stuckStartTime := Some 6500,
                lastGoalDirection := Some (1, 0), lastStatusPublishTime := 9000 \<rparr>"

definition lastAttemptEngine :: Engine where
  "lastAttemptEngine = retryEngine\<lparr> goalAttempts := [goalKeyOf 1 0 \<mapsto> 4] \<rparr>"

section \<open>Properties of the occupancy grid\<close>

lemma floor_cell_centre:
  fixes r ox :: real
  assumes "r \<noteq> 0"
  shows "\<lfloor>((real_of_int k + 0.5) * r + ox - ox) / r\<rfloor> = k"
proof -
  have "((real_of_int k + 0.5) * r + ox - ox) / r = real_of_int k + 0.5"
    using assms by simp
  moreover have "\<lfloor>real_of_int k + 0.5\<rfloor> = k" by linarith
  ultimately show ?thesis by (simp only:)
qed

lemma worldToGrid_gridToWorld:
  assumes "resolution g \<noteq> 0"
  shows "worldToGrid g (fst (gridToWorld g gx gy)) (snd (gridToWorld g gx gy)) = (gx, gy)"
  unfolding worldToGrid_def gridToWorld_def fst_conv snd_conv
  by (simp only: floor_cell_centre[OF assms])

lemma count_list_update:
  "i < length xs \<Longrightarrow>
   int (count_list (xs[i := v]) a) =
     int (count_list xs a) - (if xs ! i = a then 1 else 0) + (if v = a then 1 else 0)"
proof (induction xs arbitrary: i)
  case Nil
  then show ?case by simp
next
  case (Cons x xs)
  show ?case
  proof (cases i)
    case 0
    then show ?thesis by simp
  next
    case (Suc n)
    then have "n < length xs" using Cons.prems by simp
    from Cons.IH[OF this] show ?thesis using Suc by (auto split: if_splits)
  qed
qed

lemma cellIndex_less:
  "isInMap g gx gy \<Longrightarrow> cellIndex g gx gy < width g * height g"
proof -
  assume m: "isInMap g gx gy"
  then have b: "0 \<le> gx" "gx < int (width g)" "0 \<le> gy" "gy + 1 \<le> int (height g)"
    by (auto simp: isInMap_def)
  have "gy * int (width g) + gx < (gy + 1) * int (width g)" using b by (simp add: algebra_simps)
  also have "\<dots> \<le> int (height g) * int (width g)"
    using b(4) by (intro mult_right_mono) auto
  finally have "gy * int (width g) + gx < int (width g * height g)" by (simp add: mult.commute)
  moreover have "0 \<le> gy * int (width g) + gx" using b by simp
  ultimately show ?thesis unfolding cellIndex_def by linarith
qed

lemma toInt8_id: "v \<in> {-1, 0, 1} \<Longrightarrow> toInt8 v = v"
  by (auto simp: toInt8_def)

lemma statsInv_setOccupancy:
  assumes "statsInv g" "v \<in> {-1, 0, 1}"
  shows "statsInv (setOccupancy g gx gy v)"
proof (cases "isInMap g gx gy \<and> data g ! cellIndex g gx gy \<noteq> v")
  case False
  then show ?thesis using assms by (auto simp: setOccupancy_def Let_def)
next
  case True
  let ?i = "cellIndex g gx gy"
  have i: "?i < length (data g)" using True assms(1) cellIndex_less by (simp add: statsInv_def)
  have old: "data g ! ?i \<in> {-1, 0, 1}" using assms(1) i nth_mem unfolding statsInv_def by blast
  have sub: "set ((data g)[?i := v]) \<subseteq> {-1, 0, 1}"
    using assms set_update_subset_insert[of "data g" ?i v] unfolding statsInv_def by blast
  show ?thesis
    using True assms i old sub
    unfolding statsInv_def setOccupancy_def updateStats_def Let_def
    by (auto simp: toInt8_id count_list_update cellIndex_def)
qed

lemma inflateExt_refl: "inflateExt g g"
  by (simp add: inflateExt_def)

lemma inflateExt_trans: "inflateExt a b \<Longrightarrow> inflateExt b c \<Longrightarrow> inflateExt a c"
  by (simp add: inflateExt_def)

lemma isInMap_ext: "inflateExt g g' \<Longrightarrow> isInMap g' x y = isInMap g x y"
  by (simp add: inflateExt_def isInMap_def)

lemma cellIndex_ext: "inflateExt g g' \<Longrightarrow> cellIndex g' x y = cellIndex g x y"
  by (simp add: inflateExt_def cellIndex_def)

lemma nth_update_keeps_value: "xs ! i = v \<Longrightarrow> xs[j := v] ! i = v"
  by (cases "j < length xs"; cases "i = j") (simp_all add: list_update_beyond)

lemma inflateOffset_ext: "inflateExt g (inflateOffset cx cy dy dx g)"
  by (simp add: inflateOffset_def inflateExt_def Let_def nth_update_keeps_value)

lemma inflateOffset_hit:
  assumes "inflateExt g0 g" "length (inflatedData g0) = width g0 * height g0"
    "isInMap g0 (cx + dx) (cy + dy)"
    "sqrt (real_of_int (dx * dx + dy * dy)) \<le> real_of_int (inflationRadius g0)"
  shows "inflatedData (inflateOffset cx cy dy dx g) ! cellIndex g0 (cx + dx) (cy + dy) = -1"
proof -
  have m: "isInMap g (cx + dx) (cy + dy)" using assms isInMap_ext by simp
  have i: "cellIndex g (cx + dx) (cy + dy) = cellIndex g0 (cx + dx) (cy + dy)"
    using assms cellIndex_ext by simp
  have l: "cellIndex g0 (cx + dx) (cy + dy) < length (inflatedData g)"
    using assms cellIndex_less[of g0] by (simp add: inflateExt_def)
  have r: "inflationRadius g = inflationRadius g0" using assms by (simp add: inflateExt_def)
  show ?thesis
    using m i l r assms(4) by (simp add: inflateOffset_def Let_def)
qed

lemma fold_inflate_ext:
  assumes "\<And>a g. inflateExt g (f a g)"
  shows "inflateExt g (fold f xs g)"
proof (induction xs arbitrary: g)
  case Nil
  show ?case by (simp add: inflateExt_refl)
next
  case (Cons x xs)
  have "inflateExt g (f x g)" by (rule assms)
  moreover have "inflateExt (f x g) (fold f xs (f x g))" by (rule Cons.IH)
  ultimately show ?case using inflateExt_trans by simp
qed

lemma fold_inflate_hit:
  assumes step: "\<And>a g. inflateExt g (f a g)"
    and hit: "\<And>g. inflateExt g0 g \<Longrightarrow> inflatedData (f a g) ! i = -1"
    and mem: "a \<in> set xs"
    and ext: "inflateExt g0 g"
  shows "inflatedData (fold f xs g) ! i = -1"
  using mem ext
proof (induction xs arbitrary: g)
  case Nil
  then show ?case by simp
next
  case (Cons x xs)
  have e1: "inflateExt g0 (f x g)" using Cons.prems(2) step inflateExt_trans by blast
  show ?case
  proof (cases "a = x")
    case True
    have "inflatedData (f x g) ! i = -1" using hit Cons.prems(2) True by simp
    moreover have "inflateExt (f x g) (fold f xs (f x g))" using step by (rule fold_inflate_ext)
    ultimately show ?thesis by (simp add: inflateExt_def)
  next
    case False
    then have "a \<in> set xs" using Cons.prems(1) by simp
    from Cons.IH[OF this e1] show ?thesis by simp
  qed
qed

lemma inflateCell_ext: "inflateExt g (inflateCell g cx cy)"
  unfolding inflateCell_def Let_def
  by (intro fold_inflate_ext inflateOffset_ext)

lemma sqrt_offset_bound:
  fixes dx dy r :: int
  assumes "sqrt (real_of_int (dx * dx + dy * dy)) \<le> real_of_int r"
  shows "- r \<le> dx \<and> dx \<le> r \<and> - r \<le> dy \<and> dy \<le> r"
proof -
  have a: "\<bar>real_of_int dx\<bar> \<le> sqrt (real_of_int (dx * dx + dy * dy))"
    by (rule real_le_rsqrt) (simp add: power2_eq_square)
  have b: "\<bar>real_of_int dy\<bar> \<le> sqrt (real_of_int (dx * dx + dy * dy))"
    by (rule real_le_rsqrt) (simp add: power2_eq_square)
  from a b assms have "\<bar>real_of_int dx\<bar> \<le> real_of_int r" "\<bar>real_of_int dy\<bar> \<le> real_of_int r"
    by linarith+
  then show ?thesis by linarith
qed

lemma inflateCell_hit:
  assumes ext: "inflateExt g0 g" and len: "length (inflatedData g0) = width g0 * height g0"
    and inmap: "isInMap g0 (cx + dx) (cy + dy)"
    and near: "sqrt (real_of_int (dx * dx + dy * dy)) \<le> real_of_int (inflationRadius g0)"
  shows "inflatedData (inflateCell g cx cy) ! cellIndex g0 (cx + dx) (cy + dy) = -1"
proof -
  have r: "inflationRadius g = inflationRadius g0" using ext by (simp add: inflateExt_def)
  have b: "dx \<in> set [- inflationRadius g0..inflationRadius g0]"
          "dy \<in> set [- inflationRadius g0..inflationRadius g0]"
    using sqrt_offset_bound[OF near] by auto
  have inner: "inflatedData (fold (inflateOffset cx cy dy) [- inflationRadius g0..inflationRadius g0] ga)
        ! cellIndex g0 (cx + dx) (cy + dy) = -1" if e: "inflateExt g0 ga" for ga
  proof (rule fold_inflate_hit[where a = dx and ?g0.0 = g0])
    show "inflateExt gb (inflateOffset cx cy dy a gb)" for a gb by (rule inflateOffset_ext)
    show "inflatedData (inflateOffset cx cy dy dx gb) ! cellIndex g0 (cx + dx) (cy + dy) = -1"
      if "inflateExt g0 gb" for gb
      using that len inmap near by (rule inflateOffset_hit)
    show "dx \<in> set [- inflationRadius g0..inflationRadius g0]" by (rule b(1))
    show "inflateExt g0 ga" by (rule e)
  qed
  show ?thesis
    unfolding inflateCell_def Let_def r
  proof (rule fold_inflate_hit[where a = dy and ?g0.0 = g0])
    show "inflateExt gb (fold (inflateOffset cx cy a) [- inflationRadius g0..inflationRadius g0] gb)"
      for a gb
      by (rule fold_inflate_ext) (rule inflateOffset_ext)
    show "inflatedData (fold (inflateOffset cx cy dy) [- inflationRadius g0..inflationRadius g0] gb)
        ! cellIndex g0 (cx + dx) (cy + dy) = -1" if "inflateExt g0 gb" for gb
      using that by (rule inner)
    show "dy \<in> set [- inflationRadius g0..inflationRadius g0]" by (rule b(2))
    show "inflateExt g0 g" by (rule ext)
  qed
qed

lemma copyRaw_same_length: "length src = length dst \<Longrightarrow> copyRaw src dst = src"
  by (auto simp: copyRaw_def intro: nth_equalityI)

lemma inflateObstacles_ext:
  "inflateExt (g\<lparr>inflatedData := copyRaw (data g) (inflatedData g)\<rparr>) (inflateObstacles g)"
  unfolding inflateObstacles_def Let_def
  by (intro fold_inflate_ext) (simp add: inflateExt_refl inflateCell_ext)

lemma inflateObstacles_hit:
  assumes len: "length (data g) = width g * height g"
      "length (inflatedData g) = width g * height g"
    and occ: "isInMap g cx cy" "data g ! cellIndex g cx cy = -1"
    and inmap: "isInMap g (cx + dx) (cy + dy)"
    and near: "sqrt (real_of_int (dx * dx + dy * dy)) \<le> real_of_int (inflationRadius g)"
  shows "inflatedData (inflateObstacles g) ! cellIndex g (cx + dx) (cy + dy) = -1"
proof -
  let ?g0 = "g\<lparr>inflatedData := copyRaw (data g) (inflatedData g)\<rparr>"
  let ?i = "cellIndex g (cx + dx) (cy + dy)"
  let ?cell = "\<lambda>gy gx ga. if data ga ! cellIndex ga (int gx) (int gy) = -1
                 then inflateCell ga (int gx) (int gy) else ga"
  have len0: "length (inflatedData ?g0) = width ?g0 * height ?g0"
    using len by (simp add: copyRaw_def)
  have cx: "nat cx \<in> set [0..<width g]" "int (nat cx) = cx"
    and cy: "nat cy \<in> set [0..<height g]" "int (nat cy) = cy"
    using occ(1) by (auto simp: isInMap_def)
  have idx: "cellIndex ?g0 x y = cellIndex g x y" for x y by (simp add: cellIndex_def)
  have inm: "isInMap ?g0 x y = isInMap g x y" for x y by (simp add: isInMap_def)
  have cellstep: "inflateExt ga (?cell gy gx ga)" for gy gx ga
    by (simp add: inflateExt_refl inflateCell_ext)
  have rowstep: "inflateExt ga (fold (?cell gy) [0..<width ?g0] ga)" for gy ga
    by (rule fold_inflate_ext) (rule cellstep)
  have cellhit: "inflatedData (?cell (nat cy) (nat cx) ga) ! ?i = -1" if e: "inflateExt ?g0 ga" for ga
  proof -
    have d: "data ga = data g" and w: "cellIndex ga cx cy = cellIndex g cx cy"
      using e by (simp_all add: inflateExt_def cellIndex_def)
    have "inflatedData (inflateCell ga cx cy) ! cellIndex ?g0 (cx + dx) (cy + dy) = -1"
    proof (rule inflateCell_hit[OF e len0])
      show "isInMap ?g0 (cx + dx) (cy + dy)" using inmap by (simp add: inm)
      show "sqrt (real_of_int (dx * dx + dy * dy)) \<le> real_of_int (inflationRadius ?g0)"
        using near by (simp del: of_int_add of_int_mult)
    qed
    then show ?thesis using d w occ(2) cx(2) cy(2) by (simp add: idx)
  qed
  have rowhit: "inflatedData (fold (?cell (nat cy)) [0..<width ?g0] ga) ! ?i = -1"
    if e: "inflateExt ?g0 ga" for ga
  proof (rule fold_inflate_hit[where a = "nat cx" and ?g0.0 = ?g0])
    show "inflateExt gb (?cell (nat cy) a gb)" for a gb by (rule cellstep)
    show "inflatedData (?cell (nat cy) (nat cx) gb) ! ?i = -1" if "inflateExt ?g0 gb" for gb
      using that by (rule cellhit)
    show "nat cx \<in> set [0..<width ?g0]" using cx(1) by simp
    show "inflateExt ?g0 ga" by (rule e)
  qed
  show ?thesis
    unfolding inflateObstacles_def Let_def
  proof (rule fold_inflate_hit[where a = "nat cy" and ?g0.0 = ?g0])
    show "inflateExt gb (fold (?cell a) [0..<width ?g0] gb)" for a gb by (rule rowstep)
    show "inflatedData (fold (?cell (nat cy)) [0..<width ?g0] gb) ! ?i = -1"
      if "inflateExt ?g0 gb" for gb
      using that by (rule rowhit)
    show "nat cy \<in> set [0..<height ?g0]" using cy(1) by simp
    show "inflateExt ?g0 ?g0" by (rule inflateExt_refl)
  qed
qed

lemma inflateObstacles_keeps_occupied:
  assumes len: "length (data g) = width g * height g"
      "length (inflatedData g) = width g * height g"
    and occ: "isInMap g cx cy" "data g ! cellIndex g cx cy = -1"
  shows "inflatedData (inflateObstacles g) ! cellIndex g cx cy = -1"
proof -
  have "copyRaw (data g) (inflatedData g) = data g"
    using len by (simp add: copyRaw_same_length)
  then have "inflatedData (g\<lparr>inflatedData := copyRaw (data g) (inflatedData g)\<rparr>) ! cellIndex g cx cy = -1"
    using occ(2) by simp
  then show ?thesis using inflateObstacles_ext[of g] unfolding inflateExt_def by blast
qed

lemma statsInv_raytraceLoop:
  "statsInv g \<Longrightarrow> statsInv (raytraceLoop n dx dy sx sy x1 y1 err x0 y0 g)"
proof (induction n arbitrary: err x0 y0 g)
  case 0
  then show ?case by simp
next
  case (Suc n)
  define g1 where
    "g1 = (if isInMap g x0 y0 \<and> getOccupancy g x0 y0 \<noteq> -1 then setOccupancy g x0 y0 1 else g)"
  have g1: "statsInv g1" using Suc.prems by (simp add: g1_def statsInv_setOccupancy)
  have eq: "raytraceLoop (Suc n) dx dy sx sy x1 y1 err x0 y0 g =
      (if x0 = x1 \<and> y0 = y1 then g1
       else raytraceLoop n dx dy sx sy x1 y1
              (if 2 * err < dx then (if 2 * err > - dy then err - dy else err) + dx
               else (if 2 * err > - dy then err - dy else err))
              (if 2 * err > - dy then x0 + sx else x0)
              (if 2 * err < dx then y0 + sy else y0) g1)"
    by (simp add: g1_def Let_def)
  show ?case unfolding eq using g1 Suc.IH[OF g1] by simp
qed

lemma statsInv_raytrace: "statsInv g \<Longrightarrow> statsInv (raytrace g x0 y0 x1 y1)"
  by (simp add: raytrace_def Let_def statsInv_raytraceLoop)

lemma count_list_replicate: "count_list (replicate n a) b = (if a = b then n else 0)"
  by (induction n) auto

lemma statsInv_reset: "statsInv g \<Longrightarrow> statsInv (reset g)"
  by (auto simp: statsInv_def reset_def count_list_replicate)

lemma statsInv_new: "statsInv (newOccupancyGrid w h r)"
  by (auto simp: statsInv_def newOccupancyGrid_def count_list_replicate)

lemma statsInv_ext: "inflateExt g g' \<Longrightarrow> statsInv g \<Longrightarrow> statsInv g'"
  by (simp add: statsInv_def inflateExt_def)

lemma statsInv_inflateObstacles: "statsInv g \<Longrightarrow> statsInv (inflateObstacles g)"
proof -
  assume a: "statsInv g"
  then have "statsInv (g\<lparr>inflatedData := copyRaw (data g) (inflatedData g)\<rparr>)"
    by (simp add: statsInv_def)
  then show ?thesis using inflateObstacles_ext statsInv_ext by blast
qed

lemma statsInv_applyGridOp: "validGridOp op \<Longrightarrow> statsInv g \<Longrightarrow> statsInv (applyGridOp op g)"
  by (cases op)
     (auto simp: statsInv_setOccupancy statsInv_raytrace statsInv_inflateObstacles statsInv_reset)

lemma statsInv_fold:
  "\<forall>op \<in> set ops. validGridOp op \<Longrightarrow> statsInv g \<Longrightarrow> statsInv (fold applyGridOp ops g)"
  by (induction ops arbitrary: g) (simp_all add: statsInv_applyGridOp)

lemma count_three_values:
  "set xs \<subseteq> {-1, 0, 1::int} \<Longrightarrow>
   count_list xs 0 + count_list xs 1 + count_list xs (-1) = length xs"
  by (induction xs) auto

text \<open>
  Claim C6.  After any sequence of \<open>setOccupancy\<close> (with a value among \<open>-1\<close>, \<open>0\<close>, \<open>1\<close>),
  \<open>raytrace\<close>, \<open>inflateObstacles\<close> and \<open>reset\<close> on a fresh grid, the three counters sum to
  \<open>width * height\<close>, and each counter is the number of raw cells that hold its value.
\<close>

theorem stats_count_invariant:
  assumes "\<forall>op \<in> set ops. validGridOp op"
  shows "let g = fold applyGridOp ops (newOccupancyGrid w h r)
         in stats_unknown g + stats_free g + stats_occupied g = int (width g * height g) \<and>
            stats_unknown g = int (count_list (data g) 0) \<and>
            stats_free g = int (count_list (data g) 1) \<and>
            stats_occupied g = int (count_list (data g) (-1))"
proof -
  let ?g = "fold applyGridOp ops (newOccupancyGrid w h r)"
  have inv: "statsInv ?g" using assms statsInv_new by (rule statsInv_fold)
  then have "int (count_list (data ?g) 0) + int (count_list (data ?g) 1)
             + int (count_list (data ?g) (-1)) = int (length (data ?g))"
    using count_three_values[of "data ?g"] unfolding statsInv_def by linarith
  with inv show ?thesis unfolding Let_def statsInv_def by simp
qed

theorem stats_count_invariant_witness:
  "validGridOp (SetOccupancy 0 0 (-1)) \<and> validGridOp (Raytrace 1 1 0 1) \<and>
   validGridOp InflateObstacles \<and>
   (let g = fold applyGridOp [SetOccupancy 0 0 (-1), Raytrace 1 1 0 1, InflateObstacles]
              (newOccupancyGrid 2 2 0.2)
    in stats_unknown g + stats_free g + stats_occupied g = int (width g * height g) \<and>
       stats_unknown g = int (count_list (data g) 0) \<and>
       stats_free g = int (count_list (data g) 1) \<and>
       stats_occupied g = int (count_list (data g) (-1)))"
proof -
  have v: "\<forall>op \<in> set [SetOccupancy 0 0 (-1), Raytrace 1 1 0 1, InflateObstacles]. validGridOp op"
    by simp
  have "validGridOp (SetOccupancy 0 0 (-1)) \<and> validGridOp (Raytrace 1 1 0 1) \<and>
        validGridOp InflateObstacles" by simp
  then show ?thesis using stats_count_invariant[OF v, of 2 2 "0.2"] by (intro conjI) simp_all
qed

lemma wellFormedGrid_new: "wellFormedGrid (newOccupancyGrid w h r)"
  by (simp add: wellFormedGrid_def newOccupancyGrid_def)

lemma wellFormedGrid_setOccupancy: "wellFormedGrid g \<Longrightarrow> wellFormedGrid (setOccupancy g gx gy v)"
  by (simp add: wellFormedGrid_def setOccupancy_def updateStats_def Let_def)

text \<open>
  Claim C7.  On a grid whose resolution is not zero, \<open>worldToGrid\<close> maps the centre that
  \<open>gridToWorld\<close> gives for a cell of the map back to that cell.  Numbers are real numbers
  here; with a resolution of zero the source computes \<open>NaN\<close>.
\<close>

theorem worldToGrid_gridToWorld_identity:
  assumes "resolution g \<noteq> 0" and "isInMap g gx gy"
  shows "worldToGrid g (fst (gridToWorld g gx gy)) (snd (gridToWorld g gx gy)) = (gx, gy)"
  using assms(1) by (rule worldToGrid_gridToWorld)

theorem worldToGrid_gridToWorld_identity_witness:
  "resolution (newOccupancyGrid 100 100 0.2) \<noteq> 0 \<and>
   isInMap (newOccupancyGrid 100 100 0.2) 3 7 \<and>
   worldToGrid (newOccupancyGrid 100 100 0.2)
     (fst (gridToWorld (newOccupancyGrid 100 100 0.2) 3 7))
     (snd (gridToWorld (newOccupancyGrid 100 100 0.2) 3 7)) = (3, 7)"
proof -
  have r: "resolution (newOccupancyGrid 100 100 0.2) \<noteq> 0"
    by (simp add: newOccupancyGrid_def)
  have m: "isInMap (newOccupancyGrid 100 100 0.2) 3 7"
    by (simp add: newOccupancyGrid_def isInMap_def)
  show ?thesis using r m worldToGrid_gridToWorld_identity[OF r m] by (intro conjI)
qed

text \<open>
  Claim C5.  After \<open>inflateObstacles\<close>, every cell of the map whose Euclidean distance, in
  cells, to some raw-occupied cell is at most \<open>inflationRadius = ceil(robotRadius /
  resolution)\<close> is \<open>-1\<close> in the inflated array; every raw-occupied cell is \<open>-1\<close> there; and
  the raw array is as it was.
\<close>

theorem inflateObstacles_postcondition:
  assumes "wellFormedGrid g"
  shows "(\<forall>gx gy cx cy.
            isInMap g gx gy \<and> isInMap g cx cy \<and> getOccupancy g cx cy = -1 \<and>
            sqrt (real_of_int ((gx - cx) * (gx - cx) + (gy - cy) * (gy - cy)))
              \<le> real_of_int \<lceil>robotRadius g / resolution g\<rceil>
            \<longrightarrow> getInflatedOccupancy (inflateObstacles g) gx gy = -1) \<and>
         (\<forall>cx cy. isInMap g cx cy \<and> getOccupancy g cx cy = -1
            \<longrightarrow> getInflatedOccupancy (inflateObstacles g) cx cy = -1) \<and>
         data (inflateObstacles g) = data g"
proof -
  have len: "length (data g) = width g * height g" "length (inflatedData g) = width g * height g"
    and rad: "inflationRadius g = \<lceil>robotRadius g / resolution g\<rceil>"
    using assms by (simp_all add: wellFormedGrid_def)
  have ext: "inflateExt (g\<lparr>inflatedData := copyRaw (data g) (inflatedData g)\<rparr>) (inflateObstacles g)"
    by (rule inflateObstacles_ext)
  have im: "isInMap (inflateObstacles g) x y = isInMap g x y" for x y
    using ext by (simp add: inflateExt_def isInMap_def)
  have ci: "cellIndex (inflateObstacles g) x y = cellIndex g x y" for x y
    using ext by (simp add: inflateExt_def cellIndex_def)
  have near: "getInflatedOccupancy (inflateObstacles g) gx gy = -1"
    if a: "isInMap g gx gy" "isInMap g cx cy" "getOccupancy g cx cy = -1"
      "sqrt (real_of_int ((gx - cx) * (gx - cx) + (gy - cy) * (gy - cy)))
         \<le> real_of_int \<lceil>robotRadius g / resolution g\<rceil>" for gx gy cx cy
  proof -
    have occ: "data g ! cellIndex g cx cy = -1" using a(2,3) by (simp add: getOccupancy_def)
    have "inflatedData (inflateObstacles g) ! cellIndex g (cx + (gx - cx)) (cy + (gy - cy)) = -1"
      using len a(2) occ
    proof (rule inflateObstacles_hit)
      show "isInMap g (cx + (gx - cx)) (cy + (gy - cy))" using a(1) by simp
      show "sqrt (real_of_int ((gx - cx) * (gx - cx) + (gy - cy) * (gy - cy)))
              \<le> real_of_int (inflationRadius g)" using a(4) rad by simp
    qed
    then show ?thesis using a(1) by (simp add: getInflatedOccupancy_def im ci)
  qed
  have keep: "getInflatedOccupancy (inflateObstacles g) cx cy = -1"
    if a: "isInMap g cx cy" "getOccupancy g cx cy = -1" for cx cy
  proof -
    have occ: "data g ! cellIndex g cx cy = -1" using a by (simp add: getOccupancy_def)
    have "inflatedData (inflateObstacles g) ! cellIndex g cx cy = -1"
      using len a(1) occ by (rule inflateObstacles_keeps_occupied)
    then show ?thesis using a(1) by (simp add: getInflatedOccupancy_def im ci)
  qed
  have raw: "data (inflateObstacles g) = data g" using ext by (simp add: inflateExt_def)
  show ?thesis using near keep raw by blast
qed

theorem inflateObstacles_postcondition_witness:
  "wellFormedGrid (setOccupancy (newOccupancyGrid 3 3 0.2) 1 1 (-1)) \<and>
   getInflatedOccupancy (inflateObstacles (setOccupancy (newOccupancyGrid 3 3 0.2) 1 1 (-1))) 0 1 = -1"
proof -
  let ?g = "setOccupancy (newOccupancyGrid 3 3 0.2) 1 1 (-1)"
  have wf: "wellFormedGrid ?g" by (simp add: wellFormedGrid_setOccupancy wellFormedGrid_new)
  have dims: "width ?g = 3" "height ?g = 3" "resolution ?g = 0.2" "robotRadius ?g = 0.2"
    by (simp_all add: setOccupancy_def newOccupancyGrid_def updateStats_def Let_def isInMap_def)
  have m: "isInMap ?g 0 1" "isInMap ?g 1 1" using dims by (simp_all add: isInMap_def)
  have o: "getOccupancy ?g 1 1 = -1"
    by (simp add: getOccupancy_def setOccupancy_def newOccupancyGrid_def updateStats_def
        Let_def isInMap_def cellIndex_def toInt8_def)
  have d: "sqrt (real_of_int ((0 - 1) * (0 - 1) + (1 - 1) * (1 - 1)))
             \<le> real_of_int \<lceil>robotRadius ?g / resolution ?g\<rceil>"
    unfolding dims by simp
  from inflateObstacles_postcondition[OF wf] m o d
  have "getInflatedOccupancy (inflateObstacles ?g) 0 1 = -1" by blast
  with wf show ?thesis by (intro conjI)
qed


section \<open>Scoring weights and mission synthesis\<close>

lemma rejectedWeight_iff:
  "rejectedWeight v \<longleftrightarrow> \<not> (v = JsNaN \<or> (\<exists>r. v = JsNumber r \<and> 0 \<le> r \<and> r \<le> 1))"
  by (cases v) (auto simp: rejectedWeight_def)

lemma setWeightsLoop_fails_iff:
  "fst (setWeightsLoop keys weights stored) = False \<longleftrightarrow>
     (\<exists>key \<in> set keys. weights key \<noteq> JsUndefined \<and> rejectedWeight (weights key))"
  by (induction keys arbitrary: stored) auto

lemma setWeightsLoop_outside:
  "k \<notin> set keys \<Longrightarrow> snd (setWeightsLoop keys weights stored) k = stored k"
  by (induction keys arbitrary: stored) auto

lemma setWeightsLoop_cong:
  "(\<And>k. k \<in> set keys \<Longrightarrow> w1 k = w2 k) \<Longrightarrow>
   setWeightsLoop keys w1 stored = setWeightsLoop keys w2 stored"
  by (induction keys arbitrary: stored) auto

lemma setWeightsLoop_prefix:
  assumes "\<forall>k \<in> set pre. weights k = JsUndefined \<or> \<not> rejectedWeight (weights k)"
    and "weights bad \<noteq> JsUndefined" "rejectedWeight (weights bad)"
  shows "setWeightsLoop (pre @ bad # post) weights stored =
     (False, \<lambda>k. if k \<in> set pre \<and> weights k \<noteq> JsUndefined then weights k else stored k)"
  using assms
proof (induction pre arbitrary: stored)
  case Nil
  then show ?case by simp
next
  case (Cons a pre)
  then show ?case by (auto simp: fun_eq_iff)
qed

lemma hypot_zero_right: "hypot a 0 = \<bar>a\<bar>"
  by (simp add: hypot_def)

lemma hypot_nonneg: "0 \<le> hypot a b"
  by (simp add: hypot_def)

lemma length_generateWaypoints:
  "length (generateWaypoints start goal) =
     nat (max 2 \<lfloor>hypot (goal_x goal - vec_x start) (goal_y goal - vec_y start) / 2.0\<rfloor>)"
  by (simp add: generateWaypoints_def Let_def)

lemma nth_upto_from_one: "i < nat n \<Longrightarrow> [1..n] ! i = int i + 1"
  by (simp add: nth_upto)

lemma accepted_iff: "\<not> rejectedWeight v \<longleftrightarrow> numberInUnitInterval v \<or> v = JsNaN"
  by (cases v) (auto simp: rejectedWeight_def)

text \<open>
  What \<open>setScoringWeights\<close> does, for every argument and every engine.  It reports failure
  exactly when one of the five keys carries a value other than \<open>undefined\<close> that passes
  none of the tests of the guard, that is, a value that is neither a number in \<open>[0, 1]\<close>
  nor \<open>NaN\<close>.  Keys outside the five change nothing.  When the call fails at a key, the
  weights of the keys before it have been stored, and no other weight has changed.
\<close>

lemma setScoringWeights_not_atomic:
  "(fst (setScoringWeights weights st) = False \<longleftrightarrow>
      (\<exists>key \<in> set validKeys. weights key \<noteq> JsUndefined \<and>
         \<not> (numberInUnitInterval (weights key) \<or> weights key = JsNaN))) \<and>
   (\<forall>k. k \<notin> set validKeys \<longrightarrow>
      scoringWeights (config (snd (setScoringWeights weights st))) k = scoringWeights (config st) k) \<and>
   (\<forall>other. (\<forall>k \<in> set validKeys. other k = weights k) \<longrightarrow>
      setScoringWeights other st = setScoringWeights weights st) \<and>
   (\<forall>pre bad post.
      validKeys = pre @ bad # post \<and>
      (\<forall>k \<in> set pre. weights k = JsUndefined \<or> numberInUnitInterval (weights k) \<or> weights k = JsNaN) \<and>
      weights bad \<noteq> JsUndefined \<and> \<not> (numberInUnitInterval (weights bad) \<or> weights bad = JsNaN)
      \<longrightarrow> fst (setScoringWeights weights st) = False \<and>
          (\<forall>k. scoringWeights (config (snd (setScoringWeights weights st))) k =
               (if k \<in> set pre \<and> weights k \<noteq> JsUndefined then weights k
                else scoringWeights (config st) k)))"
proof (intro conjI allI impI)
  show "fst (setScoringWeights weights st) = False \<longleftrightarrow>
      (\<exists>key \<in> set validKeys. weights key \<noteq> JsUndefined \<and>
         \<not> (numberInUnitInterval (weights key) \<or> weights key = JsNaN))"
    using setWeightsLoop_fails_iff[of validKeys weights "scoringWeights (config st)"]
    by (simp add: setScoringWeights_def Let_def accepted_iff[symmetric])
next
  fix k assume "k \<notin> set validKeys"
  then show "scoringWeights (config (snd (setScoringWeights weights st))) k = scoringWeights (config st) k"
    by (simp add: setScoringWeights_def Let_def setWeightsLoop_outside)
next
  fix other assume "\<forall>k \<in> set validKeys. other k = weights k"
  then have "setWeightsLoop validKeys other (scoringWeights (config st)) =
             setWeightsLoop validKeys weights (scoringWeights (config st))"
    by (intro setWeightsLoop_cong) simp
  then show "setScoringWeights other st = setScoringWeights weights st"
    by (simp add: setScoringWeights_def)
next
  fix pre bad post
  assume a: "validKeys = pre @ bad # post \<and>
      (\<forall>k \<in> set pre. weights k = JsUndefined \<or> numberInUnitInterval (weights k) \<or> weights k = JsNaN) \<and>
      weights bad \<noteq> JsUndefined \<and> \<not> (numberInUnitInterval (weights bad) \<or> weights bad = JsNaN)"
  then have p: "\<forall>k \<in> set pre. weights k = JsUndefined \<or> \<not> rejectedWeight (weights k)"
    and b: "weights bad \<noteq> JsUndefined" "rejectedWeight (weights bad)"
    using accepted_iff by blast+
  have r: "setWeightsLoop validKeys weights (scoringWeights (config st)) =
     (False, \<lambda>k. if k \<in> set pre \<and> weights k \<noteq> JsUndefined then weights k
                  else scoringWeights (config st) k)"
  proof -
    from a have vk: "validKeys = pre @ bad # post" by blast
    show ?thesis unfolding vk by (rule setWeightsLoop_prefix[OF p b])
  qed
  show "fst (setScoringWeights weights st) = False"
    by (simp add: setScoringWeights_def r)
  show "scoringWeights (config (snd (setScoringWeights weights st))) k =
               (if k \<in> set pre \<and> weights k \<noteq> JsUndefined then weights k
                else scoringWeights (config st) k)" for k
    by (simp add: setScoringWeights_def r)
qed

lemma setScoringWeights_not_atomic_example:
  "fst (setScoringWeights partialWeights newEngine) = False \<and>
   scoringWeights (config (snd (setScoringWeights partialWeights newEngine))) ''infoGain'' = JsNumber 0.9 \<and>
   scoringWeights (config newEngine) ''infoGain'' = JsNumber 0.5"
proof -
  have k: "validKeys = [''infoGain''] @ ''distance'' # [''consistency'', ''density'', ''history'']"
    by (simp add: validKeys_def)
  have p: "\<forall>k \<in> set [''infoGain'']. partialWeights k = JsUndefined \<or>
             numberInUnitInterval (partialWeights k) \<or> partialWeights k = JsNaN"
    by (simp add: partialWeights_def)
  have b: "partialWeights ''distance'' \<noteq> JsUndefined \<and>
           \<not> (numberInUnitInterval (partialWeights ''distance'') \<or> partialWeights ''distance'' = JsNaN)"
    by (simp add: partialWeights_def)
  have s: "partialWeights ''infoGain'' = JsNumber 0.9" by (simp add: partialWeights_def)
  have old: "scoringWeights (config newEngine) ''infoGain'' = JsNumber 0.5"
    by (simp add: newEngine_def defaultConfig_def defaultWeights_def)
  from setScoringWeights_not_atomic[of partialWeights newEngine] k p b
  have "fst (setScoringWeights partialWeights newEngine) = False \<and>
        (\<forall>k. scoringWeights (config (snd (setScoringWeights partialWeights newEngine))) k =
               (if k \<in> set [''infoGain''] \<and> partialWeights k \<noteq> JsUndefined then partialWeights k
                else scoringWeights (config newEngine) k))"
    by blast
  then show ?thesis using s old by simp
qed

text \<open>
  Claim C10 fails on the code.  The guard
  \<open>typeof weights[key] !== 'number' || weights[key] < 0 || weights[key] > 1\<close> is meant to
  reject every value that is not a number between 0 and 1, as its error message says, but
  \<open>NaN\<close> has type number and fails neither comparison.  At \<open>{infoGain: NaN}\<close> the key is
  present, its value is not a number in \<open>[0, 1]\<close>, and the call succeeds and stores it.
\<close>

theorem setScoringWeights_accepts_NaN:
  "fst (setScoringWeights nanWeights newEngine) = True \<and>
   nanWeights ''infoGain'' \<noteq> JsUndefined \<and>
   \<not> numberInUnitInterval (nanWeights ''infoGain'') \<and>
   scoringWeights (config (snd (setScoringWeights nanWeights newEngine))) ''infoGain'' = JsNaN"
  by (simp add: setScoringWeights_def nanWeights_def validKeys_def rejectedWeight_def Let_def)

lemma hypot_scale:
  assumes "0 < c"
  shows "hypot (a / c) (b / c) = hypot a b / c"
proof -
  have "(a / c) * (a / c) + (b / c) * (b / c) = (a * a + b * b) / (c * c)"
    by (simp add: add_divide_distrib)
  then have "hypot (a / c) (b / c) = sqrt ((a * a + b * b) / (c * c))"
    by (simp add: hypot_def)
  also have "\<dots> = sqrt (a * a + b * b) / sqrt (c * c)" by (rule real_sqrt_divide)
  also have "sqrt (c * c) = c" using assms by simp
  finally show ?thesis by (simp add: hypot_def)
qed

lemma nth_generateWaypoints:
  assumes "i < nat (max 2 \<lfloor>hypot (goal_x goal - vec_x start) (goal_y goal - vec_y start) / 2.0\<rfloor>)"
  shows "generateWaypoints start goal ! i =
     (let n = max 2 \<lfloor>hypot (goal_x goal - vec_x start) (goal_y goal - vec_y start) / 2.0\<rfloor>;
          t = real (i + 1) / real_of_int n
      in \<lparr> wp_x = vec_x start + (goal_x goal - vec_x start) * t,
           wp_y = vec_y start + (goal_y goal - vec_y start) * t,
           wp_z = map_option (\<lambda>gz. vec_z start + (gz - vec_z start) * t) (goal_z goal) \<rparr>)"
proof -
  let ?n = "max 2 \<lfloor>hypot (goal_x goal - vec_x start) (goal_y goal - vec_y start) / 2.0\<rfloor>"
  have i: "i < length [1..?n]" using assms by simp
  have e: "[1..?n] ! i = int i + 1" using assms by (rule nth_upto_from_one)
  have r: "real_of_int (int i + 1) = real (i + 1)" by simp
  show ?thesis
    unfolding generateWaypoints_def Let_def nth_map[OF i] e r ..
qed

lemma last_generateWaypoints:
  "last (generateWaypoints start goal) =
     \<lparr> wp_x = goal_x goal, wp_y = goal_y goal, wp_z = goal_z goal \<rparr>"
proof -
  let ?n = "max 2 \<lfloor>hypot (goal_x goal - vec_x start) (goal_y goal - vec_y start) / 2.0\<rfloor>"
  have n: "2 \<le> ?n" by simp
  have ne: "[1..?n] \<noteq> []" using n by simp
  have l: "last [1..?n] = ?n" using n by (simp add: last_conv_nth nth_upto)
  have one: "real_of_int ?n / real_of_int ?n = 1" using n by simp
  have z: "map_option (\<lambda>gz. vec_z start + (gz - vec_z start) * 1) (goal_z goal) = goal_z goal"
    by (cases "goal_z goal") simp_all
  show ?thesis
    unfolding generateWaypoints_def Let_def last_map[OF ne] l one using z by simp
qed

lemma spacing_generateWaypoints:
  assumes "i + 1 < nat (max 2 \<lfloor>hypot (goal_x goal - vec_x start) (goal_y goal - vec_y start) / 2.0\<rfloor>)"
  shows "hypot (wp_x (generateWaypoints start goal ! (i + 1)) - wp_x (generateWaypoints start goal ! i))
               (wp_y (generateWaypoints start goal ! (i + 1)) - wp_y (generateWaypoints start goal ! i))
         = hypot (goal_x goal - vec_x start) (goal_y goal - vec_y start)
           / real_of_int (max 2 \<lfloor>hypot (goal_x goal - vec_x start) (goal_y goal - vec_y start) / 2.0\<rfloor>)"
proof -
  let ?n = "max 2 \<lfloor>hypot (goal_x goal - vec_x start) (goal_y goal - vec_y start) / 2.0\<rfloor>"
  have n: "0 < real_of_int ?n" by simp
  have i: "i < nat ?n" using assms by simp
  have dx: "wp_x (generateWaypoints start goal ! (i + 1)) - wp_x (generateWaypoints start goal ! i)
            = (goal_x goal - vec_x start) / real_of_int ?n"
    unfolding nth_generateWaypoints[OF assms] nth_generateWaypoints[OF i] Let_def
    using n by (simp add: field_simps)
  have dy: "wp_y (generateWaypoints start goal ! (i + 1)) - wp_y (generateWaypoints start goal ! i)
            = (goal_y goal - vec_y start) / real_of_int ?n"
    unfolding nth_generateWaypoints[OF assms] nth_generateWaypoints[OF i] Let_def
    using n by (simp add: field_simps)
  show ?thesis unfolding dx dy using n by (rule hypot_scale)
qed

lemma publishExplorationMission_result:
  assumes "currentPos st = Some pos"
  shows "publishExplorationMission goal now st =
     Inr (st\<lparr> currentMissionId := Some (''exploration_'' @ showNat (nat now)),
              outbox := outbox st @
                [PublishMission \<lparr> mission_id = ''exploration_'' @ showNat (nat now),
                                  tasks = map waypointTask (generateWaypoints pos goal) \<rparr>,
                 TimerPublishExecution (''exploration_'' @ showNat (nat now)) 0] \<rparr>)"
  using assms by (simp add: publishExplorationMission_def Let_def emit_def)

text \<open>
  Claim C8, amended.  With \<open>d\<close> the horizontal distance from start to goal,
  \<open>generateWaypoints\<close> returns \<open>n = max(2, floor(d / 2))\<close> waypoints, the \<open>i\<close>-th at the
  parameter \<open>i / n\<close> of the segment, the last one the goal; consecutive waypoints are
  \<open>d / n\<close> apart horizontally (not 2 m in general).  \<open>publishExplorationMission\<close>
  publishes a mission whose id is \<open>exploration_\<close> followed by the clock reading, with one
  task per waypoint, each with yaw 0, and sets a timer for the START command.
\<close>

theorem generateWaypoints_interpolation:
  "(let d = hypot (goal_x goal - vec_x start) (goal_y goal - vec_y start);
        n = max 2 \<lfloor>d / 2.0\<rfloor>;
        ws = generateWaypoints start goal
    in length ws = nat n \<and>
       (\<forall>i. i < nat n \<longrightarrow>
          ws ! i = \<lparr> wp_x = vec_x start + (goal_x goal - vec_x start) * (real (i + 1) / real_of_int n),
                     wp_y = vec_y start + (goal_y goal - vec_y start) * (real (i + 1) / real_of_int n),
                     wp_z = map_option (\<lambda>gz. vec_z start + (gz - vec_z start) * (real (i + 1) / real_of_int n))
                              (goal_z goal) \<rparr>) \<and>
       last ws = \<lparr> wp_x = goal_x goal, wp_y = goal_y goal, wp_z = goal_z goal \<rparr> \<and>
       (\<forall>i. i + 1 < nat n \<longrightarrow>
          hypot (wp_x (ws ! (i + 1)) - wp_x (ws ! i)) (wp_y (ws ! (i + 1)) - wp_y (ws ! i))
            = d / real_of_int n)) \<and>
   (\<forall>st now. currentPos st = Some start \<longrightarrow>
      publishExplorationMission goal now st =
        Inr (st\<lparr> currentMissionId := Some (''exploration_'' @ showNat (nat now)),
                 outbox := outbox st @
                   [PublishMission \<lparr> mission_id = ''exploration_'' @ showNat (nat now),
                                     tasks = map waypointTask (generateWaypoints start goal) \<rparr>,
                    TimerPublishExecution (''exploration_'' @ showNat (nat now)) 0] \<rparr>)) \<and>
   (\<forall>wp. waypointTask wp =
      \<lparr> task_x = wp_x wp, task_y = wp_y wp, task_z = wp_z wp, yaw = 0,
        camera_on = False, camera_mode = 0, camera_interval = 0 \<rparr>)"
  unfolding Let_def
  using length_generateWaypoints nth_generateWaypoints[unfolded Let_def] last_generateWaypoints
    spacing_generateWaypoints publishExplorationMission_result waypointTask_def
  by (intro conjI allI impI) blast+

lemma distance_five: "hypot (goal_x goalFiveMetres - vec_x originPos) (goal_y goalFiveMetres - vec_y originPos) = 5"
  by (simp add: goalFiveMetres_def originPos_def hypot_def real_sqrt_abs2[of 5, simplified])

text \<open>
  The claim as stated fails for a goal 5 m away: the two waypoints are 2.5 m apart.
\<close>

theorem generateWaypoints_spacing_counterexample:
  "length (generateWaypoints originPos goalFiveMetres) = 2 \<and>
   hypot (wp_x (generateWaypoints originPos goalFiveMetres ! 1) - wp_x (generateWaypoints originPos goalFiveMetres ! 0))
         (wp_y (generateWaypoints originPos goalFiveMetres ! 1) - wp_y (generateWaypoints originPos goalFiveMetres ! 0))
     = 5 / 2 \<and>
   (5 / 2 :: real) \<noteq> 2"
proof -
  have n: "max 2 \<lfloor>hypot (goal_x goalFiveMetres - vec_x originPos) (goal_y goalFiveMetres - vec_y originPos) / 2.0\<rfloor> = 2"
    unfolding distance_five by simp
  have l: "length (generateWaypoints originPos goalFiveMetres) = 2"
    unfolding length_generateWaypoints n by simp
  have "(0::nat) + 1 < nat (max 2 \<lfloor>hypot (goal_x goalFiveMetres - vec_x originPos) (goal_y goalFiveMetres - vec_y originPos) / 2.0\<rfloor>)"
    unfolding n by simp
  from spacing_generateWaypoints[OF this] have
    "hypot (wp_x (generateWaypoints originPos goalFiveMetres ! 1) - wp_x (generateWaypoints originPos goalFiveMetres ! 0))
         (wp_y (generateWaypoints originPos goalFiveMetres ! 1) - wp_y (generateWaypoints originPos goalFiveMetres ! 0))
     = 5 / 2"
    unfolding n distance_five by simp
  with l show ?thesis by simp
qed

theorem generateWaypoints_interpolation_witness:
  "length (generateWaypoints originPos goalFiveMetres) = 2 \<and>
   generateWaypoints originPos goalFiveMetres ! 0 = \<lparr> wp_x = 5 / 2, wp_y = 0, wp_z = Some 1 \<rparr> \<and>
   last (generateWaypoints originPos goalFiveMetres) = \<lparr> wp_x = 5, wp_y = 0, wp_z = Some 1 \<rparr>"
proof -
  have n: "max 2 \<lfloor>hypot (goal_x goalFiveMetres - vec_x originPos) (goal_y goalFiveMetres - vec_y originPos) / 2.0\<rfloor> = 2"
    unfolding distance_five by simp
  have i: "(0::nat) < nat 2" by simp
  from generateWaypoints_interpolation[of goalFiveMetres originPos, unfolded Let_def n] i
  have "length (generateWaypoints originPos goalFiveMetres) = nat 2"
    and "generateWaypoints originPos goalFiveMetres ! 0 =
          \<lparr> wp_x = vec_x originPos + (goal_x goalFiveMetres - vec_x originPos) * (real (0 + 1) / real_of_int 2),
            wp_y = vec_y originPos + (goal_y goalFiveMetres - vec_y originPos) * (real (0 + 1) / real_of_int 2),
            wp_z = map_option (\<lambda>gz. vec_z originPos + (gz - vec_z originPos) * (real (0 + 1) / real_of_int 2))
                     (goal_z goalFiveMetres) \<rparr>"
    and "last (generateWaypoints originPos goalFiveMetres) =
          \<lparr> wp_x = goal_x goalFiveMetres, wp_y = goal_y goalFiveMetres, wp_z = goal_z goalFiveMetres \<rparr>"
    by blast+
  then show ?thesis by (simp add: goalFiveMetres_def originPos_def)
qed


section \<open>The Bresenham line is total\<close>

lemma bresenhamLoop_returns:
  fixes dx dy sx sy x1 y1 :: int
  assumes "0 \<le> rx" "0 \<le> ry" "rx \<le> dx" "ry \<le> dy"
    "x1 - x = sx * rx" "y1 - y = sy * ry"
    "err = dx - dy + rx * dy - ry * dx"
    "sx = 1 \<or> sx = -1" "sy = 1 \<or> sy = -1"
  shows "\<exists>r. bresenhamLoop dx dy sx sy x1 y1 err x y pts = Some r"
  using assms
proof (induction "nat (rx + ry)" arbitrary: rx ry err x y pts rule: less_induct)
  case less
  note inv = less.prems
  show ?case
  proof (cases "x = x1 \<and> y = y1")
    case True
    have "bresenhamLoop dx dy sx sy x1 y1 err x y pts =
          (if x = x1 \<and> y = y1 then Some (pts @ [(x, y)])
           else bresenhamLoop dx dy sx sy x1 y1
             (if 2 * err < dx then (if 2 * err > - dy then err - dy else err) + dx
              else (if 2 * err > - dy then err - dy else err))
             (if 2 * err > - dy then x + sx else x)
             (if 2 * err < dx then y + sy else y)
             (pts @ [(x, y)]))"
      by (rule bresenhamLoop.simps)
    then have "bresenhamLoop dx dy sx sy x1 y1 err x y pts = Some (pts @ [(x, y)])"
      using True by (simp only: simp_thms if_True)
    then show ?thesis by blast
  next
    case False
    have nz: "rx \<noteq> 0 \<or> ry \<noteq> 0" using False inv(5,6) by auto
    have dx0: "0 \<le> dx" and dy0: "0 \<le> dy" using inv(1-4) by linarith+
    define xs where "xs \<longleftrightarrow> 2 * err > - dy"
    define ys where "ys \<longleftrightarrow> 2 * err < dx"
    have xs_rx: "1 \<le> rx" if xs
    proof (rule ccontr)
      assume "\<not> 1 \<le> rx"
      then have rx: "rx = 0" using inv(1) by linarith
      then have ry: "1 \<le> ry" using nz inv(2) by linarith
      have "1 * dx \<le> ry * dx" using ry dx0 by (intro mult_right_mono) auto
      then have "err \<le> - dy" using inv(7) rx by simp
      then show False using that dy0 unfolding xs_def by linarith
    qed
    have ys_ry: "1 \<le> ry" if ys
    proof (rule ccontr)
      assume "\<not> 1 \<le> ry"
      then have ry: "ry = 0" using inv(2) by linarith
      then have rx: "1 \<le> rx" using nz inv(1) by linarith
      have "1 * dy \<le> rx * dy" using rx dy0 by (intro mult_right_mono) auto
      then have "dx \<le> err" using inv(7) ry by simp
      then show False using that dx0 unfolding ys_def by linarith
    qed
    have some: "xs \<or> ys"
    proof (rule ccontr)
      assume "\<not> (xs \<or> ys)"
      then have "dx + dy \<le> 0" unfolding xs_def ys_def by linarith
      then have "dx = 0" "dy = 0" using dx0 dy0 by linarith+
      then show False using nz inv(1-4) by linarith
    qed
    define rx' where "rx' = (if xs then rx - 1 else rx)"
    define ry' where "ry' = (if ys then ry - 1 else ry)"
    define err' where "err' = (if 2 * err < dx then (if 2 * err > - dy then err - dy else err) + dx
              else (if 2 * err > - dy then err - dy else err))"
    define x' where "x' = (if 2 * err > - dy then x + sx else x)"
    define y' where "y' = (if 2 * err < dx then y + sy else y)"
    have m: "nat (rx' + ry') < nat (rx + ry)"
      using some xs_rx ys_ry inv(1,2) unfolding rx'_def ry'_def by (auto split: if_splits)
    have i1: "0 \<le> rx'" "0 \<le> ry'" "rx' \<le> dx" "ry' \<le> dy"
      using xs_rx ys_ry inv(1-4) unfolding rx'_def ry'_def by (auto split: if_splits)
    have i5: "x1 - x' = sx * rx'"
      using inv(5) unfolding x'_def rx'_def xs_def by (simp add: algebra_simps)
    have i6: "y1 - y' = sy * ry'"
      using inv(6) unfolding y'_def ry'_def ys_def by (simp add: algebra_simps)
    have i7: "err' = dx - dy + rx' * dy - ry' * dx"
      using inv(7) unfolding err'_def rx'_def ry'_def xs_def ys_def by (simp add: algebra_simps)
    have "\<exists>r. bresenhamLoop dx dy sx sy x1 y1 err' x' y' (pts @ [(x, y)]) = Some r"
      using less.hyps[OF m i1 i5 i6 i7 inv(8,9)] .
    moreover have "bresenhamLoop dx dy sx sy x1 y1 err x y pts =
                   bresenhamLoop dx dy sx sy x1 y1 err' x' y' (pts @ [(x, y)])"
    proof -
      have step: "bresenhamLoop dx dy sx sy x1 y1 err x y pts =
          (if x = x1 \<and> y = y1 then Some (pts @ [(x, y)])
           else bresenhamLoop dx dy sx sy x1 y1 err' x' y' (pts @ [(x, y)]))"
        unfolding err'_def x'_def y'_def by (rule bresenhamLoop.simps)
      show ?thesis using False by (simp only: step if_False)
    qed
    ultimately show ?thesis by simp
  qed
qed

lemma bresenhamLine_returns: "\<exists>points. bresenhamLine x0 y0 x1 y1 = Some points"
  unfolding bresenhamLine_def Let_def
  by (rule bresenhamLoop_returns[where rx = "\<bar>x1 - x0\<bar>" and ry = "\<bar>y1 - y0\<bar>"]) auto

lemma isPathClear_returns: "\<exists>b. isPathClear g start goal = Inr b"
proof -
  obtain points where
    "bresenhamLine (fst (worldToGrid g (fst start) (snd start))) (snd (worldToGrid g (fst start) (snd start)))
       (fst (worldToGrid g (fst goal) (snd goal))) (snd (worldToGrid g (fst goal) (snd goal))) = Some points"
    using bresenhamLine_returns by blast
  then show ?thesis by (simp add: isPathClear_def Let_def)
qed

section \<open>The goal scorer\<close>

lemma evaluateFrontier_accepted:
  assumes "evaluateFrontier st pos frontier = Inr (Some (score, goal))"
  shows "goal_x goal = fr_x frontier \<and> goal_y goal = fr_y frontier \<and>
         goal_pathClear goal \<and> \<not> nearUnreachable st frontier \<and>
         isPathClear (grid st) (vec_x pos, vec_y pos) (fr_x frontier, fr_y frontier) = Inr True"
  using assms
  by (auto simp: evaluateFrontier_def scoreFrontier_def Let_def
           split: if_splits sum.splits option.splits)

lemma selectLoop_origin:
  assumes "selectLoop st pos frontierList bestScore best = Inr (Some goal)"
  shows "best = Some goal \<or>
         (\<exists>frontier \<in> set frontierList. \<exists>score.
            evaluateFrontier st pos frontier = Inr (Some (score, goal)))"
  using assms
proof (induction frontierList arbitrary: bestScore best)
  case Nil
  then show ?case by simp
next
  case (Cons frontier rest)
  show ?case
  proof (cases "evaluateFrontier st pos frontier")
    case (Inl e)
    then show ?thesis using Cons.prems by simp
  next
    case (Inr r)
    show ?thesis
    proof (cases r)
      case None
      then show ?thesis using Cons.prems Cons.IH Inr by auto
    next
      case (Some sg)
      obtain score g where sg: "sg = (score, g)" by (cases sg)
      show ?thesis
      proof (cases "scoreBetter score bestScore")
        case True
        then have "selectLoop st pos rest score (Some g) = Inr (Some goal)"
          using Cons.prems Inr Some sg by simp
        from Cons.IH[OF this] show ?thesis using Inr Some sg by auto
      next
        case False
        then have "selectLoop st pos rest bestScore best = Inr (Some goal)"
          using Cons.prems Inr Some sg by simp
        from Cons.IH[OF this] show ?thesis by auto
      qed
    qed
  qed
qed

lemma selectBestFrontier_cases:
  assumes "selectBestFrontier st frontierList pos = Inr (result, st')"
  shows "(result = None \<and> st' = st) \<or>
         (\<exists>goal direction. result = Some goal \<and> st' = st\<lparr>lastGoalDirection := direction\<rparr> \<and>
            selectLoop st pos frontierList None None = Inr (Some goal))"
  using assms
  by (auto simp: selectBestFrontier_def Let_def split: sum.splits option.splits)

lemma selected_goal_accepted:
  assumes "selectBestFrontier st frontierList pos = Inr (Some goal, st')"
  shows "\<exists>frontier \<in> set frontierList. \<exists>score.
            evaluateFrontier st pos frontier = Inr (Some (score, goal))"
proof -
  from selectBestFrontier_cases[OF assms]
  have "selectLoop st pos frontierList None None = Inr (Some goal)" by auto
  from selectLoop_origin[OF this] show ?thesis by simp
qed

lemma selected_goal_far_from_unreachable:
  assumes "selectBestFrontier st frontierList pos = Inr (Some goal, st')"
  shows "\<forall>u \<in> set (unreachableGoals st). \<not> hypot (goal_x goal - fst u) (goal_y goal - snd u) < 2.0"
proof -
  from selected_goal_accepted[OF assms] obtain frontier score where
    "evaluateFrontier st pos frontier = Inr (Some (score, goal))" by blast
  from evaluateFrontier_accepted[OF this] show ?thesis
    by (auto simp: nearUnreachable_def list_ex_iff)
qed


lemma hypot_less_iff: "0 < c \<Longrightarrow> hypot a b < c \<longleftrightarrow> a * a + b * b < c * c"
proof -
  assume c: "0 < c"
  have e: "sqrt (c * c) = c" using c by simp
  have "hypot a b < c \<longleftrightarrow> sqrt (a * a + b * b) < sqrt (c * c)"
    unfolding e by (simp add: hypot_def)
  also have "\<dots> \<longleftrightarrow> a * a + b * b < c * c" by (rule real_sqrt_less_iff)
  finally show ?thesis .
qed

lemma less_sqrt_iff: "0 \<le> c \<Longrightarrow> c < sqrt x \<longleftrightarrow> c * c < x"
proof -
  assume c: "0 \<le> c"
  have e: "sqrt (c * c) = c" using c by simp
  have "c < sqrt x \<longleftrightarrow> sqrt (c * c) < sqrt x" unfolding e by simp
  also have "\<dots> \<longleftrightarrow> c * c < x" by (rule real_sqrt_less_iff)
  finally show ?thesis .
qed

lemma sqrt_le_iff: "0 \<le> c \<Longrightarrow> sqrt x \<le> c \<longleftrightarrow> x \<le> c * c"
  using less_sqrt_iff[of c x] by linarith









section \<open>The controller: what each handler changes\<close>

lemma bookkeepingKept_refl: "bookkeepingKept st st"
  by (simp add: bookkeepingKept_def sameBooks_def)

lemma bookkeepingKept_trans:
  "bookkeepingKept a b \<Longrightarrow> bookkeepingKept b c \<Longrightarrow> bookkeepingKept a c"
  by (auto simp: bookkeepingKept_def sameBooks_def)

lemma bookkeepingKept_emit: "bookkeepingKept st (emit out st)"
  by (simp add: bookkeepingKept_def sameBooks_def emit_def)

lemma returnToHome_kept:
  assumes "returnToHome now st = Inr st'"
  shows "bookkeepingKept st st' \<and> isExploring st' = isExploring st \<and> grid st' = grid st \<and>
         frontiers st' = frontiers st"
  using assms
  by (auto simp: returnToHome_def Let_def emit_def bookkeepingKept_def sameBooks_def
           split: option.splits sum.splits)

lemma stopExploration_kept:
  assumes "stopExploration now st = Inr st'"
  shows "bookkeepingKept st st' \<and> \<not> isExploring st' \<and> grid st' = grid st \<and>
         frontiers st' = frontiers st"
proof (cases "isExploring st")
  case False
  then show ?thesis using assms by (simp add: stopExploration_def bookkeepingKept_refl)
next
  case True
  let ?st1 = "st\<lparr>isExploring := False, isPaused := False, isWaitingForArrival := False\<rparr>"
  have k1: "bookkeepingKept st ?st1" by (simp add: bookkeepingKept_def sameBooks_def)
  have "(st' = emit EmitStopped ?st1) \<or> returnToHome now ?st1 = Inr st'"
    using assms True by (auto simp: stopExploration_def Let_def split: option.splits if_splits)
  then show ?thesis
  proof
    assume "st' = emit EmitStopped ?st1"
    then show ?thesis by (simp add: emit_def bookkeepingKept_def sameBooks_def)
  next
    assume "returnToHome now ?st1 = Inr st'"
    from returnToHome_kept[OF this] show ?thesis
      using k1 bookkeepingKept_trans by auto
  qed
qed

lemma publishExplorationMission_kept:
  assumes "publishExplorationMission goal now st = Inr st'"
  shows "sameBooks st st' \<and> isWaitingForArrival st' = isWaitingForArrival st \<and>
         currentGoal st' = currentGoal st \<and> isExploring st' = isExploring st \<and>
         isReturningHome st' = isReturningHome st \<and> grid st' = grid st \<and> frontiers st' = frontiers st"
  using assms
  by (auto simp: publishExplorationMission_def Let_def emit_def sameBooks_def split: option.splits)

lemma publishExplorationStatus_kept:
  assumes "publishExplorationStatus st = Inr st'"
  shows "st' = emit EmitStatus st"
  using assms by (auto simp: publishExplorationStatus_def split: if_splits)

lemma toFixed1_close:
  assumes "toFixed1 a = toFixed1 b"
  shows "\<bar>a - b\<bar> < 1 / 10"
proof -
  have s: "(a < 0) = (b < 0)" and n: "nat \<lfloor>\<bar>a\<bar> * 10 + 1 / 2\<rfloor> = nat \<lfloor>\<bar>b\<bar> * 10 + 1 / 2\<rfloor>"
    using assms by (simp_all add: toFixed1_def)
  have "0 \<le> \<lfloor>\<bar>a\<bar> * 10 + 1 / 2\<rfloor>" "0 \<le> \<lfloor>\<bar>b\<bar> * 10 + 1 / 2\<rfloor>" by simp_all
  with n have "\<lfloor>\<bar>a\<bar> * 10 + 1 / 2\<rfloor> = \<lfloor>\<bar>b\<bar> * 10 + 1 / 2\<rfloor>" by linarith
  then have "\<bar>\<bar>a\<bar> * 10 - \<bar>b\<bar> * 10\<bar> < 1" by linarith
  then show ?thesis using s by (auto simp: abs_if split: if_splits)
qed

lemma small_square: fixes a :: real assumes "\<bar>a\<bar> < 1 / 10" shows "a * a < 1 / 100"
proof -
  have "\<bar>a\<bar> * \<bar>a\<bar> < (1 / 10) * (1 / 10)"
    using assms by (intro mult_strict_mono') auto
  then show ?thesis by (simp add: abs_mult_self_eq)
qed

lemma same_key_near:
  assumes "goalKeyOf gx gy = goalKeyOf ux uy"
  shows "hypot (gx - ux) (gy - uy) < 2.0"
proof -
  have kx: "toFixed1 gx = toFixed1 ux" and ky: "toFixed1 gy = toFixed1 uy"
    using assms by (simp_all add: goalKeyOf_def)
  have "(gx - ux) * (gx - ux) < 1 / 100"
    by (rule small_square) (rule toFixed1_close[OF kx])
  moreover have "(gy - uy) * (gy - uy) < 1 / 100"
    by (rule small_square) (rule toFixed1_close[OF ky])
  ultimately have "(gx - ux) * (gx - ux) < 1 / 100" "(gy - uy) * (gy - uy) < 1 / 100"
    by blast+
  then have "(gx - ux) * (gx - ux) + (gy - uy) * (gy - uy) < 2.0 * 2.0" by simp
  then show ?thesis using hypot_less_iff[of "2.0" "gx - ux" "gy - uy"] by simp
qed

lemma attemptsBounded_kept:
  assumes "attemptsBounded st" "bookkeepingKept st st'"
  shows "attemptsBounded st'"
  using assms
  by (auto simp: attemptsBounded_def bookkeepingKept_def sameBooks_def farFromBlacklist_def
           split: option.splits)

lemma attemptsBounded_goalStep:
  assumes "attemptsBounded st" "sameBooks st st'" "goalStep st st'"
  shows "attemptsBounded st'"
  using assms
  by (auto simp: attemptsBounded_def goalStep_def sameBooks_def farFromBlacklist_def
           split: option.splits)

lemma waiting_goal_below_limit:
  assumes inv: "attemptsBounded st" and w: "isWaitingForArrival st"
    and g: "currentGoal st = Some goal"
    and a: "goalAttempts st (goalKeyOf (goal_x goal) (goal_y goal)) = Some n"
  shows "n < maxAttempts"
proof (rule ccontr)
  assume "\<not> n < maxAttempts"
  then have "maxAttempts \<le> n" by simp
  with inv a obtain u where u: "u \<in> set (unreachableGoals st)"
    and k: "goalKeyOf (fst u) (snd u) = goalKeyOf (goal_x goal) (goal_y goal)"
    unfolding attemptsBounded_def by blast
  have "hypot (goal_x goal - fst u) (goal_y goal - snd u) < 2.0"
    using k by (intro same_key_near) simp
  moreover have "\<not> hypot (goal_x goal - fst u) (goal_y goal - snd u) < 2.0"
    using inv w g u unfolding attemptsBounded_def farFromBlacklist_def
    by (auto simp: list_all_iff)
  ultimately show False by simp
qed

lemma attemptsBounded_failed:
  assumes inv: "attemptsBounded st" and w: "isWaitingForArrival st"
    and b: "goalAttempts st' = goalAttempts (recordFailedAttempt st)"
           "unreachableGoals st' = unreachableGoals (recordFailedAttempt st)"
    and nw: "\<not> isWaitingForArrival st'"
  shows "attemptsBounded st'"
proof (cases "currentGoal st")
  case None
  then show ?thesis using inv b nw by (simp add: recordFailedAttempt_def attemptsBounded_def)
next
  case (Some goal)
  let ?k = "goalKeyOf (goal_x goal) (goal_y goal)"
  let ?n = "(case goalAttempts st ?k of None \<Rightarrow> 0 | Some n \<Rightarrow> n) + 1"
  have lim: "?n \<le> maxAttempts"
  proof (cases "goalAttempts st ?k")
    case None
    then show ?thesis by (simp add: maxAttempts_def)
  next
    case (Some n)
    from waiting_goal_below_limit[OF inv w \<open>currentGoal st = Some goal\<close> Some]
    show ?thesis using Some by simp
  qed
  have ga: "goalAttempts st' = (goalAttempts st)(?k \<mapsto> ?n)"
    using b(1) Some by (simp add: recordFailedAttempt_def Let_def)
  have ug: "unreachableGoals st' =
     (if ?n \<ge> maxAttempts then unreachableGoals st @ [(goal_x goal, goal_y goal)]
      else unreachableGoals st)"
    using b(2) Some by (simp add: recordFailedAttempt_def Let_def)
  show ?thesis
    unfolding attemptsBounded_def
  proof (intro conjI allI impI)
    fix k n assume a: "goalAttempts st' k = Some n"
    show "n \<le> maxAttempts"
    proof (cases "k = ?k")
      case True
      then have "n = ?n" using a ga by simp
      then show ?thesis using lim by simp
    next
      case False
      then have "goalAttempts st k = Some n" using a ga by simp
      then show ?thesis using inv unfolding attemptsBounded_def by blast
    qed
  next
    fix k n assume a: "goalAttempts st' k = Some n \<and> maxAttempts \<le> n"
    show "\<exists>u \<in> set (unreachableGoals st'). goalKeyOf (fst u) (snd u) = k"
    proof (cases "k = ?k")
      case True
      then have "n = ?n" using a ga by simp
      then have "?n \<ge> maxAttempts" using a by simp
      then show ?thesis using ug True by simp
    next
      case False
      then have "goalAttempts st k = Some n" using a ga by simp
      then obtain u where "u \<in> set (unreachableGoals st)" "goalKeyOf (fst u) (snd u) = k"
        using a inv unfolding attemptsBounded_def by blast
      then show ?thesis using ug by auto
    qed
  next
    assume "isWaitingForArrival st'"
    then show "case currentGoal st' of None \<Rightarrow> True | Some goal \<Rightarrow> farFromBlacklist st' goal"
      using nw by simp
  qed
qed

lemma goalStep_kept: "bookkeepingKept st st' \<Longrightarrow> sameBooks st st' \<and> goalStep st st'"
  by (auto simp: bookkeepingKept_def goalStep_def)

lemma sameBooks_trans: "sameBooks a b \<Longrightarrow> sameBooks b c \<Longrightarrow> sameBooks a c"
  by (simp add: sameBooks_def)

lemma explorationStep_effect:
  assumes "explorationStep now st = Inr st'"
  shows "sameBooks st st' \<and> goalStep st st'"
proof (cases "\<not> isExploring st \<or> isPaused st \<or> (isWaitingForArrival st \<and> \<not> isPreparingNextGoal st)")
  case True
  then have "st' = st" using assms by (auto simp: explorationStep_def split: if_splits)
  then show ?thesis by (simp add: sameBooks_def goalStep_def)
next
  case False
  define st1 where "st1 = (if isPreparingNextGoal st then st\<lparr>isWaitingForArrival := False\<rparr> else st)"
  have k1: "bookkeepingKept st st1"
    by (simp add: st1_def bookkeepingKept_def sameBooks_def)
  have nw1: "\<not> isWaitingForArrival st1" using False by (auto simp: st1_def)
  have stop: "sameBooks st st' \<and> goalStep st st'"
    if s: "stopExploration now st2 = Inr st'" and k2: "bookkeepingKept st st2" for st2
  proof -
    from stopExploration_kept[OF s] have "bookkeepingKept st2 st'" by simp
    with k2 have "bookkeepingKept st st'" by (rule bookkeepingKept_trans)
    then show ?thesis by (rule goalStep_kept)
  qed
  consider
      (stopped) st2 where "stopExploration now st2 = Inr st'" "bookkeepingKept st st2"
    | (planned) pos nextGoal st3 st4 where
        "selectBestFrontier (st1\<lparr>frontiers := detectFrontiers st1 pos\<rparr>)
           (detectFrontiers st1 pos) pos = Inr (Some nextGoal, st3)"
        "publishExplorationMission nextGoal now
           (st3\<lparr>currentGoal := Some nextGoal, isWaitingForArrival := True,
                 isPreparingNextGoal := False, missionStartTime := Some now\<rparr>) = Inr st4"
        "publishExplorationStatus st4 = Inr st'"
  proof -
    have body: "explorationStep now st =
       (let elapsed = real_of_int (now - (case startTime st1 of None \<Rightarrow> 0 | Some t \<Rightarrow> t)) / 1000
        in if elapsed > maxDuration (config st1) then stopExploration now st1
           else (case (currentPos st1, startPos st1) of
                   (Some pos, Some home) \<Rightarrow>
                     (let distance = hypot (vec_x pos - vec_x home) (vec_y pos - vec_y home)
                      in if distance > maxDistance (config st1) then stopExploration now st1
                         else (let st2 = st1\<lparr>frontiers := detectFrontiers st1 pos\<rparr>
                               in if frontiers st2 = [] then stopExploration now st2
                                  else (case selectBestFrontier st2 (frontiers st2) pos of
                                          Inl e \<Rightarrow> Inl e
                                        | Inr (None, st3) \<Rightarrow> stopExploration now st3
                                        | Inr (Some nextGoal, st3) \<Rightarrow>
                                            (case publishExplorationMission nextGoal now
                                                    (st3\<lparr>currentGoal := Some nextGoal,
                                                          isWaitingForArrival := True,
                                                          isPreparingNextGoal := False,
                                                          missionStartTime := Some now\<rparr>) of
                                               Inl e \<Rightarrow> Inl e
                                             | Inr st4 \<Rightarrow> publishExplorationStatus st4))))
                 | _ \<Rightarrow> Inl TypeError))"
      using False unfolding explorationStep_def st1_def Let_def by auto
    show ?thesis
    proof (cases "real_of_int (now - (case startTime st1 of None \<Rightarrow> 0 | Some t \<Rightarrow> t)) / 1000
                    > maxDuration (config st1)")
      case True
      then have "stopExploration now st1 = Inr st'" using assms body by (simp add: Let_def)
      then show ?thesis using k1 stopped by blast
    next
      case notime: False
      from assms body notime obtain pos home where
        p: "currentPos st1 = Some pos" "startPos st1 = Some home"
        by (auto simp: Let_def split: option.splits)
      show ?thesis
      proof (cases "hypot (vec_x pos - vec_x home) (vec_y pos - vec_y home) > maxDistance (config st1)")
        case True
        then have "stopExploration now st1 = Inr st'" using assms body notime p by (simp add: Let_def)
        then show ?thesis using k1 stopped by blast
      next
        case near: False
        define st2 where "st2 = st1\<lparr>frontiers := detectFrontiers st1 pos\<rparr>"
        have k2: "bookkeepingKept st st2"
          using k1 by (simp add: st2_def bookkeepingKept_def sameBooks_def)
        show ?thesis
        proof (cases "frontiers st2 = []")
          case True
          then have "stopExploration now st2 = Inr st'"
            using assms body notime p near by (simp add: Let_def st2_def)
          then show ?thesis using k2 stopped by blast
        next
          case nonempty: False
          have sel: "(case selectBestFrontier st2 (frontiers st2) pos of
                                          Inl e \<Rightarrow> Inl e
                                        | Inr (None, st3) \<Rightarrow> stopExploration now st3
                                        | Inr (Some nextGoal, st3) \<Rightarrow>
                                            (case publishExplorationMission nextGoal now
                                                    (st3\<lparr>currentGoal := Some nextGoal,
                                                          isWaitingForArrival := True,
                                                          isPreparingNextGoal := False,
                                                          missionStartTime := Some now\<rparr>) of
                                               Inl e \<Rightarrow> Inl e
                                             | Inr st4 \<Rightarrow> publishExplorationStatus st4)) = Inr st'"
            using assms body notime p near nonempty by (simp add: Let_def st2_def)
          then obtain r st3 where r: "selectBestFrontier st2 (frontiers st2) pos = Inr (r, st3)"
            by (cases "selectBestFrontier st2 (frontiers st2) pos") auto
          show ?thesis
          proof (cases r)
            case None
            then have s: "stopExploration now st3 = Inr st'" using sel r by simp
            from selectBestFrontier_cases[OF r] None have "st3 = st2" by auto
            then show ?thesis using s k2 stopped by blast
          next
            case (Some nextGoal)
            then obtain st4 where
              "publishExplorationMission nextGoal now
                 (st3\<lparr>currentGoal := Some nextGoal, isWaitingForArrival := True,
                       isPreparingNextGoal := False, missionStartTime := Some now\<rparr>) = Inr st4"
              "publishExplorationStatus st4 = Inr st'"
              using sel r by (auto split: sum.splits)
            moreover have "selectBestFrontier (st1\<lparr>frontiers := detectFrontiers st1 pos\<rparr>)
                (detectFrontiers st1 pos) pos = Inr (Some nextGoal, st3)"
              using r Some by (simp add: st2_def)
            ultimately show ?thesis using planned by blast
          qed
        qed
      qed
    qed
  qed
  then show ?thesis
  proof cases
    case stopped
    then show ?thesis using stop by blast
  next
    case planned
    let ?st2 = "st1\<lparr>frontiers := detectFrontiers st1 pos\<rparr>"
    have k2: "sameBooks st ?st2" using k1 by (simp add: bookkeepingKept_def sameBooks_def)
    from selectBestFrontier_cases[OF planned(1)] obtain direction where
      st3: "st3 = ?st2\<lparr>lastGoalDirection := direction\<rparr>" by auto
    have far: "farFromBlacklist st nextGoal"
      using selected_goal_far_from_unreachable[OF planned(1)] k2
      by (simp add: farFromBlacklist_def list_all_iff sameBooks_def)
    note m = publishExplorationMission_kept[OF planned(2)]
    have st': "st' = emit EmitStatus st4" using planned(3) by (rule publishExplorationStatus_kept)
    have "sameBooks st st'"
      using k2 m st3 st' by (simp add: sameBooks_def emit_def)
    moreover have "currentGoal st' = Some nextGoal" using m st' by (simp add: emit_def)
    ultimately show ?thesis using far by (simp add: goalStep_def)
  qed
qed

lemma resumeExploration_effect:
  assumes "resumeExploration now st = Inr st'"
  shows "sameBooks st st' \<and> goalStep st st'"
proof (cases "isExploring st")
  case False
  then have "st' = st" using assms by (simp add: resumeExploration_def)
  then show ?thesis by (simp add: sameBooks_def goalStep_def)
next
  case True
  let ?st1 = "emit EmitResumed (st\<lparr>isPaused := False, isWaitingForArrival := False\<rparr>)"
  have "explorationStep now ?st1 = Inr st'" using assms True by (simp add: resumeExploration_def)
  from explorationStep_effect[OF this] show ?thesis
    by (auto simp: sameBooks_def goalStep_def emit_def farFromBlacklist_def split: option.splits)
qed

lemma planAfterCloud_effect:
  assumes "planAfterCloud now st = Inr st'"
  shows "sameBooks st st' \<and> goalStep st st'"
proof (cases "isExploring st \<and> \<not> isPaused st \<and> \<not> isWaitingForArrival st \<and>
              now - lastUpdateTime st > updateInterval (config st)")
  case False
  then have "st' = st" using assms by (auto simp: planAfterCloud_def split: if_splits)
  then show ?thesis by (simp add: sameBooks_def goalStep_def)
next
  case True
  then obtain st1 where s: "explorationStep now st = Inr st1" and e: "st' = st1\<lparr>lastUpdateTime := now\<rparr>"
    using assms by (auto simp: planAfterCloud_def split: sum.splits)
  from explorationStep_effect[OF s] show ?thesis using e
    by (auto simp: sameBooks_def goalStep_def farFromBlacklist_def split: option.splits)
qed

lemma publishStatusPeriodically_kept:
  assumes "publishStatusPeriodically now st = Inr st'"
  shows "bookkeepingKept st st' \<and> isWaitingForArrival st' = isWaitingForArrival st \<and>
         currentGoal st' = currentGoal st \<and> missionStartTime st' = missionStartTime st \<and>
         isExploring st' = isExploring st \<and> isPaused st' = isPaused st"
  using assms
  by (auto simp: publishStatusPeriodically_def publishExplorationStatus_def emit_def
                 bookkeepingKept_def sameBooks_def split: if_splits sum.splits)

lemma calculateSceneBounds_kept:
  "bookkeepingKept st (calculateSceneBounds points st) \<and>
   isWaitingForArrival (calculateSceneBounds points st) = isWaitingForArrival st \<and>
   currentGoal (calculateSceneBounds points st) = currentGoal st \<and>
   missionStartTime (calculateSceneBounds points st) = missionStartTime st \<and>
   currentPos (calculateSceneBounds points st) = currentPos st \<and>
   startPos (calculateSceneBounds points st) = startPos st \<and>
   isExploring (calculateSceneBounds points st) = isExploring st \<and>
   isPaused (calculateSceneBounds points st) = isPaused st"
  by (cases points) (simp_all add: bookkeepingKept_def sameBooks_def Let_def)

lemma publishStatusPeriodically_returns:
  "currentPos st \<noteq> None \<Longrightarrow> \<exists>st'. publishStatusPeriodically now st = Inr st'"
  by (cases "currentPos st") (simp_all add: publishStatusPeriodically_def publishExplorationStatus_def)

text \<open>The state in which the arrival-timeout block of a cloud event runs.\<close>

lemma onPointCloudReceived_structure:
  assumes "currentPos st = Some pos" "points \<noteq> []"
  shows "\<exists>st3. onPointCloudReceived points now st = planAfterCloud now (checkArrivalTimeout now st3) \<and>
           bookkeepingKept st st3 \<and> isWaitingForArrival st3 = isWaitingForArrival st \<and>
           currentGoal st3 = currentGoal st \<and> missionStartTime st3 = missionStartTime st \<and>
           isExploring st3 = isExploring st \<and> isPaused st3 = isPaused st"
proof -
  define st1 where "st1 = (if sceneBounds st = None \<and> length points > 100
                           then calculateSceneBounds points st else st)"
  define st2 where "st2 = st1\<lparr>grid := updateMapFromPointCloud points pos (grid st1)\<rparr>"
  have k1: "bookkeepingKept st st1 \<and> isWaitingForArrival st1 = isWaitingForArrival st \<and>
         currentGoal st1 = currentGoal st \<and> missionStartTime st1 = missionStartTime st \<and>
         currentPos st1 = currentPos st \<and> startPos st1 = startPos st \<and>
         isExploring st1 = isExploring st \<and> isPaused st1 = isPaused st"
    using calculateSceneBounds_kept[of st points] by (simp add: st1_def bookkeepingKept_refl)
  have k2: "bookkeepingKept st st2 \<and> isWaitingForArrival st2 = isWaitingForArrival st \<and>
         currentGoal st2 = currentGoal st \<and> missionStartTime st2 = missionStartTime st \<and>
         currentPos st2 = currentPos st \<and>
         isExploring st2 = isExploring st \<and> isPaused st2 = isPaused st"
    using k1 by (simp add: st2_def bookkeepingKept_def sameBooks_def)
  have "currentPos st2 \<noteq> None" using k2 assms by simp
  then obtain st3 where p: "publishStatusPeriodically now st2 = Inr st3"
    using publishStatusPeriodically_returns by blast
  have eq: "onPointCloudReceived points now st = planAfterCloud now (checkArrivalTimeout now st3)"
    using assms p by (simp add: onPointCloudReceived_def st1_def st2_def Let_def)
  from publishStatusPeriodically_kept[OF p] k2 have
    "bookkeepingKept st st3 \<and> isWaitingForArrival st3 = isWaitingForArrival st \<and>
           currentGoal st3 = currentGoal st \<and> missionStartTime st3 = missionStartTime st \<and>
           isExploring st3 = isExploring st \<and> isPaused st3 = isPaused st"
    using bookkeepingKept_trans by auto
  with eq show ?thesis by blast
qed

lemma attemptsBounded_checkArrivalTimeout:
  assumes "attemptsBounded st"
  shows "attemptsBounded (checkArrivalTimeout now st)"
proof (cases "isWaitingForArrival st \<and> truthyTime (missionStartTime st) \<and>
              now - (case missionStartTime st of None \<Rightarrow> 0 | Some t \<Rightarrow> t) > arrivalTimeout")
  case False
  then have "checkArrivalTimeout now st = st"
    by (auto simp: checkArrivalTimeout_def Let_def)
  then show ?thesis using assms by simp
next
  case True
  then have e: "checkArrivalTimeout now st =
      (recordFailedAttempt st)\<lparr>isWaitingForArrival := False, currentGoal := None,
                                missionStartTime := None\<rparr>"
    by (simp add: checkArrivalTimeout_def Let_def)
  show ?thesis unfolding e
    by (rule attemptsBounded_failed[OF assms]) (use True in simp_all)
qed

lemma attemptsBounded_onPointCloudReceived:
  assumes "attemptsBounded st" "onPointCloudReceived points now st = Inr st'"
  shows "attemptsBounded st'"
proof (cases "currentPos st = None \<or> points = []")
  case True
  then have "st' = st" using assms(2) by (auto simp: onPointCloudReceived_def split: option.splits)
  then show ?thesis using assms(1) by simp
next
  case False
  then obtain pos where "currentPos st = Some pos" "points \<noteq> []" by auto
  from onPointCloudReceived_structure[OF this, of now] obtain st3 where
    e: "onPointCloudReceived points now st = planAfterCloud now (checkArrivalTimeout now st3)"
    and k: "bookkeepingKept st st3" by blast
  have "attemptsBounded st3" using assms(1) k by (rule attemptsBounded_kept)
  then have a: "attemptsBounded (checkArrivalTimeout now st3)"
    by (rule attemptsBounded_checkArrivalTimeout)
  have "planAfterCloud now (checkArrivalTimeout now st3) = Inr st'" using e assms(2) by simp
  from planAfterCloud_effect[OF this] show ?thesis
    using a attemptsBounded_goalStep by blast
qed

lemma checkReturnHome_kept:
  "bookkeepingKept st (checkReturnHome pos st) \<and>
   isWaitingForArrival (checkReturnHome pos st) = isWaitingForArrival st \<and>
   currentGoal (checkReturnHome pos st) = currentGoal st \<and>
   lastVelocityCheck (checkReturnHome pos st) = lastVelocityCheck st \<and>
   stuckStartTime (checkReturnHome pos st) = stuckStartTime st \<and>
   isExploring (checkReturnHome pos st) = isExploring st"
  by (cases "startPos st")
     (simp_all add: checkReturnHome_def bookkeepingKept_def sameBooks_def emit_def Let_def)

lemma recordFailedAttempt_fields:
  "isWaitingForArrival (recordFailedAttempt st) = isWaitingForArrival st"
  "currentGoal (recordFailedAttempt st) = currentGoal st"
  "visitedGoals (recordFailedAttempt st) = visitedGoals st"
  "isExploring (recordFailedAttempt st) = isExploring st"
  "isReturningHome (recordFailedAttempt st) = isReturningHome st"
  by (cases "currentGoal st"; simp add: recordFailedAttempt_def Let_def)+

lemma stuckDetection_fired:
  "fst (stuckDetection newPos now st) = stuckFires newPos now st"
  by (auto simp: stuckDetection_def stuckFires_def Let_def split: option.splits prod.splits)

lemma stuckDetection_result:
  "snd (stuckDetection newPos now st) =
     (if stuckFires newPos now st
      then (recordFailedAttempt st)\<lparr>isWaitingForArrival := False, currentGoal := None,
             missionStartTime := None, stuckStartTime := None, lastVelocityCheck := None\<rparr>
      else st\<lparr>stuckStartTime := stuckStartTime (snd (stuckDetection newPos now st))\<rparr>)"
  by (auto simp: stuckDetection_def stuckFires_def Let_def split: option.splits prod.splits)

lemma arrivalCheck_arrived:
  assumes "hypot (vec_x newPos - goal_x goal) (vec_y newPos - goal_y goal) < 0.3"
  shows "visitedGoals (arrivalCheck newPos now goal st) = visitedGoals st @ [(goal_x goal, goal_y goal)]"
    "goalAttempts (arrivalCheck newPos now goal st) =
       (goalAttempts st)(goalKeyOf (goal_x goal) (goal_y goal) := None)"
    "unreachableGoals (arrivalCheck newPos now goal st) = unreachableGoals st"
    "\<not> isWaitingForArrival (arrivalCheck newPos now goal st)"
    "currentGoal (arrivalCheck newPos now goal st) = None"
  using assms by (simp_all add: arrivalCheck_def Let_def)

lemma arrivalCheck_not_arrived:
  assumes "\<not> hypot (vec_x newPos - goal_x goal) (vec_y newPos - goal_y goal) < 0.3"
  shows "sameBooks st (arrivalCheck newPos now goal st)"
    "isWaitingForArrival (arrivalCheck newPos now goal st) = isWaitingForArrival st"
    "currentGoal (arrivalCheck newPos now goal st) = currentGoal st"
  using assms by (simp_all add: arrivalCheck_def Let_def sameBooks_def)

lemma attemptsBounded_arrivalCheck:
  assumes "attemptsBounded st"
  shows "attemptsBounded (arrivalCheck newPos now goal st)"
proof (cases "hypot (vec_x newPos - goal_x goal) (vec_y newPos - goal_y goal) < 0.3")
  case True
  note a = arrivalCheck_arrived[OF True, where now = now and st = st]
  show ?thesis
    unfolding attemptsBounded_def a
    using assms unfolding attemptsBounded_def
    by (auto split: if_splits)
next
  case False
  note a = arrivalCheck_not_arrived[OF False, where now = now and st = st]
  have "bookkeepingKept st (arrivalCheck newPos now goal st)"
    using a by (simp add: bookkeepingKept_def)
  with assms show ?thesis by (rule attemptsBounded_kept)
qed

lemma attemptsBounded_currentPos:
  "attemptsBounded st \<Longrightarrow> attemptsBounded (st\<lparr>currentPos := p\<rparr>)"
  by (erule attemptsBounded_kept) (simp add: bookkeepingKept_def sameBooks_def)

lemma attemptsBounded_stuckStartTime:
  "attemptsBounded st \<Longrightarrow> attemptsBounded (st\<lparr>stuckStartTime := s\<rparr>)"
  by (erule attemptsBounded_kept) (simp add: bookkeepingKept_def sameBooks_def)

lemma attemptsBounded_onOdometryReceived:
  assumes "attemptsBounded st"
  shows "attemptsBounded (onOdometryReceived position now st)"
proof (cases position)
  case None
  then show ?thesis using assms by (simp add: onOdometryReceived_def)
next
  case (Some newPos)
  define st1 where "st1 = checkReturnHome newPos st"
  have b1: "attemptsBounded st1"
    using assms checkReturnHome_kept[of st newPos] attemptsBounded_kept
    unfolding st1_def by blast
  show ?thesis
  proof (cases "if isWaitingForArrival st1 then currentGoal st1 else None")
    case None
    then show ?thesis
      using b1 Some by (simp add: onOdometryReceived_def Let_def st1_def[symmetric]
          attemptsBounded_currentPos)
  next
    case (Some goal)
    then have w: "isWaitingForArrival st1" by (simp split: if_splits)
    obtain fired st2 where sd: "stuckDetection newPos now st1 = (fired, st2)"
      by (cases "stuckDetection newPos now st1")
    have res: "onOdometryReceived position now st =
        (if fired then st2 else (arrivalCheck newPos now goal st2)\<lparr>currentPos := Some newPos\<rparr>)"
      using \<open>position = Some newPos\<close> Some sd
      by (simp add: onOdometryReceived_def Let_def st1_def[symmetric])
    show ?thesis
    proof (cases fired)
      case True
      then have f: "stuckFires newPos now st1" using sd stuckDetection_fired[of newPos now st1] by simp
      have "st2 = (recordFailedAttempt st1)\<lparr>isWaitingForArrival := False, currentGoal := None,
             missionStartTime := None, stuckStartTime := None, lastVelocityCheck := None\<rparr>"
        using sd stuckDetection_result[of newPos now st1] f by simp
      then have "attemptsBounded st2"
        by (intro attemptsBounded_failed[OF b1 w]) simp_all
      then show ?thesis using res True by simp
    next
      case False
      then have f: "\<not> stuckFires newPos now st1" using sd stuckDetection_fired[of newPos now st1] by simp
      have "st2 = st1\<lparr>stuckStartTime := stuckStartTime st2\<rparr>"
        using sd stuckDetection_result[of newPos now st1] f by simp
      then have "attemptsBounded st2" using b1 attemptsBounded_stuckStartTime by metis
      then have "attemptsBounded (arrivalCheck newPos now goal st2)"
        by (rule attemptsBounded_arrivalCheck)
      then show ?thesis using res False by (simp add: attemptsBounded_currentPos)
    qed
  qed
qed

lemma attemptsBounded_fields:
  assumes "attemptsBounded st"
    "goalAttempts st' = goalAttempts st" "unreachableGoals st' = unreachableGoals st"
    "isWaitingForArrival st' \<longrightarrow> isWaitingForArrival st \<and> currentGoal st' = currentGoal st"
  shows "attemptsBounded st'"
  using assms
  by (auto simp: attemptsBounded_def farFromBlacklist_def split: option.splits)

lemma startExploration_effect:
  "goalAttempts (startExploration opts now st) = goalAttempts st \<and>
   unreachableGoals (startExploration opts now st) = unreachableGoals st \<and>
   (visitedGoals (startExploration opts now st) = visitedGoals st \<or>
    visitedGoals (startExploration opts now st) = []) \<and>
   (isWaitingForArrival (startExploration opts now st) \<longrightarrow>
      isWaitingForArrival st \<and> currentGoal (startExploration opts now st) = currentGoal st) \<and>
   isReturningHome (startExploration opts now st) = isReturningHome st \<and>
   isExploring (startExploration opts now st) = isExploring st"
  by (cases "opt_startPosition opts"; cases "currentPos st")
     (simp_all add: startExploration_def Let_def emit_def)

lemma attemptsBounded_startExploration:
  assumes "attemptsBounded st"
  shows "attemptsBounded (startExploration opts now st)"
  using startExploration_effect[of opts now st]
  by (intro attemptsBounded_fields[OF assms]) simp_all

lemma startExplorationResumed_kept:
  assumes "startExplorationResumed st = Inr st'"
  shows "bookkeepingKept st st' \<and> isReturningHome st' = isReturningHome st"
  using assms
  by (auto simp: startExplorationResumed_def Let_def emit_def bookkeepingKept_def sameBooks_def
           split: if_splits option.splits)

lemma pauseExploration_kept: "bookkeepingKept st (pauseExploration st)"
  by (simp add: pauseExploration_def emit_def bookkeepingKept_def sameBooks_def)

lemma setROI_kept: "bookkeepingKept st (setROI polygon st)"
  by (simp add: setROI_def bookkeepingKept_def sameBooks_def)

lemma clearROI_kept: "bookkeepingKept st (clearROI st)"
  by (simp add: clearROI_def bookkeepingKept_def sameBooks_def)

lemma setScoringWeights_kept: "bookkeepingKept st (snd (setScoringWeights weights st))"
  by (simp add: setScoringWeights_def Let_def bookkeepingKept_def sameBooks_def)

lemma resetEngine_effect:
  assumes "resetEngine now st = Inr st'"
  shows "\<exists>st1. stopExploration now st = Inr st1 \<and>
           st' = st1\<lparr>grid := reset (grid st1), frontiers := [], visitedGoals := []\<rparr>"
  using assms by (auto simp: resetEngine_def split: sum.splits)

lemma attemptsBounded_resetEngine:
  assumes "attemptsBounded st" "resetEngine now st = Inr st'"
  shows "attemptsBounded st'"
proof -
  from resetEngine_effect[OF assms(2)] obtain st1 where
    s: "stopExploration now st = Inr st1"
    and e: "st' = st1\<lparr>grid := reset (grid st1), frontiers := [], visitedGoals := []\<rparr>" by blast
  from stopExploration_kept[OF s] have "attemptsBounded st1"
    using assms(1) attemptsBounded_kept by blast
  then show ?thesis unfolding e by (rule attemptsBounded_fields) simp_all
qed

lemma attemptsBounded_handle:
  assumes "attemptsBounded st" "handle event st = Inr st'"
  shows "attemptsBounded st'"
proof (cases event)
  case (PointCloud points now)
  then show ?thesis using assms attemptsBounded_onPointCloudReceived by simp
next
  case (Odometry position now)
  then show ?thesis using assms attemptsBounded_onOdometryReceived by auto
next
  case (StartExploration opts now)
  then show ?thesis using assms attemptsBounded_startExploration by auto
next
  case StartExplorationResumed
  then show ?thesis using assms startExplorationResumed_kept attemptsBounded_kept by auto
next
  case PauseExploration
  then show ?thesis using assms pauseExploration_kept attemptsBounded_kept by auto
next
  case (ResumeExploration now)
  then have "resumeExploration now st = Inr st'" using assms by simp
  from resumeExploration_effect[OF this] show ?thesis
    using assms(1) attemptsBounded_goalStep by blast
next
  case (StopExploration now)
  then have "stopExploration now st = Inr st'" using assms by simp
  from stopExploration_kept[OF this] show ?thesis using assms(1) attemptsBounded_kept by blast
next
  case (ReturnToHome now)
  then have "returnToHome now st = Inr st'" using assms by simp
  from returnToHome_kept[OF this] show ?thesis using assms(1) attemptsBounded_kept by blast
next
  case (ExplorationStepTimer now)
  then have "explorationStep now st = Inr st'" using assms by simp
  from explorationStep_effect[OF this] show ?thesis
    using assms(1) attemptsBounded_goalStep by blast
next
  case (Reset now)
  then show ?thesis using assms attemptsBounded_resetEngine by simp
next
  case (SetROI polygon)
  then show ?thesis using assms setROI_kept attemptsBounded_kept by auto
next
  case ClearROI
  then show ?thesis using assms clearROI_kept attemptsBounded_kept by auto
next
  case (SetScoringWeights weights)
  then show ?thesis using assms setScoringWeights_kept attemptsBounded_kept by auto
qed

lemma attemptsBounded_run:
  assumes "attemptsBounded st" "run events st = Inr st'"
  shows "attemptsBounded st'"
  using assms
proof (induction events arbitrary: st)
  case Nil
  then show ?case by simp
next
  case (Cons event rest)
  then obtain st1 where h: "handle event st = Inr st1" and r: "run rest st1 = Inr st'"
    by (auto split: sum.splits)
  from attemptsBounded_handle[OF Cons.prems(1) h] have "attemptsBounded st1" .
  from Cons.IH[OF this r] show ?case .
qed

lemma attemptsBounded_newEngine: "attemptsBounded newEngine"
  by (simp add: attemptsBounded_def newEngine_def)

text \<open>The flags after each handler of the life cycle.\<close>

lemma returnToHome_flags:
  assumes "startPos st = Some home" "currentPos st = Some pos"
  shows "\<exists>st'. returnToHome now st = Inr st' \<and> isReturningHome st' \<and>
           isExploring st' = isExploring st \<and> pendingStarts st' = pendingStarts st \<and>
           startPos st' = startPos st \<and> currentPos st' = currentPos st \<and>
           isWaitingForArrival st' = isWaitingForArrival st"
proof -
  obtain b where "isPathClear (grid st) (vec_x pos, vec_y pos) (vec_x home, vec_y home) = Inr b"
    using isPathClear_returns by blast
  then show ?thesis using assms by (simp add: returnToHome_def Let_def emit_def)
qed

lemma stopExploration_flags:
  assumes "stopExploration now st = Inr st'"
  shows "\<not> isExploring st' \<and>
         (isReturningHome st' \<longleftrightarrow> isReturningHome st \<or> (isExploring st \<and> farFromHome st)) \<and>
         pendingStarts st' = pendingStarts st \<and> startPos st' = startPos st \<and>
         currentPos st' = currentPos st"
proof (cases "isExploring st")
  case False
  then show ?thesis using assms by (simp add: stopExploration_def)
next
  case True
  let ?st1 = "st\<lparr>isExploring := False, isPaused := False, isWaitingForArrival := False\<rparr>"
  show ?thesis
  proof (cases "farFromHome st")
    case False
    then have "st' = emit EmitStopped ?st1"
      using assms True
      by (auto simp: stopExploration_def farFromHome_def Let_def split: option.splits if_splits)
    then show ?thesis using False True by (simp add: emit_def)
  next
    case far: True
    then obtain home pos where p: "startPos st = Some home" "currentPos st = Some pos"
      by (auto simp: farFromHome_def split: option.splits)
    then have r: "returnToHome now ?st1 = Inr st'"
      using assms True far by (simp add: stopExploration_def farFromHome_def Let_def)
    from returnToHome_flags[of ?st1 home pos now] p obtain st2 where
      "returnToHome now ?st1 = Inr st2" "isReturningHome st2"
      "isExploring st2 = isExploring ?st1" "pendingStarts st2 = pendingStarts ?st1"
      "startPos st2 = startPos ?st1" "currentPos st2 = currentPos ?st1"
      by auto
    then show ?thesis using r True far by simp
  qed
qed

lemma stopExploration_returns:
  assumes "isExploring st \<longrightarrow> currentPos st \<noteq> None"
  shows "\<exists>st'. stopExploration now st = Inr st'"
proof (cases "isExploring st")
  case False
  then show ?thesis by (simp add: stopExploration_def)
next
  case True
  then obtain pos where p: "currentPos st = Some pos" using assms by auto
  let ?st1 = "st\<lparr>isExploring := False, isPaused := False, isWaitingForArrival := False\<rparr>"
  show ?thesis
  proof (cases "startPos st")
    case None
    then show ?thesis using True by (simp add: stopExploration_def)
  next
    case (Some home)
    from returnToHome_flags[of ?st1 home pos now] Some p
    obtain st2 where "returnToHome now ?st1 = Inr st2" by auto
    then show ?thesis using True Some p by (simp add: stopExploration_def Let_def)
  qed
qed

text \<open>
  The waiting state across the planning step, and the handlers that always return.
\<close>

lemma returnToHome_waiting:
  assumes "returnToHome now st = Inr st'"
  shows "isWaitingForArrival st' = isWaitingForArrival st \<and> currentGoal st' = currentGoal st \<and>
         missionStartTime st' = missionStartTime st"
  using assms
  by (auto simp: returnToHome_def Let_def emit_def split: option.splits sum.splits)

lemma stopExploration_waiting:
  assumes "stopExploration now st = Inr st'" "\<not> isWaitingForArrival st"
  shows "\<not> isWaitingForArrival st' \<and> currentGoal st' = currentGoal st \<and>
         missionStartTime st' = missionStartTime st"
proof (cases "isExploring st")
  case False
  then show ?thesis using assms by (simp add: stopExploration_def)
next
  case True
  let ?st1 = "st\<lparr>isExploring := False, isPaused := False, isWaitingForArrival := False\<rparr>"
  have "(st' = emit EmitStopped ?st1) \<or> returnToHome now ?st1 = Inr st'"
    using assms True by (auto simp: stopExploration_def Let_def split: option.splits if_splits)
  then show ?thesis
  proof
    assume "st' = emit EmitStopped ?st1"
    then show ?thesis by (simp add: emit_def)
  next
    assume "returnToHome now ?st1 = Inr st'"
    from returnToHome_waiting[OF this] show ?thesis by simp
  qed
qed

lemma publishExplorationMission_waiting:
  assumes "publishExplorationMission goal now st = Inr st'"
  shows "isWaitingForArrival st' = isWaitingForArrival st \<and> currentGoal st' = currentGoal st \<and>
         missionStartTime st' = missionStartTime st"
  using assms
  by (auto simp: publishExplorationMission_def Let_def emit_def split: option.splits)

lemma selectBestFrontier_waiting:
  assumes "selectBestFrontier st frontierList pos = Inr (result, st')"
  shows "isWaitingForArrival st' = isWaitingForArrival st \<and> currentGoal st' = currentGoal st \<and>
         missionStartTime st' = missionStartTime st"
  using selectBestFrontier_cases[OF assms] by auto

lemma explorationStep_waiting:
  assumes "explorationStep now st = Inr st'" "\<not> isWaitingForArrival st"
  shows "(\<not> isWaitingForArrival st' \<and> currentGoal st' = currentGoal st \<and>
          missionStartTime st' = missionStartTime st) \<or> waitingRenewed now st'"
proof (cases "\<not> isExploring st \<or> isPaused st")
  case True
  then have "st' = st" using assms by (auto simp: explorationStep_def split: if_splits)
  then show ?thesis using assms(2) by simp
next
  case False
  define st1 where "st1 = (if isPreparingNextGoal st then st\<lparr>isWaitingForArrival := False\<rparr> else st)"
  have f1: "\<not> isWaitingForArrival st1" "currentGoal st1 = currentGoal st"
    "missionStartTime st1 = missionStartTime st"
    using assms(2) by (simp_all add: st1_def)
  have stop: ?thesis if s: "stopExploration now st2 = Inr st'"
    and k: "\<not> isWaitingForArrival st2" "currentGoal st2 = currentGoal st"
      "missionStartTime st2 = missionStartTime st" for st2
    using stopExploration_waiting[OF s k(1)] k by simp
  have body: "explorationStep now st =
       (let elapsed = real_of_int (now - (case startTime st1 of None \<Rightarrow> 0 | Some t \<Rightarrow> t)) / 1000
        in if elapsed > maxDuration (config st1) then stopExploration now st1
           else (case (currentPos st1, startPos st1) of
                   (Some pos, Some home) \<Rightarrow>
                     (let distance = hypot (vec_x pos - vec_x home) (vec_y pos - vec_y home)
                      in if distance > maxDistance (config st1) then stopExploration now st1
                         else (let st2 = st1\<lparr>frontiers := detectFrontiers st1 pos\<rparr>
                               in if frontiers st2 = [] then stopExploration now st2
                                  else (case selectBestFrontier st2 (frontiers st2) pos of
                                          Inl e \<Rightarrow> Inl e
                                        | Inr (None, st3) \<Rightarrow> stopExploration now st3
                                        | Inr (Some nextGoal, st3) \<Rightarrow>
                                            (case publishExplorationMission nextGoal now
                                                    (st3\<lparr>currentGoal := Some nextGoal,
                                                          isWaitingForArrival := True,
                                                          isPreparingNextGoal := False,
                                                          missionStartTime := Some now\<rparr>) of
                                               Inl e \<Rightarrow> Inl e
                                             | Inr st4 \<Rightarrow> publishExplorationStatus st4))))
                 | _ \<Rightarrow> Inl TypeError))"
    using False assms(2) unfolding explorationStep_def st1_def Let_def by auto
  show ?thesis
  proof (cases "real_of_int (now - (case startTime st1 of None \<Rightarrow> 0 | Some t \<Rightarrow> t)) / 1000
                  > maxDuration (config st1)")
    case True
    then have "stopExploration now st1 = Inr st'" using assms body by (simp add: Let_def)
    then show ?thesis using f1 by (rule stop)
  next
    case notime: False
    from assms body notime obtain pos home where
      p: "currentPos st1 = Some pos" "startPos st1 = Some home"
      by (auto simp: Let_def split: option.splits)
    show ?thesis
    proof (cases "hypot (vec_x pos - vec_x home) (vec_y pos - vec_y home) > maxDistance (config st1)")
      case True
      then have "stopExploration now st1 = Inr st'" using assms body notime p by (simp add: Let_def)
      then show ?thesis using f1 by (rule stop)
    next
      case near: False
      define st2 where "st2 = st1\<lparr>frontiers := detectFrontiers st1 pos\<rparr>"
      have f2: "\<not> isWaitingForArrival st2" "currentGoal st2 = currentGoal st"
        "missionStartTime st2 = missionStartTime st"
        using f1 by (simp_all add: st2_def)
      show ?thesis
      proof (cases "frontiers st2 = []")
        case True
        then have "stopExploration now st2 = Inr st'"
          using assms body notime p near by (simp add: Let_def st2_def)
        then show ?thesis using f2 by (rule stop)
      next
        case nonempty: False
        have sel: "(case selectBestFrontier st2 (frontiers st2) pos of
                      Inl e \<Rightarrow> Inl e
                    | Inr (None, st3) \<Rightarrow> stopExploration now st3
                    | Inr (Some nextGoal, st3) \<Rightarrow>
                        (case publishExplorationMission nextGoal now
                                (st3\<lparr>currentGoal := Some nextGoal,
                                      isWaitingForArrival := True,
                                      isPreparingNextGoal := False,
                                      missionStartTime := Some now\<rparr>) of
                           Inl e \<Rightarrow> Inl e
                         | Inr st4 \<Rightarrow> publishExplorationStatus st4)) = Inr st'"
          using assms body notime p near nonempty by (simp add: Let_def st2_def)
        then obtain r st3 where r: "selectBestFrontier st2 (frontiers st2) pos = Inr (r, st3)"
          by (cases "selectBestFrontier st2 (frontiers st2) pos") auto
        note f3 = selectBestFrontier_waiting[OF r]
        show ?thesis
        proof (cases r)
          case None
          then have s: "stopExploration now st3 = Inr st'" using sel r by simp
          show ?thesis using s by (rule stop) (use f2 f3 in simp_all)
        next
          case (Some nextGoal)
          then obtain st4 where
            m: "publishExplorationMission nextGoal now
               (st3\<lparr>currentGoal := Some nextGoal, isWaitingForArrival := True,
                     isPreparingNextGoal := False, missionStartTime := Some now\<rparr>) = Inr st4"
            and u: "publishExplorationStatus st4 = Inr st'"
            using sel r by (auto split: sum.splits)
          have st': "st' = emit EmitStatus st4" using u by (rule publishExplorationStatus_kept)
          from publishExplorationMission_waiting[OF m] st'
          have "waitingRenewed now st'" by (simp add: waitingRenewed_def emit_def)
          then show ?thesis by simp
        qed
      qed
    qed
  qed
qed

lemma planAfterCloud_waiting:
  assumes "planAfterCloud now st = Inr st'" "waitingCleared st"
  shows "waitingCleared st' \<or> waitingRenewed now st'"
proof (cases "isExploring st \<and> \<not> isPaused st \<and> \<not> isWaitingForArrival st \<and>
              now - lastUpdateTime st > updateInterval (config st)")
  case False
  then have "st' = st" using assms by (auto simp: planAfterCloud_def split: if_splits)
  then show ?thesis using assms(2) by simp
next
  case True
  then obtain st1 where s: "explorationStep now st = Inr st1" and e: "st' = st1\<lparr>lastUpdateTime := now\<rparr>"
    using assms by (auto simp: planAfterCloud_def split: sum.splits)
  from explorationStep_waiting[OF s] assms(2) show ?thesis using e
    by (auto simp: waitingCleared_def waitingRenewed_def)
qed

lemma evaluateFrontier_returns: "\<exists>r. evaluateFrontier st pos frontier = Inr r"
proof -
  obtain b where "isPathClear (grid st) (vec_x pos, vec_y pos) (fr_x frontier, fr_y frontier) = Inr b"
    using isPathClear_returns by blast
  then show ?thesis by (simp add: evaluateFrontier_def Let_def split: option.splits)
qed

lemma selectLoop_returns: "\<exists>r. selectLoop st pos frontierList bestScore bestFrontier = Inr r"
proof (induction frontierList arbitrary: bestScore bestFrontier)
  case Nil
  then show ?case by simp
next
  case (Cons frontier rest)
  obtain r where r: "evaluateFrontier st pos frontier = Inr r"
    using evaluateFrontier_returns by blast
  show ?case
  proof (cases r)
    case None
    then show ?thesis using r Cons by simp
  next
    case (Some sg)
    then show ?thesis using r Cons by (cases sg) simp
  qed
qed

lemma selectBestFrontier_returns:
  "\<exists>result st'. selectBestFrontier st frontierList pos = Inr (result, st')"
proof -
  obtain r where "selectLoop st pos frontierList None None = Inr r"
    using selectLoop_returns by blast
  then show ?thesis by (cases r) (simp_all add: selectBestFrontier_def Let_def)
qed

lemma selectBestFrontier_positions:
  assumes "selectBestFrontier st frontierList pos = Inr (result, st')"
  shows "currentPos st' = currentPos st \<and> startPos st' = startPos st \<and>
         isExploring st' = isExploring st"
  using selectBestFrontier_cases[OF assms] by auto

lemma publishExplorationMission_returns:
  assumes "currentPos st = Some pos"
  shows "\<exists>st'. publishExplorationMission goal now st = Inr st' \<and> currentPos st' = Some pos"
  using assms by (simp add: publishExplorationMission_def Let_def emit_def)

lemma publishExplorationStatus_returns:
  assumes "currentPos st = Some pos"
  shows "\<exists>st'. publishExplorationStatus st = Inr st'"
  using assms by (simp add: publishExplorationStatus_def)

lemma explorationStep_returns:
  assumes "currentPos st = Some pos" "startPos st = Some home"
  shows "\<exists>st'. explorationStep now st = Inr st'"
proof (cases "\<not> isExploring st \<or> isPaused st \<or> (isWaitingForArrival st \<and> \<not> isPreparingNextGoal st)")
  case True
  then show ?thesis by (auto simp: explorationStep_def)
next
  case False
  define st1 where "st1 = (if isPreparingNextGoal st then st\<lparr>isWaitingForArrival := False\<rparr> else st)"
  have p1: "currentPos st1 = Some pos" "startPos st1 = Some home"
    using assms by (simp_all add: st1_def)
  have stop: "\<exists>st'. stopExploration now st2 = Inr st'" if "currentPos st2 = Some pos" for st2
    by (rule stopExploration_returns) (use that in simp)
  define st2 where "st2 = st1\<lparr>frontiers := detectFrontiers st1 pos\<rparr>"
  have p2: "currentPos st2 = Some pos" "startPos st2 = Some home"
    using p1 by (simp_all add: st2_def)
  have body: "explorationStep now st =
       (if real_of_int (now - (case startTime st1 of None \<Rightarrow> 0 | Some t \<Rightarrow> t)) / 1000
             > maxDuration (config st1) then stopExploration now st1
        else if hypot (vec_x pos - vec_x home) (vec_y pos - vec_y home) > maxDistance (config st1)
        then stopExploration now st1
        else if frontiers st2 = [] then stopExploration now st2
        else (case selectBestFrontier st2 (frontiers st2) pos of
                Inl e \<Rightarrow> Inl e
              | Inr (None, st3) \<Rightarrow> stopExploration now st3
              | Inr (Some nextGoal, st3) \<Rightarrow>
                  (case publishExplorationMission nextGoal now
                          (st3\<lparr>currentGoal := Some nextGoal,
                                isWaitingForArrival := True,
                                isPreparingNextGoal := False,
                                missionStartTime := Some now\<rparr>) of
                     Inl e \<Rightarrow> Inl e
                   | Inr st4 \<Rightarrow> publishExplorationStatus st4)))"
    using False p1 unfolding explorationStep_def st1_def[symmetric] st2_def Let_def
    by (auto simp: st1_def)
  obtain r st3 where r: "selectBestFrontier st2 (frontiers st2) pos = Inr (r, st3)"
    using selectBestFrontier_returns by blast
  have p3: "currentPos st3 = Some pos"
    using selectBestFrontier_positions[OF r] p2 by simp
  have sel: "\<exists>st'. (case selectBestFrontier st2 (frontiers st2) pos of
                Inl e \<Rightarrow> Inl e
              | Inr (None, st3) \<Rightarrow> stopExploration now st3
              | Inr (Some nextGoal, st3) \<Rightarrow>
                  (case publishExplorationMission nextGoal now
                          (st3\<lparr>currentGoal := Some nextGoal,
                                isWaitingForArrival := True,
                                isPreparingNextGoal := False,
                                missionStartTime := Some now\<rparr>) of
                     Inl e \<Rightarrow> Inl e
                   | Inr st4 \<Rightarrow> publishExplorationStatus st4)) = Inr st'"
  proof (cases r)
    case None
    then show ?thesis using r stop[OF p3] by simp
  next
    case (Some nextGoal)
    let ?s = "st3\<lparr>currentGoal := Some nextGoal, isWaitingForArrival := True,
                   isPreparingNextGoal := False, missionStartTime := Some now\<rparr>"
    have "currentPos ?s = Some pos" using p3 by simp
    from publishExplorationMission_returns[OF this, of nextGoal now] obtain st4 where
      m: "publishExplorationMission nextGoal now ?s = Inr st4" and p4: "currentPos st4 = Some pos"
      by blast
    from publishExplorationStatus_returns[OF p4] obtain st' where
      "publishExplorationStatus st4 = Inr st'" by blast
    then show ?thesis using r Some m by simp
  qed
  show ?thesis unfolding body using stop[OF p1(1)] stop[OF p2(1)] sel by simp
qed

lemma planAfterCloud_returns:
  assumes "currentPos st = Some pos" "startPos st = Some home"
  shows "\<exists>st'. planAfterCloud now st = Inr st'"
proof -
  obtain st1 where "explorationStep now st = Inr st1"
    using explorationStep_returns[OF assms] by blast
  then show ?thesis by (simp add: planAfterCloud_def)
qed

lemma checkArrivalTimeout_positions:
  "currentPos (checkArrivalTimeout now st) = currentPos st \<and>
   startPos (checkArrivalTimeout now st) = startPos st"
  by (simp add: checkArrivalTimeout_def recordFailedAttempt_def Let_def split: option.splits)

lemma publishStatusPeriodically_positions:
  assumes "publishStatusPeriodically now st = Inr st'"
  shows "currentPos st' = currentPos st \<and> startPos st' = startPos st"
  using assms
  by (auto simp: publishStatusPeriodically_def publishExplorationStatus_def emit_def
           split: if_splits sum.splits)

lemma onPointCloudReceived_returns:
  assumes "currentPos st \<noteq> None \<longrightarrow> startPos st \<noteq> None"
  shows "\<exists>st'. onPointCloudReceived points now st = Inr st'"
proof (cases "currentPos st = None \<or> points = []")
  case True
  then show ?thesis by (auto simp: onPointCloudReceived_def split: option.splits)
next
  case False
  then obtain pos home where p: "currentPos st = Some pos" "startPos st = Some home" "points \<noteq> []"
    using assms by auto
  define st1 where "st1 = (if sceneBounds st = None \<and> length points > 100
                           then calculateSceneBounds points st else st)"
  define st2 where "st2 = st1\<lparr>grid := updateMapFromPointCloud points pos (grid st1)\<rparr>"
  have p1: "currentPos st1 = Some pos" "startPos st1 = Some home"
    using calculateSceneBounds_kept[of st points] p by (simp_all add: st1_def)
  have p2: "currentPos st2 = Some pos" "startPos st2 = Some home"
    using p1 by (simp_all add: st2_def)
  have "currentPos st2 \<noteq> None" using p2 by simp
  then obtain st3 where s: "publishStatusPeriodically now st2 = Inr st3"
    using publishStatusPeriodically_returns by blast
  have eq: "onPointCloudReceived points now st = planAfterCloud now (checkArrivalTimeout now st3)"
    using p s by (simp add: onPointCloudReceived_def st1_def st2_def Let_def)
  have "currentPos (checkArrivalTimeout now st3) = Some pos"
       "startPos (checkArrivalTimeout now st3) = Some home"
    using publishStatusPeriodically_positions[OF s] p2 checkArrivalTimeout_positions[of now st3]
    by simp_all
  from planAfterCloud_returns[OF this] show ?thesis unfolding eq .
qed

section \<open>Failed attempts, visited goals, reset and restart\<close>

lemma attemptRecorded_failed:
  assumes inv: "attemptsBounded st" and w: "isWaitingForArrival st"
    and g: "currentGoal st = Some goal"
    and b: "goalAttempts st' = goalAttempts (recordFailedAttempt st)"
           "unreachableGoals st' = unreachableGoals (recordFailedAttempt st)"
    and c: "\<not> isWaitingForArrival st'" "currentGoal st' = None" "missionStartTime st' = None"
  shows "attemptRecorded st goal st'"
proof -
  let ?k = "goalKeyOf (goal_x goal) (goal_y goal)"
  let ?n = "(case goalAttempts st ?k of None \<Rightarrow> 0 | Some n \<Rightarrow> n) + 1"
  have lim: "?n \<le> maxAttempts"
  proof (cases "goalAttempts st ?k")
    case None
    then show ?thesis by (simp add: maxAttempts_def)
  next
    case (Some n)
    from waiting_goal_below_limit[OF inv w g Some] show ?thesis using Some by simp
  qed
  have eq: "(?n \<ge> maxAttempts) = (?n = maxAttempts)" using lim by auto
  have ga: "goalAttempts st' = (goalAttempts st)(?k \<mapsto> ?n)"
    using b(1) g by (simp add: recordFailedAttempt_def Let_def)
  have ug: "unreachableGoals st' =
     (if ?n = maxAttempts then unreachableGoals st @ [(goal_x goal, goal_y goal)]
      else unreachableGoals st)"
    using b(2) g eq by (simp add: recordFailedAttempt_def Let_def)
  show ?thesis unfolding attemptRecorded_def Let_def using ga ug lim c by simp
qed

lemma attemptRecorded_same_books:
  assumes "attemptRecorded st1 goal st'" "goalAttempts st1 = goalAttempts st"
    "unreachableGoals st1 = unreachableGoals st"
  shows "attemptRecorded st goal st'"
  using assms(1) unfolding attemptRecorded_def assms(2) assms(3) .

lemma cloud_timeout_bookkeeping:
  assumes inv: "attemptsBounded st"
    and c: "currentPos st = Some pos" "points \<noteq> []"
    and w: "isWaitingForArrival st" "currentGoal st = Some goal"
    and t: "missionStartTime st = Some t" "t \<noteq> 0" "now - t > arrivalTimeout"
  shows "\<exists>st3. onPointCloudReceived points now st = planAfterCloud now (checkArrivalTimeout now st3) \<and>
           attemptRecorded st goal (checkArrivalTimeout now st3)"
proof -
  from onPointCloudReceived_structure[OF c, of now] obtain st3 where
    e: "onPointCloudReceived points now st = planAfterCloud now (checkArrivalTimeout now st3)"
    and k: "bookkeepingKept st st3" and f: "isWaitingForArrival st3 = isWaitingForArrival st"
      "currentGoal st3 = currentGoal st" "missionStartTime st3 = missionStartTime st"
    by blast
  have inv3: "attemptsBounded st3" using inv k by (rule attemptsBounded_kept)
  have r: "checkArrivalTimeout now st3 =
      (recordFailedAttempt st3)\<lparr>isWaitingForArrival := False, currentGoal := None,
                                 missionStartTime := None\<rparr>"
    using f w t by (simp add: checkArrivalTimeout_def Let_def truthyTime_def)
  have "attemptRecorded st3 goal (checkArrivalTimeout now st3)"
    unfolding r by (rule attemptRecorded_failed[OF inv3]) (use f w in simp_all)
  moreover have "goalAttempts st3 = goalAttempts st" "unreachableGoals st3 = unreachableGoals st"
    using k by (simp_all add: bookkeepingKept_def sameBooks_def)
  ultimately have "attemptRecorded st goal (checkArrivalTimeout now st3)"
    by (rule attemptRecorded_same_books)
  with e show ?thesis by blast
qed

lemma stuckFires_checkReturnHome:
  "stuckFires pos now (checkReturnHome pos' st) = stuckFires pos now st"
proof -
  have a: "lastVelocityCheck (checkReturnHome pos' st) = lastVelocityCheck st"
    and b: "stuckStartTime (checkReturnHome pos' st) = stuckStartTime st"
    using checkReturnHome_kept[of st pos'] by simp_all
  show ?thesis unfolding stuckFires_def a b ..
qed

lemma stuck_bookkeeping:
  assumes inv: "attemptsBounded st"
    and w: "isWaitingForArrival st" "currentGoal st = Some goal"
    and f: "stuckFires pos now st"
  shows "attemptRecorded st goal (onOdometryReceived (Some pos) now st) \<and>
         stuckStartTime (onOdometryReceived (Some pos) now st) = None \<and>
         lastVelocityCheck (onOdometryReceived (Some pos) now st) = None \<and>
         visitedGoals (onOdometryReceived (Some pos) now st) = visitedGoals st"
proof -
  define st1 where "st1 = checkReturnHome pos st"
  note k = checkReturnHome_kept[of st pos, folded st1_def]
  have inv1: "attemptsBounded st1" using inv k attemptsBounded_kept by blast
  have w1: "isWaitingForArrival st1" "currentGoal st1 = Some goal" using k w by simp_all
  have f1: "stuckFires pos now st1" using f by (simp add: st1_def stuckFires_checkReturnHome)
  define st2 where "st2 = (recordFailedAttempt st1)\<lparr>isWaitingForArrival := False, currentGoal := None,
             missionStartTime := None, stuckStartTime := None, lastVelocityCheck := None\<rparr>"
  have sd: "stuckDetection pos now st1 = (True, st2)"
    using stuckDetection_fired[of pos now st1] stuckDetection_result[of pos now st1] f1
    by (simp add: prod_eq_iff st2_def)
  have res: "onOdometryReceived (Some pos) now st = st2"
    using w1 sd by (simp add: onOdometryReceived_def Let_def st1_def[symmetric])
  have "attemptRecorded st1 goal st2"
    by (rule attemptRecorded_failed[OF inv1 w1]) (simp_all add: st2_def)
  moreover have "goalAttempts st1 = goalAttempts st" "unreachableGoals st1 = unreachableGoals st"
    using k by (simp_all add: bookkeepingKept_def sameBooks_def)
  ultimately have "attemptRecorded st goal st2"
    by (rule attemptRecorded_same_books)
  moreover have "visitedGoals st2 = visitedGoals st"
    using k by (simp add: st2_def recordFailedAttempt_fields bookkeepingKept_def sameBooks_def)
  ultimately show ?thesis unfolding res by (simp add: st2_def)
qed

lemma attemptRecorded_counted:
  "attemptRecorded st goal st' \<longleftrightarrow> attemptCounted st goal st' \<and> waitingCleared st'"
  by (auto simp: attemptRecorded_def attemptCounted_def waitingCleared_def Let_def)

lemma attemptCounted_same_books:
  assumes "attemptCounted st goal s" "sameBooks s st'"
  shows "attemptCounted st goal st'"
  using assms by (simp add: attemptCounted_def sameBooks_def Let_def)

lemma cloud_timeout_returned:
  assumes inv: "attemptsBounded st"
    and c: "currentPos st = Some pos" "points \<noteq> []"
    and w: "isWaitingForArrival st" "currentGoal st = Some goal"
    and t: "missionStartTime st = Some t" "t \<noteq> 0" "now - t > arrivalTimeout"
    and r: "onPointCloudReceived points now st = Inr st'"
  shows "attemptCounted st goal st' \<and> (waitingCleared st' \<or> waitingRenewed now st')"
proof -
  from cloud_timeout_bookkeeping[OF inv c w t] obtain st3 where
    e: "onPointCloudReceived points now st = planAfterCloud now (checkArrivalTimeout now st3)"
    and a: "attemptRecorded st goal (checkArrivalTimeout now st3)" by blast
  have p: "planAfterCloud now (checkArrivalTimeout now st3) = Inr st'" using e r by simp
  from a have ac: "attemptCounted st goal (checkArrivalTimeout now st3)"
    and wc: "waitingCleared (checkArrivalTimeout now st3)"
    by (simp_all add: attemptRecorded_counted)
  from planAfterCloud_effect[OF p] have "sameBooks (checkArrivalTimeout now st3) st'" by simp
  with ac have "attemptCounted st goal st'" by (rule attemptCounted_same_books)
  moreover have "waitingCleared st' \<or> waitingRenewed now st'"
    using p wc by (rule planAfterCloud_waiting)
  ultimately show ?thesis by simp
qed

text \<open>
  Claim C2, amended.  In every state reached from a state that satisfies the invariant
  of the attempt counters (the initial engine does), no counter is above \<open>maxAttempts\<close>.
  When a cloud event with at least one point arrives while the engine, its position
  known, waits for an arrival with more than \<open>arrivalTimeout\<close> elapsed since
  \<open>missionStartTime\<close>, then in the state the handler returns the counter of the goal's
  key is one higher, the goal has been appended to \<open>unreachableGoals\<close> exactly when the
  counter has reached \<open>maxAttempts\<close>, and \<open>isWaitingForArrival\<close>, \<open>currentGoal\<close> and
  \<open>missionStartTime\<close> are cleared, unless the planning step of the same event has selected
  a new goal: then the engine waits for that goal since the time of the event.  The
  handler returns whenever the start position is known with the position.  When the
  stuck detection fires on a pose event, the attempt is counted in the same way, the
  three fields, the stuck timer and the velocity record are cleared, and the handler
  returns.
\<close>

theorem failed_attempt_bookkeeping:
  assumes "attemptsBounded initial" "run events initial = Inr st"
  shows "attemptsBounded newEngine \<and>
         (\<forall>k n. goalAttempts st k = Some n \<longrightarrow> n \<le> maxAttempts) \<and>
         (\<forall>points now pos goal t st'.
            currentPos st = Some pos \<and> points \<noteq> [] \<and>
            isWaitingForArrival st \<and> currentGoal st = Some goal \<and>
            missionStartTime st = Some t \<and> t \<noteq> 0 \<and> now - t > arrivalTimeout \<and>
            onPointCloudReceived points now st = Inr st' \<longrightarrow>
            attemptCounted st goal st' \<and> (waitingCleared st' \<or> waitingRenewed now st')) \<and>
         (\<forall>points now.
            (currentPos st \<noteq> None \<longrightarrow> startPos st \<noteq> None) \<longrightarrow>
            (\<exists>st'. onPointCloudReceived points now st = Inr st')) \<and>
         (\<forall>pos now goal.
            isWaitingForArrival st \<and> currentGoal st = Some goal \<and> stuckFires pos now st \<longrightarrow>
            attemptRecorded st goal (onOdometryReceived (Some pos) now st) \<and>
            stuckStartTime (onOdometryReceived (Some pos) now st) = None \<and>
            lastVelocityCheck (onOdometryReceived (Some pos) now st) = None)"
proof -
  have inv: "attemptsBounded st" using assms by (rule attemptsBounded_run)
  have a: "\<forall>k n. goalAttempts st k = Some n \<longrightarrow> n \<le> maxAttempts"
    using inv unfolding attemptsBounded_def by blast
  have b: "attemptCounted st goal st' \<and> (waitingCleared st' \<or> waitingRenewed now st')"
    if "currentPos st = Some pos \<and> points \<noteq> [] \<and>
            isWaitingForArrival st \<and> currentGoal st = Some goal \<and>
            missionStartTime st = Some t \<and> t \<noteq> 0 \<and> now - t > arrivalTimeout \<and>
            onPointCloudReceived points now st = Inr st'"
    for points now pos goal t st'
    using that cloud_timeout_returned[OF inv] by blast
  have r: "\<exists>st'. onPointCloudReceived points now st = Inr st'"
    if "currentPos st \<noteq> None \<longrightarrow> startPos st \<noteq> None" for points now
    using that by (rule onPointCloudReceived_returns)
  have c: "attemptRecorded st goal (onOdometryReceived (Some pos) now st) \<and>
            stuckStartTime (onOdometryReceived (Some pos) now st) = None \<and>
            lastVelocityCheck (onOdometryReceived (Some pos) now st) = None"
    if "isWaitingForArrival st \<and> currentGoal st = Some goal \<and> stuckFires pos now st"
    for pos now goal
    using that stuck_bookkeeping[OF inv] by blast
  show ?thesis using attemptsBounded_newEngine a b r c by blast
qed

lemma waiting_fields:
  "isWaitingForArrival waitingEngine" "currentGoal waitingEngine = Some goalFiveMetres"
  "missionStartTime waitingEngine = Some 1000" "currentPos waitingEngine = Some originPos"
  "goalAttempts waitingEngine = [goalKeyOf 5 0 \<mapsto> 4]" "unreachableGoals waitingEngine = []"
  "lastVelocityCheck waitingEngine = Some (4.85, 0, 9000)" "stuckStartTime waitingEngine = Some 5000"
  "visitedGoals waitingEngine = []" "isReturningHome waitingEngine = False"
  "startPos waitingEngine = Some originPos"
  by (simp_all add: waitingEngine_def newEngine_def)

lemma waiting_stuck: "stuckFires nearGoalPos 10000 waitingEngine"
  by (simp add: stuckFires_def waiting_fields nearGoalPos_def velocityBelowThreshold_def
      VELOCITY_THRESHOLD_def STUCK_THRESHOLD_def hypot_zero_right)

text \<open>The cloud event at the engine that retries its goal, step by step.\<close>

lemma retry_inflate: "inflateObstacles retryGrid = retryGrid"
  by (simp add: inflateObstacles_def retryGrid_def copyRaw_def cellIndex_def Let_def upt_rec)

lemma retry_update: "updateMapFromPointCloud [ceilingPoint] retryPos retryGrid = retryGrid"
  by (simp add: updateMapFromPointCloud_def samplePoints_def integratePoint_def ceilingPoint_def
      retryPos_def retry_inflate Let_def)

lemma retry_cells:
  "worldToGrid retryGrid (- 1) 0 = (1, 1)" "worldToGrid retryGrid 1 0 = (3, 1)"
  by (simp_all add: worldToGrid_def retryGrid_def)

lemma retry_detect:
  assumes "grid st = retryGrid" "config st = retryConfig"
  shows "detectFrontiers st retryPos = [retryFrontier]"
  apply (simp add: detectFrontiers_def assms retry_cells retryPos_def Let_def)
  apply (simp add: retryConfig_def defaultConfig_def retryGrid_def upto.simps getOccupancy_def isInMap_def cellIndex_def hasUnknownNeighbor_def gridToWorld_def
      clusterFrontiers_def retryFrontier_def)
  done

lemma retry_line: "bresenhamLine 1 1 3 1 = Some [(1, 1), (2, 1), (3, 1)]"
  by (simp add: bresenhamLine_def bresenhamLoop.simps)

lemma retry_path: "isPathClear retryGrid (- 1, 0) (1, 0) = Inr True"
  by (simp add: isPathClear_def retry_cells retry_line cellIsFree_def)
     (simp add: retryGrid_def isInMap_def getInflatedOccupancy_def cellIndex_def)

lemma retry_density:
  assumes "grid st = retryGrid" "config st = retryConfig"
  shows "calculatePointCloudDensity st 1 0 2 = 3 / 100"
  apply (simp add: calculatePointCloudDensity_def assms retry_cells Let_def retryConfig_def defaultConfig_def)
  apply (simp add: upto.simps densityOffset_def isInMap_def retryGrid_def getOccupancy_def cellIndex_def less_sqrt_iff Let_def)
  done

lemma retry_evaluate:
  assumes "grid st = retryGrid" "config st = retryConfig" "unreachableGoals st = []"
    "visitedGoals st = []" "lastGoalDirection st = Some (1, 0)" "sceneBounds st = None"
  shows "evaluateFrontier st retryPos retryFrontier = Inr (Some (Some (101 / 250), retryGoal))"
  apply (simp add: evaluateFrontier_def scoreFrontier_def Let_def assms retry_density[OF assms(1,2)]
      nearUnreachable_def hypot_less_iff hypot_zero_right retryPos_def retryFrontier_def
      retry_path retry_cells getExploredArea_def selectHeight_def isWithinBounds_def)
  apply (simp add: assms(3-6) retry_density[OF assms(1,2)] retryGrid_def isInMap_def
      getOccupancy_def cellIndex_def retryConfig_def defaultConfig_def defaultWeights_def
      retryGoal_def)
  done

lemma retry_select:
  assumes "grid st = retryGrid" "config st = retryConfig" "unreachableGoals st = []"
    "visitedGoals st = []" "lastGoalDirection st = Some (1, 0)" "sceneBounds st = None"
  shows "selectBestFrontier st [retryFrontier] retryPos =
     Inr (Some retryGoal, st\<lparr>lastGoalDirection := Some (1, 0)\<rparr>)"
  by (simp add: selectBestFrontier_def retry_evaluate[OF assms] scoreBetter_def Let_def)
     (simp add: retryGoal_def retryPos_def hypot_zero_right)

lemma retry_fields:
  "grid retryEngine = retryGrid" "config retryEngine = retryConfig"
  "currentPos retryEngine = Some retryPos" "startPos retryEngine = Some retryStart"
  "isWaitingForArrival retryEngine" "currentGoal retryEngine = Some retryGoal"
  "missionStartTime retryEngine = Some 1000" "goalAttempts retryEngine = Map.empty"
  "unreachableGoals retryEngine = []" "visitedGoals retryEngine = []"
  "lastGoalDirection retryEngine = Some (1, 0)" "sceneBounds retryEngine = None"
  "isExploring retryEngine" "\<not> isPaused retryEngine" "\<not> isPreparingNextGoal retryEngine"
  "startTime retryEngine = Some 0" "lastUpdateTime retryEngine = 1000"
  "lastStatusPublishTime retryEngine = 9000"
  "lastVelocityCheck retryEngine = Some (- 1, 0, 9000)" "stuckStartTime retryEngine = Some 6500"
  by (simp_all add: retryEngine_def newEngine_def)

lemma retry_timeout:
  "checkArrivalTimeout 10000 retryEngine =
     retryEngine\<lparr>goalAttempts := [goalKeyOf 1 0 \<mapsto> 1], isWaitingForArrival := False,
                  currentGoal := None, missionStartTime := None\<rparr>"
  by (simp add: checkArrivalTimeout_def recordFailedAttempt_def retry_fields truthyTime_def
      arrivalTimeout_def maxAttempts_def retryGoal_def Let_def)

lemma retry_step:
  "\<exists>st'. explorationStep 10000
           (retryEngine\<lparr>goalAttempts := [goalKeyOf 1 0 \<mapsto> 1], isWaitingForArrival := False,
                         currentGoal := None, missionStartTime := None\<rparr>) = Inr st' \<and>
         isWaitingForArrival st' \<and> currentGoal st' = Some retryGoal \<and>
         missionStartTime st' = Some 10000 \<and> goalAttempts st' = [goalKeyOf 1 0 \<mapsto> 1] \<and>
         unreachableGoals st' = []"
proof -
  let ?s = "retryEngine\<lparr>goalAttempts := [goalKeyOf 1 0 \<mapsto> 1], isWaitingForArrival := False,
                         currentGoal := None, missionStartTime := None\<rparr>"
  have d: "detectFrontiers ?s retryPos = [retryFrontier]"
    by (rule retry_detect) (simp_all add: retry_fields)
  let ?s2 = "?s\<lparr>frontiers := [retryFrontier]\<rparr>"
  have sel: "selectBestFrontier ?s2 [retryFrontier] retryPos =
     Inr (Some retryGoal, ?s2\<lparr>lastGoalDirection := Some (1, 0)\<rparr>)"
    by (rule retry_select) (simp_all add: retry_fields)
  have far: "\<not> hypot (vec_x retryPos - vec_x retryStart) (vec_y retryPos - vec_y retryStart)
               > maxDistance retryConfig"
    by (simp add: retryPos_def retryStart_def hypot_zero_right retryConfig_def defaultConfig_def)
  have dur: "\<not> real_of_int (10000 - 0) / 1000 > maxDuration retryConfig"
    by (simp add: retryConfig_def defaultConfig_def)
  show ?thesis
    using far dur
    by (simp add: explorationStep_def retry_fields d sel Let_def publishExplorationMission_def
        publishExplorationStatus_def emit_def)
qed

lemma retry_cloud:
  "\<exists>st'. onPointCloudReceived [ceilingPoint] 10000 retryEngine = Inr st' \<and>
         isWaitingForArrival st' \<and> currentGoal st' = Some retryGoal \<and>
         missionStartTime st' = Some 10000 \<and> goalAttempts st' = [goalKeyOf 1 0 \<mapsto> 1] \<and>
         unreachableGoals st' = []"
proof -
  let ?s = "retryEngine\<lparr>goalAttempts := [goalKeyOf 1 0 \<mapsto> 1], isWaitingForArrival := False,
                         currentGoal := None, missionStartTime := None\<rparr>"
  have g: "retryEngine\<lparr>grid := retryGrid\<rparr> = retryEngine"
    by (simp add: retryEngine_def)
  have p: "publishStatusPeriodically 10000 retryEngine = Inr retryEngine"
    by (simp add: publishStatusPeriodically_def retry_fields)
  have e: "onPointCloudReceived [ceilingPoint] 10000 retryEngine = planAfterCloud 10000 ?s"
    by (simp add: onPointCloudReceived_def retry_fields retry_update g p retry_timeout Let_def)
  obtain st1 where s: "explorationStep 10000 ?s = Inr st1"
    and f: "isWaitingForArrival st1" "currentGoal st1 = Some retryGoal"
      "missionStartTime st1 = Some 10000" "goalAttempts st1 = [goalKeyOf 1 0 \<mapsto> 1]"
      "unreachableGoals st1 = []"
    using retry_step by blast
  have "planAfterCloud 10000 ?s = Inr (st1\<lparr>lastUpdateTime := 10000\<rparr>)"
    by (simp add: planAfterCloud_def retry_fields s retryConfig_def defaultConfig_def)
  then show ?thesis using e f by simp
qed

lemma lastAttempt_fields:
  "isWaitingForArrival lastAttemptEngine" "currentGoal lastAttemptEngine = Some retryGoal"
  "missionStartTime lastAttemptEngine = Some 1000" "currentPos lastAttemptEngine = Some retryPos"
  "startPos lastAttemptEngine = Some retryStart"
  "goalAttempts lastAttemptEngine = [goalKeyOf 1 0 \<mapsto> 4]" "unreachableGoals lastAttemptEngine = []"
  "lastVelocityCheck lastAttemptEngine = Some (- 1, 0, 9000)"
  "stuckStartTime lastAttemptEngine = Some 6500"
  by (simp_all add: lastAttemptEngine_def retry_fields)

lemma lastAttempt_bounded: "attemptsBounded lastAttemptEngine"
  by (simp add: attemptsBounded_def lastAttempt_fields farFromBlacklist_def maxAttempts_def)

lemma lastAttempt_stuck: "stuckFires retryPos 10000 lastAttemptEngine"
  by (simp add: stuckFires_def lastAttempt_fields retryPos_def velocityBelowThreshold_def
      VELOCITY_THRESHOLD_def STUCK_THRESHOLD_def hypot_zero_right)

theorem failed_attempt_bookkeeping_witness:
  "attemptsBounded lastAttemptEngine \<and> run [] lastAttemptEngine = Inr lastAttemptEngine \<and>
   (\<exists>st'. onPointCloudReceived [ceilingPoint] 10000 lastAttemptEngine = Inr st' \<and>
          goalAttempts st' (goalKeyOf 1 0) = Some 5 \<and> unreachableGoals st' = [(1, 0)]) \<and>
   stuckFires retryPos 10000 lastAttemptEngine \<and>
   goalAttempts (onOdometryReceived (Some retryPos) 10000 lastAttemptEngine) (goalKeyOf 1 0) = Some 5 \<and>
   unreachableGoals (onOdometryReceived (Some retryPos) 10000 lastAttemptEngine) = [(1, 0)] \<and>
   currentGoal (onOdometryReceived (Some retryPos) 10000 lastAttemptEngine) = None"
proof -
  have r: "run [] lastAttemptEngine = Inr lastAttemptEngine" by simp
  note t = failed_attempt_bookkeeping[OF lastAttempt_bounded r]
  have g: "goal_x retryGoal = 1" "goal_y retryGoal = 0" by (simp_all add: retryGoal_def)
  have cnt: "goalAttempts st' (goalKeyOf 1 0) = Some 5 \<and> unreachableGoals st' = [(1, 0)]"
    if "attemptCounted lastAttemptEngine retryGoal st'" for st'
    using that by (simp add: attemptCounted_def Let_def g lastAttempt_fields maxAttempts_def)
  from t lastAttempt_fields(1,2) lastAttempt_stuck
  have rec: "attemptRecorded lastAttemptEngine retryGoal
               (onOdometryReceived (Some retryPos) 10000 lastAttemptEngine)"
    by blast
  then have s: "goalAttempts (onOdometryReceived (Some retryPos) 10000 lastAttemptEngine) (goalKeyOf 1 0) = Some 5 \<and>
      unreachableGoals (onOdometryReceived (Some retryPos) 10000 lastAttemptEngine) = [(1, 0)] \<and>
      currentGoal (onOdometryReceived (Some retryPos) 10000 lastAttemptEngine) = None"
    using cnt by (simp add: attemptRecorded_counted waitingCleared_def)
  have "currentPos lastAttemptEngine \<noteq> None \<longrightarrow> startPos lastAttemptEngine \<noteq> None"
    by (simp add: lastAttempt_fields)
  with t obtain st' where e: "onPointCloudReceived [ceilingPoint] 10000 lastAttemptEngine = Inr st'"
    by blast
  have c: "currentPos lastAttemptEngine = Some retryPos \<and> [ceilingPoint] \<noteq> [] \<and>
            isWaitingForArrival lastAttemptEngine \<and> currentGoal lastAttemptEngine = Some retryGoal \<and>
            missionStartTime lastAttemptEngine = Some 1000 \<and> (1000::int) \<noteq> 0 \<and>
            10000 - 1000 > arrivalTimeout \<and>
            onPointCloudReceived [ceilingPoint] 10000 lastAttemptEngine = Inr st'"
    using e by (simp add: lastAttempt_fields arrivalTimeout_def)
  from t c have "attemptCounted lastAttemptEngine retryGoal st'" by blast
  from cnt[OF this] e
  have "\<exists>st'. onPointCloudReceived [ceilingPoint] 10000 lastAttemptEngine = Inr st' \<and>
          goalAttempts st' (goalKeyOf 1 0) = Some 5 \<and> unreachableGoals st' = [(1, 0)]"
    by blast
  then show ?thesis using lastAttempt_bounded r lastAttempt_stuck s by blast
qed

text \<open>
  The claim as stated fails twice at the engine that waits since 9 s.  A cloud without
  points returns at once and leaves the engine as it is.  A cloud with a point counts
  the attempt, and the planning step of the same event selects the frontier again: the
  handler returns with \<open>isWaitingForArrival\<close> true, the goal set and \<open>missionStartTime\<close>
  the time of the event.
\<close>

theorem cloud_timeout_empty_or_replanned:
  "isWaitingForArrival retryEngine \<and> currentGoal retryEngine = Some retryGoal \<and>
   missionStartTime retryEngine = Some 1000 \<and> 10000 - 1000 > arrivalTimeout \<and>
   onPointCloudReceived [] 10000 retryEngine = Inr retryEngine \<and>
   map_sum id isWaitingForArrival (onPointCloudReceived [ceilingPoint] 10000 retryEngine) = Inr True \<and>
   map_sum id currentGoal (onPointCloudReceived [ceilingPoint] 10000 retryEngine) = Inr (Some retryGoal) \<and>
   map_sum id missionStartTime (onPointCloudReceived [ceilingPoint] 10000 retryEngine) = Inr (Some 10000)"
proof -
  obtain st' where "onPointCloudReceived [ceilingPoint] 10000 retryEngine = Inr st'"
    "isWaitingForArrival st'" "currentGoal st' = Some retryGoal" "missionStartTime st' = Some 10000"
    using retry_cloud by blast
  then show ?thesis
    by (simp add: retry_fields arrivalTimeout_def onPointCloudReceived_def)
qed

lemma checkArrivalTimeout_visited:
  "visitedGoals (checkArrivalTimeout now st) = visitedGoals st"
  by (simp add: checkArrivalTimeout_def Let_def recordFailedAttempt_fields)

lemma onPointCloudReceived_visited:
  assumes "onPointCloudReceived points now st = Inr st'"
  shows "visitedGoals st' = visitedGoals st"
proof (cases "currentPos st = None \<or> points = []")
  case True
  then have "st' = st" using assms by (auto simp: onPointCloudReceived_def split: option.splits)
  then show ?thesis by simp
next
  case False
  then obtain pos where "currentPos st = Some pos" "points \<noteq> []" by auto
  from onPointCloudReceived_structure[OF this, of now] obtain st3 where
    e: "onPointCloudReceived points now st = planAfterCloud now (checkArrivalTimeout now st3)"
    and k: "bookkeepingKept st st3" by blast
  have "planAfterCloud now (checkArrivalTimeout now st3) = Inr st'" using e assms by simp
  from planAfterCloud_effect[OF this] have "visitedGoals st' = visitedGoals (checkArrivalTimeout now st3)"
    by (simp add: sameBooks_def)
  then show ?thesis using k by (simp add: checkArrivalTimeout_visited bookkeepingKept_def sameBooks_def)
qed

text \<open>What a pose event does to \<open>visitedGoals\<close>.\<close>

lemma onOdometryReceived_no_arrival:
  assumes "\<not> (isWaitingForArrival st \<and> currentGoal st \<noteq> None)"
  shows "visitedGoals (onOdometryReceived position now st) = visitedGoals st"
proof (cases position)
  case None
  then show ?thesis by (simp add: onOdometryReceived_def)
next
  case (Some newPos)
  note k = checkReturnHome_kept[of st newPos]
  have "(if isWaitingForArrival (checkReturnHome newPos st)
         then currentGoal (checkReturnHome newPos st) else None) = None"
    using assms k by auto
  then show ?thesis using Some k
    by (simp add: onOdometryReceived_def Let_def bookkeepingKept_def sameBooks_def)
qed

lemma onOdometryReceived_waiting:
  assumes w: "isWaitingForArrival st" "currentGoal st = Some goal"
  shows "onOdometryReceived (Some newPos) now st =
     (if stuckFires newPos now st
      then snd (stuckDetection newPos now (checkReturnHome newPos st))
      else (arrivalCheck newPos now goal (snd (stuckDetection newPos now (checkReturnHome newPos st))))
             \<lparr>currentPos := Some newPos\<rparr>)"
proof -
  define st1 where "st1 = checkReturnHome newPos st"
  note k = checkReturnHome_kept[of st newPos, folded st1_def]
  have g: "(if isWaitingForArrival st1 then currentGoal st1 else None) = Some goal"
    using k w by simp
  have f: "fst (stuckDetection newPos now st1) = stuckFires newPos now st"
    by (simp add: stuckDetection_fired st1_def stuckFires_checkReturnHome)
  obtain fired st2 where sd: "stuckDetection newPos now st1 = (fired, st2)"
    by (cases "stuckDetection newPos now st1")
  show ?thesis
    using g f sd by (simp add: onOdometryReceived_def Let_def st1_def[symmetric])
qed

lemma onOdometryReceived_arrival:
  assumes w: "isWaitingForArrival st" "currentGoal st = Some goal"
    and ns: "\<not> stuckFires newPos now st"
    and d: "hypot (vec_x newPos - goal_x goal) (vec_y newPos - goal_y goal) < 0.3"
  shows "visitedGoals (onOdometryReceived (Some newPos) now st) = visitedGoals st @ [(goal_x goal, goal_y goal)]"
    "goalAttempts (onOdometryReceived (Some newPos) now st) =
       (goalAttempts st)(goalKeyOf (goal_x goal) (goal_y goal) := None)"
    "\<not> isWaitingForArrival (onOdometryReceived (Some newPos) now st)"
proof -
  define st1 where "st1 = checkReturnHome newPos st"
  define st2 where "st2 = snd (stuckDetection newPos now st1)"
  note k = checkReturnHome_kept[of st newPos, folded st1_def]
  have ns1: "\<not> stuckFires newPos now st1" using ns by (simp add: st1_def stuckFires_checkReturnHome)
  have s2: "st2 = st1\<lparr>stuckStartTime := stuckStartTime st2\<rparr>"
    using stuckDetection_result[of newPos now st1] ns1 by (simp add: st2_def)
  have b2: "visitedGoals st2 = visitedGoals st" "goalAttempts st2 = goalAttempts st"
    using k by (subst s2, simp add: bookkeepingKept_def sameBooks_def)+
  have res: "onOdometryReceived (Some newPos) now st =
      (arrivalCheck newPos now goal st2)\<lparr>currentPos := Some newPos\<rparr>"
    using onOdometryReceived_waiting[OF w, of newPos now] ns by (simp add: st1_def st2_def)
  note a = arrivalCheck_arrived[OF d, where now = now and st = st2]
  show "visitedGoals (onOdometryReceived (Some newPos) now st) = visitedGoals st @ [(goal_x goal, goal_y goal)]"
    unfolding res using a b2 by simp
  show "goalAttempts (onOdometryReceived (Some newPos) now st) =
       (goalAttempts st)(goalKeyOf (goal_x goal) (goal_y goal) := None)"
    unfolding res using a b2 by simp
  show "\<not> isWaitingForArrival (onOdometryReceived (Some newPos) now st)"
    unfolding res using a by simp
qed

lemma onOdometryReceived_not_near:
  assumes w: "isWaitingForArrival st" "currentGoal st = Some goal"
    and d: "stuckFires newPos now st \<or> \<not> hypot (vec_x newPos - goal_x goal) (vec_y newPos - goal_y goal) < 0.3"
  shows "visitedGoals (onOdometryReceived (Some newPos) now st) = visitedGoals st"
proof (cases "stuckFires newPos now st")
  case True
  define st1 where "st1 = checkReturnHome newPos st"
  note k = checkReturnHome_kept[of st newPos, folded st1_def]
  have f1: "stuckFires newPos now st1" using True by (simp add: st1_def stuckFires_checkReturnHome)
  have "visitedGoals (snd (stuckDetection newPos now st1)) = visitedGoals st1"
    using stuckDetection_result[of newPos now st1] f1 by (simp add: recordFailedAttempt_fields)
  then show ?thesis
    using onOdometryReceived_waiting[OF w, of newPos now] True k
    by (simp add: st1_def bookkeepingKept_def sameBooks_def)
next
  case False
  define st1 where "st1 = checkReturnHome newPos st"
  define st2 where "st2 = snd (stuckDetection newPos now st1)"
  note k = checkReturnHome_kept[of st newPos, folded st1_def]
  have ns1: "\<not> stuckFires newPos now st1" using False by (simp add: st1_def stuckFires_checkReturnHome)
  have s2: "st2 = st1\<lparr>stuckStartTime := stuckStartTime st2\<rparr>"
    using stuckDetection_result[of newPos now st1] ns1 by (simp add: st2_def)
  have b2: "visitedGoals st2 = visitedGoals st"
    using k by (subst s2, simp add: bookkeepingKept_def sameBooks_def)
  have far: "\<not> hypot (vec_x newPos - goal_x goal) (vec_y newPos - goal_y goal) < 0.3"
    using d False by simp
  note a = arrivalCheck_not_arrived[OF far, where now = now and st = st2]
  show ?thesis
    using onOdometryReceived_waiting[OF w, of newPos now] False a(1) b2
    by (simp add: st1_def st2_def sameBooks_def)
qed

lemma handle_visited:
  assumes "handle event st = Inr st'"
  shows "visitedGoals st' = visitedGoals st \<or>
         (visitedGoals st' = [] \<and> clearsVisitedGoals event) \<or>
         (\<exists>pos now goal.
            event = Odometry (Some pos) now \<and> isWaitingForArrival st \<and>
            currentGoal st = Some goal \<and>
            hypot (vec_x pos - goal_x goal) (vec_y pos - goal_y goal) < 0.3 \<and>
            visitedGoals st' = visitedGoals st @ [(goal_x goal, goal_y goal)] \<and>
            goalAttempts st' = (goalAttempts st)(goalKeyOf (goal_x goal) (goal_y goal) := None) \<and>
            \<not> isWaitingForArrival st')"
proof (cases event)
  case (PointCloud points now)
  then show ?thesis using assms onPointCloudReceived_visited by simp
next
  case (Odometry position now)
  then have e: "st' = onOdometryReceived position now st" using assms by simp
  show ?thesis
  proof (cases "isWaitingForArrival st \<and> currentGoal st \<noteq> None \<and> position \<noteq> None")
    case False
    then show ?thesis
    proof (cases position)
      case None
      then show ?thesis using e by (simp add: onOdometryReceived_def)
    next
      case (Some newPos)
      then have "\<not> (isWaitingForArrival st \<and> currentGoal st \<noteq> None)" using False by simp
      then show ?thesis using e onOdometryReceived_no_arrival by simp
    qed
  next
    case True
    then obtain goal pos where w: "isWaitingForArrival st" "currentGoal st = Some goal"
      and p: "position = Some pos" by auto
    show ?thesis
    proof (cases "stuckFires pos now st \<or>
                  \<not> hypot (vec_x pos - goal_x goal) (vec_y pos - goal_y goal) < 0.3")
      case True
      from onOdometryReceived_not_near[OF w True] show ?thesis using e p by simp
    next
      case False
      then have ns: "\<not> stuckFires pos now st"
        and d: "hypot (vec_x pos - goal_x goal) (vec_y pos - goal_y goal) < 0.3" by simp_all
      note a = onOdometryReceived_arrival[OF w ns d]
      have "event = Odometry (Some pos) now \<and> isWaitingForArrival st \<and>
            currentGoal st = Some goal \<and>
            hypot (vec_x pos - goal_x goal) (vec_y pos - goal_y goal) < 0.3 \<and>
            visitedGoals st' = visitedGoals st @ [(goal_x goal, goal_y goal)] \<and>
            goalAttempts st' = (goalAttempts st)(goalKeyOf (goal_x goal) (goal_y goal) := None) \<and>
            \<not> isWaitingForArrival st'"
        using a w d e p Odometry by simp
      then show ?thesis by blast
    qed
  qed
next
  case (StartExploration opts now)
  then show ?thesis using assms startExploration_effect[of opts now st] by auto
next
  case StartExplorationResumed
  then show ?thesis using assms startExplorationResumed_kept[of st st']
    by (simp add: bookkeepingKept_def sameBooks_def)
next
  case PauseExploration
  then show ?thesis using assms pauseExploration_kept[of st]
    by (auto simp: bookkeepingKept_def sameBooks_def)
next
  case (ResumeExploration now)
  then have "resumeExploration now st = Inr st'" using assms by simp
  from resumeExploration_effect[OF this] show ?thesis by (simp add: sameBooks_def)
next
  case (StopExploration now)
  then have "stopExploration now st = Inr st'" using assms by simp
  from stopExploration_kept[OF this] show ?thesis by (simp add: bookkeepingKept_def sameBooks_def)
next
  case (ReturnToHome now)
  then have "returnToHome now st = Inr st'" using assms by simp
  from returnToHome_kept[OF this] show ?thesis by (simp add: bookkeepingKept_def sameBooks_def)
next
  case (ExplorationStepTimer now)
  then have "explorationStep now st = Inr st'" using assms by simp
  from explorationStep_effect[OF this] show ?thesis by (simp add: sameBooks_def)
next
  case (Reset now)
  then have "resetEngine now st = Inr st'" using assms by simp
  from resetEngine_effect[OF this] show ?thesis using Reset by auto
next
  case (SetROI polygon)
  then show ?thesis using assms setROI_kept[of st polygon]
    by (auto simp: bookkeepingKept_def sameBooks_def)
next
  case ClearROI
  then show ?thesis using assms clearROI_kept[of st]
    by (auto simp: bookkeepingKept_def sameBooks_def)
next
  case (SetScoringWeights weights)
  then show ?thesis using assms setScoringWeights_kept[of st weights]
    by (auto simp: bookkeepingKept_def sameBooks_def)
qed

lemma selectBestFrontier_visited:
  assumes "selectBestFrontier st frontierList pos = Inr (result, st')"
  shows "visitedGoals st' = visitedGoals st"
  using selectBestFrontier_cases[OF assms] by auto

text \<open>
  Claim C3, amended.  A handler leaves \<open>visitedGoals\<close> as it was, or empties it
  (\<open>startExploration\<close> and \<open>reset\<close> only), or appends the goal's \<open>(x, y)\<close>; it appends only
  on a pose event that arrives while the engine waits, closer than 0.3 m to the goal,
  and it then deletes the goal's attempt counter and clears \<open>isWaitingForArrival\<close>.
  Such a pose event does append whenever the stuck detection does not fire on it.
  \<open>selectBestFrontier\<close> never changes \<open>visitedGoals\<close>.
\<close>

theorem visitedGoals_only_by_arrival:
  "(\<forall>event st st'. handle event st = Inr st' \<longrightarrow>
      visitedGoals st' = visitedGoals st \<or>
      (visitedGoals st' = [] \<and> clearsVisitedGoals event) \<or>
      (\<exists>pos now goal.
         event = Odometry (Some pos) now \<and> isWaitingForArrival st \<and>
         currentGoal st = Some goal \<and>
         hypot (vec_x pos - goal_x goal) (vec_y pos - goal_y goal) < 0.3 \<and>
         visitedGoals st' = visitedGoals st @ [(goal_x goal, goal_y goal)] \<and>
         goalAttempts st' = (goalAttempts st)(goalKeyOf (goal_x goal) (goal_y goal) := None) \<and>
         \<not> isWaitingForArrival st')) \<and>
   (\<forall>st pos now goal.
      isWaitingForArrival st \<and> currentGoal st = Some goal \<and>
      hypot (vec_x pos - goal_x goal) (vec_y pos - goal_y goal) < 0.3 \<and>
      \<not> stuckFires pos now st \<longrightarrow>
      visitedGoals (onOdometryReceived (Some pos) now st) = visitedGoals st @ [(goal_x goal, goal_y goal)] \<and>
      goalAttempts (onOdometryReceived (Some pos) now st) =
        (goalAttempts st)(goalKeyOf (goal_x goal) (goal_y goal) := None) \<and>
      \<not> isWaitingForArrival (onOdometryReceived (Some pos) now st)) \<and>
   (\<forall>st frontierList pos result st'.
      selectBestFrontier st frontierList pos = Inr (result, st') \<longrightarrow>
      visitedGoals st' = visitedGoals st)"
  using handle_visited onOdometryReceived_arrival selectBestFrontier_visited
  by (intro conjI allI impI) blast+

lemma fresh_fields:
  "isWaitingForArrival freshWaitingEngine" "currentGoal freshWaitingEngine = Some goalFiveMetres"
  "lastVelocityCheck freshWaitingEngine = None" "visitedGoals freshWaitingEngine = []"
  by (simp_all add: freshWaitingEngine_def waiting_fields)

theorem visitedGoals_only_by_arrival_witness:
  "isWaitingForArrival freshWaitingEngine \<and> currentGoal freshWaitingEngine = Some goalFiveMetres \<and>
   hypot (vec_x nearGoalPos - goal_x goalFiveMetres) (vec_y nearGoalPos - goal_y goalFiveMetres) < 0.3 \<and>
   \<not> stuckFires nearGoalPos 10000 freshWaitingEngine \<and>
   visitedGoals (onOdometryReceived (Some nearGoalPos) 10000 freshWaitingEngine) = [(5, 0)] \<and>
   \<not> isWaitingForArrival (onOdometryReceived (Some nearGoalPos) 10000 freshWaitingEngine)"
proof -
  have d: "hypot (vec_x nearGoalPos - goal_x goalFiveMetres) (vec_y nearGoalPos - goal_y goalFiveMetres) < 0.3"
    by (simp add: nearGoalPos_def goalFiveMetres_def hypot_zero_right)
  have ns: "\<not> stuckFires nearGoalPos 10000 freshWaitingEngine"
    by (simp add: stuckFires_def fresh_fields)
  from visitedGoals_only_by_arrival fresh_fields(1,2) d ns
  have "visitedGoals (onOdometryReceived (Some nearGoalPos) 10000 freshWaitingEngine) =
          visitedGoals freshWaitingEngine @ [(goal_x goalFiveMetres, goal_y goalFiveMetres)] \<and>
        \<not> isWaitingForArrival (onOdometryReceived (Some nearGoalPos) 10000 freshWaitingEngine)"
    by blast
  then show ?thesis using fresh_fields d ns by (simp add: goalFiveMetres_def)
qed

text \<open>
  The claim as stated fails twice: \<open>startExploration\<close> empties a non-empty
  \<open>visitedGoals\<close>; and a pose 10 cm from the goal appends nothing when the stuck
  detection fires on it.
\<close>

theorem visitedGoals_not_append_only:
  "visitedGoals visitedEngine = [(3, 0)] \<and>
   visitedGoals (startExploration noOptions 0 visitedEngine) = [] \<and>
   isWaitingForArrival waitingEngine \<and> currentGoal waitingEngine = Some goalFiveMetres \<and>
   hypot (vec_x nearGoalPos - goal_x goalFiveMetres) (vec_y nearGoalPos - goal_y goalFiveMetres) < 0.3 \<and>
   visitedGoals (onOdometryReceived (Some nearGoalPos) 10000 waitingEngine) = visitedGoals waitingEngine"
proof -
  have a: "visitedGoals visitedEngine = [(3, 0)]" by (simp add: visitedEngine_def)
  have b: "visitedGoals (startExploration noOptions 0 visitedEngine) = []"
    by (simp add: startExploration_def visitedEngine_def noOptions_def newEngine_def emit_def Let_def)
  have d: "hypot (vec_x nearGoalPos - goal_x goalFiveMetres) (vec_y nearGoalPos - goal_y goalFiveMetres) < 0.3"
    by (simp add: nearGoalPos_def goalFiveMetres_def hypot_zero_right)
  have c: "visitedGoals (onOdometryReceived (Some nearGoalPos) 10000 waitingEngine) = visitedGoals waitingEngine"
    using waiting_fields(1,2) waiting_stuck by (intro onOdometryReceived_not_near) simp_all
  show ?thesis using a b c d waiting_fields(1,2) by simp
qed

text \<open>
  \<open>reset\<close> is \<open>stopExploration\<close>, then the reset of the grid, then two assignments of an
  empty list.  None of the three touches \<open>goalAttempts\<close> or \<open>unreachableGoals\<close>.
\<close>

lemma resetEngine_attempt_books:
  assumes "resetEngine now st = Inr st'"
  shows "goalAttempts st' = goalAttempts st \<and> unreachableGoals st' = unreachableGoals st"
proof -
  from resetEngine_effect[OF assms] obtain st1 where
    s: "stopExploration now st = Inr st1"
    and e: "st' = st1\<lparr>grid := reset (grid st1), frontiers := [], visitedGoals := []\<rparr>" by blast
  from stopExploration_kept[OF s] show ?thesis unfolding e
    by (simp add: bookkeepingKept_def sameBooks_def)
qed

text \<open>
  Claim C9, amended.  After \<open>reset\<close> returns, both arrays of the grid are all 0, its
  counters are those of a fresh grid, \<open>frontiers\<close> and \<open>visitedGoals\<close> are empty and the
  engine does not explore; and the engine is returning home exactly if it was, or if it
  was exploring more than 1 m from its start, where \<open>stopExploration\<close> sends the vehicle
  home.
\<close>

theorem resetEngine_postcondition:
  assumes "resetEngine now st = Inr st'"
  shows "data (grid st') = replicate (length (data (grid st))) 0 \<and>
         inflatedData (grid st') = replicate (length (inflatedData (grid st))) 0 \<and>
         stats_unknown (grid st') = int (width (grid st) * height (grid st)) \<and>
         stats_free (grid st') = 0 \<and> stats_occupied (grid st') = 0 \<and>
         frontiers st' = [] \<and> visitedGoals st' = [] \<and> \<not> isExploring st' \<and>
         (isReturningHome st' \<longleftrightarrow> isReturningHome st \<or> (isExploring st \<and> farFromHome st))"
proof -
  from resetEngine_effect[OF assms] obtain st1 where
    s: "stopExploration now st = Inr st1"
    and e: "st' = st1\<lparr>grid := reset (grid st1), frontiers := [], visitedGoals := []\<rparr>" by blast
  note k = stopExploration_kept[OF s]
  note f = stopExploration_flags[OF s]
  have g: "grid st1 = grid st" using k by simp
  show ?thesis unfolding e using g f by (simp add: reset_def)
qed

lemma far_fields:
  "isExploring farEngine" "startPos farEngine = Some originPos" "currentPos farEngine = Some farPos"
  "isReturningHome farEngine = False" "visitedGoals farEngine = [(1, 1)]"
  by (simp_all add: farEngine_def newEngine_def)

lemma far_farFromHome: "farFromHome farEngine"
  by (simp add: farFromHome_def far_fields farPos_def originPos_def hypot_zero_right)

lemma far_reset_returns: "\<exists>st'. resetEngine 2000 farEngine = Inr st'"
proof -
  have "\<exists>st1. stopExploration 2000 farEngine = Inr st1"
    by (rule stopExploration_returns) (simp add: far_fields)
  then show ?thesis by (auto simp: resetEngine_def)
qed

theorem resetEngine_postcondition_witness:
  "\<exists>st'. resetEngine 2000 farEngine = Inr st' \<and> visitedGoals st' = [] \<and> frontiers st' = [] \<and>
         stats_free (grid st') = 0 \<and> \<not> isExploring st' \<and> isReturningHome st'"
proof -
  obtain st' where r: "resetEngine 2000 farEngine = Inr st'" using far_reset_returns by blast
  from resetEngine_postcondition[OF r] show ?thesis using r far_fields far_farFromHome by auto
qed

text \<open>
  The claim as stated fails on an engine that explores 5 m from its start: \<open>reset\<close> stops
  the exploration, \<open>stopExploration\<close> sends the vehicle home, and the engine is returning
  home afterwards, not idle.
\<close>

theorem reset_far_from_home_returns_home:
  "isExploring farEngine \<and> \<not> isReturningHome farEngine \<and>
   map_sum id isExploring (resetEngine 2000 farEngine) = Inr False \<and>
   map_sum id isReturningHome (resetEngine 2000 farEngine) = Inr True"
proof -
  obtain st' where r: "resetEngine 2000 farEngine = Inr st'" using far_reset_returns by blast
  from resetEngine_effect[OF r] obtain st1 where
    s: "stopExploration 2000 farEngine = Inr st1"
    and e: "st' = st1\<lparr>grid := reset (grid st1), frontiers := [], visitedGoals := []\<rparr>" by blast
  note f = stopExploration_flags[OF s]
  have "isReturningHome st'" "\<not> isExploring st'"
    using e f far_fields(1) far_farFromHome by simp_all
  then show ?thesis using r far_fields by simp
qed

lemma startExploration_flags:
  assumes "\<not> isExploring st"
    and "(case opt_startPosition opts of Some p \<Rightarrow> Some p | None \<Rightarrow> currentPos st) = Some pos"
  shows "pendingStarts (startExploration opts now st) = pendingStarts st + 1 \<and>
         \<not> isExploring (startExploration opts now st) \<and>
         isReturningHome (startExploration opts now st) = isReturningHome st \<and>
         startPos (startExploration opts now st) = Some pos \<and>
         currentPos (startExploration opts now st) = Some pos \<and>
         \<not> isWaitingForArrival (startExploration opts now st)"
  using assms
  by (cases "opt_startPosition opts") (simp_all add: startExploration_def Let_def emit_def)

lemma startExplorationResumed_flags:
  assumes "0 < pendingStarts st" "startPos st = Some home"
  shows "\<exists>st'. startExplorationResumed st = Inr st' \<and> isExploring st' \<and>
           isReturningHome st' = isReturningHome st \<and>
           pendingStarts st' = pendingStarts st - 1 \<and> startPos st' = startPos st \<and>
           currentPos st' = currentPos st \<and> isWaitingForArrival st' = isWaitingForArrival st"
  using assms by (simp add: startExplorationResumed_def Let_def emit_def)

lemma onOdometryReceived_idle:
  assumes "\<not> isWaitingForArrival st" "\<not> isReturningHome st"
  shows "onOdometryReceived (Some pos) now st = st\<lparr>currentPos := Some pos\<rparr>"
  using assms
  by (cases "startPos st") (simp_all add: onOdometryReceived_def checkReturnHome_def Let_def)

text \<open>
  Claim C1 fails on the code.  Start at the origin, fly 5 m away, stop (the engine
  starts to return home), and start again before the vehicle is home: the engine is
  then exploring and returning home at once, since \<open>startExploration\<close> neither refuses
  to start while \<open>isReturningHome\<close> nor clears the flag.
\<close>

theorem restart_while_returning_home:
  "map_sum id isReturningHome (run restartTrace newEngine) = Inr True \<and>
   map_sum id isExploring (run restartTrace newEngine) = Inr True"
proof -
  define s1 where "s1 = startExploration startAtOrigin 0 newEngine"
  have n: "\<not> isExploring newEngine" "pendingStarts newEngine = 0"
    "\<not> isReturningHome newEngine"
    by (simp_all add: newEngine_def)
  have o: "(case opt_startPosition startAtOrigin of Some p \<Rightarrow> Some p | None \<Rightarrow> currentPos newEngine)
           = Some originPos"
    by (simp add: startAtOrigin_def noOptions_def)
  note f1 = startExploration_flags[OF n(1) o, of 0, folded s1_def]
  from startExplorationResumed_flags[of s1 originPos] f1 n obtain s2 where
    r2: "startExplorationResumed s1 = Inr s2" and f2: "isExploring s2" "\<not> isReturningHome s2"
      "pendingStarts s2 = 0" "startPos s2 = Some originPos" "\<not> isWaitingForArrival s2"
    by auto
  define s3 where "s3 = onOdometryReceived (Some farPos) 1000 s2"
  have e3: "s3 = s2\<lparr>currentPos := Some farPos\<rparr>"
    unfolding s3_def using f2 by (intro onOdometryReceived_idle) simp_all
  have f3: "isExploring s3" "\<not> isReturningHome s3" "pendingStarts s3 = 0"
    "startPos s3 = Some originPos" "currentPos s3 = Some farPos"
    using f2 by (simp_all add: e3)
  have far: "farFromHome s3"
    by (simp add: farFromHome_def f3 farPos_def originPos_def hypot_zero_right)
  obtain s4 where r4: "stopExploration 2000 s3 = Inr s4"
    using stopExploration_returns[of s3 2000] f3 by auto
  from stopExploration_flags[OF r4] f3 far have f4: "\<not> isExploring s4" "isReturningHome s4"
    "pendingStarts s4 = 0" "currentPos s4 = Some farPos"
    by simp_all
  define s5 where "s5 = startExploration noOptions 3000 s4"
  have o5: "(case opt_startPosition noOptions of Some p \<Rightarrow> Some p | None \<Rightarrow> currentPos s4)
            = Some farPos"
    using f4 by (simp add: noOptions_def)
  note f5 = startExploration_flags[OF f4(1) o5, of 3000, folded s5_def]
  from startExplorationResumed_flags[of s5 farPos] f5 f4 obtain s6 where
    r6: "startExplorationResumed s5 = Inr s6" and f6: "isExploring s6" "isReturningHome s6"
    by auto
  have "run restartTrace newEngine = Inr s6"
    using r2 r4 r6 by (simp add: restartTrace_def s1_def[symmetric] s3_def[symmetric] s5_def[symmetric])
  then show ?thesis using f6 by simp
qed

end
